theory Spec2Isabelle
  imports Main
begin

section \<open>Data model of the wikitext serializer\<close>

text \<open>
  The serializer lives in \<^verbatim>\<open>src/js/api/ParserService.js\<close> (the part that starts with
  \<^verbatim>\<open>require('./core-upgrade.js')\<close>).  JavaScript strings are modelled as \<^typ>\<open>string\<close>:
  one \<^typ>\<open>char\<close> per code unit, restricted to the 8-bit range.  A property that may be
  \<^verbatim>\<open>undefined\<close> or \<^verbatim>\<open>null\<close> is an \<^typ>\<open>'a option\<close>.  A thrown exception is the
  \<open>Inl\<close> side of a sum.
\<close>

datatype error =
  TypeError       \<comment> \<open>property read on \<^verbatim>\<open>null\<close> / \<^verbatim>\<open>undefined\<close>\<close>
  | NotFoundError \<comment> \<open>the DOM exception of \<^verbatim>\<open>removeChild\<close> and \<^verbatim>\<open>insertBefore\<close>\<close>
  | Thrown string \<comment> \<open>an explicit \<^verbatim>\<open>throw\<close>\<close>
  | OutOfFuel     \<comment> \<open>the recursion bound of a model function is used up\<close>

text \<open>JavaScript truthiness of a string-valued property: absent and empty are both falsy.\<close>

definition truthy :: "string option \<Rightarrow> bool" where
  "truthy v = (case v of None \<Rightarrow> False | Some s \<Rightarrow> s \<noteq> [])"

text \<open>\<^verbatim>\<open>a || b\<close> where \<^verbatim>\<open>a\<close> is a string-valued property and \<^verbatim>\<open>b\<close> a string.\<close>

definition orElse :: "string option \<Rightarrow> string \<Rightarrow> string" where
  "orElse v d = (case v of None \<Rightarrow> d | Some s \<Rightarrow> if s = [] then d else s)"

text \<open>
  A \<^verbatim>\<open>dsr\<close> value is a JavaScript array whose entries are numbers or \<^verbatim>\<open>null\<close> (\<open>None\<close>);
  the parser writes the 4-tuple \<^verbatim>\<open>[start, end, openWidth, closeWidth]\<close>, but the serializer
  indexes whatever array it finds.
\<close>

type_synonym dsr = "int option list"

text \<open>
  The round-trip metadata (\<^verbatim>\<open>data-parsoid\<close>, \<^verbatim>\<open>token.dataAttribs\<close>), with the fields
  the modelled functions read.  A boolean flag that is absent is \<open>False\<close>.
\<close>

record dataParsoid =
  src :: "string option"
  dsrOf :: "dsr option"
  stx :: "string option"
  stx_v :: "string option"
  startTagSrc :: "string option"
  endTagSrc :: "string option"
  attrSepSrc :: "string option"
  magicSrc :: "string option"
  srcTagName :: "string option"
  autoInsertedStart :: bool
  autoInsertedEnd :: bool
  selfClose :: bool
  noClose :: bool
  optionList :: "(string \<times> string option) list option"
  optNames :: "(string \<times> string) list option"
  srcContent :: "string option"
  strippedNL :: "string option"
  tail :: "string option"
  prefix :: "string option"
  pipetrick :: bool

definition emptyDP :: dataParsoid where
  "emptyDP = \<lparr> src = None, dsrOf = None, stx = None, stx_v = None, startTagSrc = None,
     endTagSrc = None, attrSepSrc = None, magicSrc = None, srcTagName = None,
     autoInsertedStart = False, autoInsertedEnd = False, selfClose = False, noClose = False,
     optionList = None, optNames = None, srcContent = None, strippedNL = None,
     tail = None, prefix = None, pipetrick = False \<rparr>"

text \<open>Tokens: \<^verbatim>\<open>pd.TagTk\<close>, \<^verbatim>\<open>pd.EndTagTk\<close>, \<^verbatim>\<open>pd.SelfclosingTagTk\<close>, a plain string,
  \<^verbatim>\<open>pd.CommentTk\<close>, \<^verbatim>\<open>pd.NlTk\<close>, \<^verbatim>\<open>pd.EOFTk\<close>.\<close>

datatype tokenType = TagTk | EndTagTk | SelfclosingTagTk

record tagToken =
  tt :: tokenType
  name :: string
  attribs :: "(string \<times> string) list"
  dataAttribs :: dataParsoid

datatype token = Tag tagToken | Str string | CommentTk string | NlTk | EOFTk

text \<open>\<^verbatim>\<open>tok.constructor === c && tok.name === n\<close> on a token that is not \<^verbatim>\<open>null\<close>.\<close>

fun isTagNamed :: "tokenType \<Rightarrow> string \<Rightarrow> token \<Rightarrow> bool" where
  "isTagNamed c n (Tag t) = (tt t = c \<and> name t = n)"
| "isTagNamed c n _ = False"

text \<open>The escape handlers of \<^verbatim>\<open>WikitextEscapeHandlers.prototype\<close>, by name.\<close>

datatype wteHandler =
  HeadingHandler | LiHandler | LinkHandler | QuoteHandler | ThHandler
  | WikilinkHandler | AHandler | TdHandler

record listFrame =
  itemCount :: nat
  bullets :: string
  itemBullet :: string

record currLine =
  lineText :: "string option"
  numPieces :: nat
  processed :: bool
  hasBracketPair :: bool
  hasHeadingPair :: bool

text \<open>
  The function stored in \<^verbatim>\<open>state.chunkCB\<close>: the callback \<^verbatim>\<open>serializeDOM\<close> installs, the
  collector of \<^verbatim>\<open>serializeChildrenToString\<close> (\<^verbatim>\<open>bits.push(res)\<close>), or the wrapper
  \<^verbatim>\<open>cbWrapper\<close> of \<^verbatim>\<open>_serializeDOM\<close> around the callback that was current when the
  wrapper was made.
\<close>

datatype cbKind = TopCB | BitsCB | WrapCB cbKind

text \<open>
  The serializer state (\<^verbatim>\<open>WSP.initialState\<close> and the fields added while serializing).
  \<open>pageSrc\<close> is \<^verbatim>\<open>state.env.page.src\<close>.  \<open>textHandler\<close> says whether the indent-pre
  text transform (the only function ever stored in \<^verbatim>\<open>state.textHandler\<close>) is installed.
  \<open>out\<close> is what the current chunk callback has received so far: the chunk and the
  \<^verbatim>\<open>serializeInfo\<close> passed with it.  \<open>tplAttrs\<close> lists the assignments
  \<^verbatim>\<open>state.tplAttrs[id].{kvs|ks|vs}[attr] = src\<close> in the order they were made.
\<close>

record state =
  tableStack :: "(listFrame list \<times> int) list"
  listStack :: "listFrame list"
  lastRes :: string
  onNewline :: bool
  onStartOfLine :: bool
  singleLineMode :: int
  wteHandlerStack :: "wteHandler option list"
  pageSrc :: "string option"
  bufferedSeparator :: "string option"
  separatorEmittedFromSrc :: bool
  currLineOf :: currLine
  selserInfo :: "string option"
  prevToken :: "token option"
  curToken :: "token option"
  prevTagToken :: "token option"
  currTagToken :: "token option"
  inNoWiki :: bool
  inHTMLPre :: bool
  inIndentPre :: bool
  textHandler :: bool
  emitNewlineOnNextToken :: bool
  out :: "(string \<times> string option) list"
  chunkCBOf :: cbKind
  activeTemplateId :: "string option"
  parentSTX :: "string option"
  tplAttrs :: "(string \<times> string \<times> string option \<times> string option) list"

definition initialState :: state where
  "initialState = \<lparr> tableStack = [], listStack = [], lastRes = [], onNewline = True,
     onStartOfLine = True, singleLineMode = 0, wteHandlerStack = [], pageSrc = None,
     bufferedSeparator = None, separatorEmittedFromSrc = False,
     currLineOf = \<lparr> lineText = None, numPieces = 0, processed = False,
       hasBracketPair = False, hasHeadingPair = False \<rparr>,
     selserInfo = None, prevToken = None, curToken = None, prevTagToken = None,
     currTagToken = None, inNoWiki = False, inHTMLPre = False, inIndentPre = False,
     textHandler = False, emitNewlineOnNextToken = False, out = [], chunkCBOf = TopCB,
     activeTemplateId = None, parentSTX = None, tplAttrs = [] \<rparr>"

section \<open>Heading handlers\<close>

text \<open>
  One entry (\<^verbatim>\<open>start\<close> or \<^verbatim>\<open>end\<close>) of a token-based tag handler: the flags
  \<^verbatim>\<open>_serializeToken\<close> reads and the \<^verbatim>\<open>handle\<close> function, which returns the wikitext and may
  change the state.  A flag that is absent is \<open>False\<close> (0 for \<^verbatim>\<open>singleLine\<close>).
\<close>

record tokHandler =
  ignore :: bool
  startsLine :: bool
  endsLine :: bool
  emitsNL :: bool
  solTransparent :: bool
  singleLine :: int
  isTemplateSrc :: bool
  handle :: "(state \<Rightarrow> tagToken \<Rightarrow> error + string \<times> state) option"

text \<open>The empty object \<^verbatim>\<open>{}\<close> as a handler entry.\<close>

definition emptyHandler :: tokHandler where
  "emptyHandler = \<lparr> ignore = False, startsLine = False, endsLine = False, emitsNL = False,
     solTransparent = False, singleLine = 0, isTemplateSrc = False, handle = None \<rparr>"

text \<open>
  A row of \<^verbatim>\<open>WSP.tagHandlers\<close>: the \<^verbatim>\<open>start\<close> and \<^verbatim>\<open>end\<close> entries, the escape handler, and
  \<^verbatim>\<open>make\<close> (\<open>hmake\<close>), which computes the three from the state and the token.
\<close>

record tagHandler =
  hstart :: "tokHandler option"
  hend :: "tokHandler option"
  wtEscapeHandler :: "wteHandler option"
  hmake :: "(state \<Rightarrow> tagToken \<Rightarrow>
             error + (tokHandler option \<times> tokHandler option \<times> wteHandler option) \<times> state) option"

text \<open>\<^verbatim>\<open>openHeading(v)\<close> and \<^verbatim>\<open>closeHeading(v)\<close>; reading \<^verbatim>\<open>prevToken.constructor\<close> throws
  when there is no previous token.\<close>

definition openHeading :: "string \<Rightarrow> state \<Rightarrow> tagToken \<Rightarrow> error + string" where
  "openHeading v st token = Inr v"

definition closeHeading :: "string \<Rightarrow> state \<Rightarrow> tagToken \<Rightarrow> error + string" where
  "closeHeading v st token =
     (case prevToken st of
        None \<Rightarrow> Inl TypeError
      | Some p \<Rightarrow>
          if isTagNamed TagTk (name token) p then Inr (''<nowiki></nowiki>'' @ v)
          else Inr v)"

text \<open>A \<^verbatim>\<open>handle\<close> function that returns its wikitext and leaves the state as it is.\<close>

definition pureHandle ::
  "(state \<Rightarrow> tagToken \<Rightarrow> error + string) \<Rightarrow> state \<Rightarrow> tagToken \<Rightarrow> error + string \<times> state" where
  "pureHandle f st token = (case f st token of Inl e \<Rightarrow> Inl e | Inr r \<Rightarrow> Inr (r, st))"

definition buildHeadingHandler :: "string \<Rightarrow> tagHandler" where
  "buildHeadingHandler headingWT =
     \<lparr> hstart = Some (emptyHandler\<lparr> startsLine := True,
                                     handle := Some (pureHandle (openHeading headingWT)) \<rparr>),
       hend = Some (emptyHandler\<lparr> endsLine := True,
                                   handle := Some (pureHandle (closeHeading headingWT)) \<rparr>),
       wtEscapeHandler = Some HeadingHandler,
       hmake = None \<rparr>"

text \<open>The rows \<^verbatim>\<open>h1\<close> .. \<^verbatim>\<open>h6\<close> of \<^verbatim>\<open>WSP.tagHandlers\<close>.\<close>

definition headingTagHandlers :: "string \<Rightarrow> tagHandler option" where
  "headingTagHandlers n =
     (if n = ''h1'' then Some (buildHeadingHandler ''='')
      else if n = ''h2'' then Some (buildHeadingHandler ''=='')
      else if n = ''h3'' then Some (buildHeadingHandler ''==='')
      else if n = ''h4'' then Some (buildHeadingHandler ''===='')
      else if n = ''h5'' then Some (buildHeadingHandler ''====='')
      else if n = ''h6'' then Some (buildHeadingHandler ''======'')
      else None)"

text \<open>The name of the heading element of level \<open>k\<close>, for \<open>k\<close> from 1 to 6.\<close>

definition headingName :: "nat \<Rightarrow> string" where
  "headingName k =
     (if k = 1 then ''h1'' else if k = 2 then ''h2'' else if k = 3 then ''h3''
      else if k = 4 then ''h4'' else if k = 5 then ''h5'' else ''h6'')"

text \<open>The start and end token of an element without children and without metadata.\<close>

definition startTok :: "string \<Rightarrow> tagToken" where
  "startTok n = \<lparr> tt = TagTk, name = n, attribs = [], dataAttribs = emptyDP \<rparr>"

definition endTok :: "string \<Rightarrow> tagToken" where
  "endTok n = \<lparr> tt = EndTagTk, name = n, attribs = [], dataAttribs = emptyDP \<rparr>"

section \<open>Chunk callback and separator engine\<close>

abbreviation nl :: char where "nl \<equiv> CHR 0x0A"
abbreviation cr :: char where "cr \<equiv> CHR 0x0D"
abbreviation tab :: char where "tab \<equiv> CHR 0x09"

text \<open>\<^verbatim>\<open>\s\<close> on 8-bit code units: tab, LF, VT, FF, CR, space and the no-break space.\<close>

definition isSpace :: "char \<Rightarrow> bool" where
  "isSpace c = (c \<in> set [CHR 0x09, CHR 0x0A, CHR 0x0B, CHR 0x0C, CHR 0x0D, CHR 0x20, CHR 0xA0])"

text \<open>\<^verbatim>\<open>s.substr(-100)\<close>: the last 100 code units.\<close>

definition substrLast100 :: "string \<Rightarrow> string" where
  "substrLast100 s = drop (length s - 100) s"

text \<open>\<^verbatim>\<open>/\n$/\<close> and \<^verbatim>\<open>/\n/\<close>.\<close>

definition endsWithNL :: "string \<Rightarrow> bool" where
  "endsWithNL s = (s \<noteq> [] \<and> last s = nl)"

definition containsNL :: "string \<Rightarrow> bool" where
  "containsNL s = (nl \<in> set s)"

text \<open>
  A call \<^verbatim>\<open>state.chunkCB(chunk, serializeInfo)\<close>.  The callback that \<^verbatim>\<open>serializeDOM\<close>
  installs for a caller-supplied callback keeps the sliding buffer \<^verbatim>\<open>lastRes\<close> and hands
  the chunk on, with \<^verbatim>\<open>serializeInfo\<close> when that is truthy and with
  \<^verbatim>\<open>state.selser.serializeInfo\<close> otherwise; the caller's callback is modelled as
  recording what it receives in \<open>out\<close>.  The collector records the chunk.  The wrapper
  sets \<^verbatim>\<open>onStartOfLine\<close> from a non-empty chunk and calls the callback it wraps.
\<close>

fun applyCB :: "cbKind \<Rightarrow> string \<Rightarrow> string option \<Rightarrow> state \<Rightarrow> state" where
  "applyCB TopCB chunk serializeInfo st =
     st\<lparr> lastRes := substrLast100 (lastRes st @ chunk),
         out := out st @ [(chunk, if truthy serializeInfo then serializeInfo else selserInfo st)] \<rparr>"
| "applyCB BitsCB chunk serializeInfo st =
     st\<lparr> out := out st @ [(chunk, if truthy serializeInfo then serializeInfo else selserInfo st)] \<rparr>"
| "applyCB (WrapCB k) chunk serializeInfo st =
     applyCB k chunk serializeInfo
       (if chunk \<noteq> [] then st\<lparr>onStartOfLine := endsWithNL chunk\<rparr> else st)"

definition chunkCB :: "string \<Rightarrow> string option \<Rightarrow> state \<Rightarrow> state" where
  "chunkCB chunk serializeInfo st = applyCB (chunkCBOf st) chunk serializeInfo st"

definition emitSepChunk :: "string \<Rightarrow> state \<Rightarrow> state" where
  "emitSepChunk separator st =
     (let st1 = (if endsWithNL separator then st\<lparr>onNewline := True\<rparr> else st);
          st2 = (if containsNL separator then st1\<lparr>onStartOfLine := True\<rparr> else st1);
          st3 = chunkCB separator (Some ''separator'') st2
      in st3\<lparr>bufferedSeparator := None\<rparr>)"

text \<open>
  \<^verbatim>\<open>String.prototype.substring(a, b)\<close> on integers: both indices are clamped to
  \<^verbatim>\<open>[0, length]\<close> and swapped when the first is the larger.
\<close>

definition jsSubstring :: "string \<Rightarrow> int \<Rightarrow> int \<Rightarrow> string" where
  "jsSubstring s a b =
     (let n = int (length s);
          a' = max 0 (min a n);
          b' = max 0 (min b n);
          lo = min a' b';
          hi = max a' b'
      in take (nat (hi - lo)) (drop (nat lo) s))"

text \<open>
  The separator test \<^verbatim>\<open>/^(\s|<!--([^\-]|-(?!->))*-->)*$/\<close>.  \<open>sepScan False\<close> is the
  matcher between items; \<open>sepScan True\<close> is the matcher inside a comment, after
  \<^verbatim>\<open><!--\<close>: the comment body cannot run over a \<^verbatim>\<open>-->\<close>, so the comment ends at the first one.
\<close>

fun sepScan :: "bool \<Rightarrow> string \<Rightarrow> bool" where
  "sepScan False [] = True"
| "sepScan True [] = False"
| "sepScan False (c # cs) =
     (if isSpace c then sepScan False cs
      else if c = CHR ''<'' \<and> take 3 cs = ''!--'' then sepScan True (drop 3 cs)
      else False)"
| "sepScan True (c # cs) =
     (if c = CHR ''-'' \<and> take 2 cs = ''->'' then sepScan False (drop 2 cs)
      else sepScan True cs)"

definition isSeparatorSrc :: "string \<Rightarrow> bool" where
  "isSeparatorSrc s = sepScan False s"

datatype sepType = START_SEP | IE_SEP | END_SEP

text \<open>
  The value of \<^verbatim>\<open>dsr[i]\<close>: \<^verbatim>\<open>undefined\<close> beyond the end of the array, \<^verbatim>\<open>null\<close> or a number
  otherwise.
\<close>

datatype jsval = Undefined | Null | Number int

definition dsrAt :: "nat \<Rightarrow> dsr \<Rightarrow> jsval" where
  "dsrAt i d =
     (case drop i d of [] \<Rightarrow> Undefined | None # r \<Rightarrow> Null | Some n # r \<Rightarrow> Number n)"

text \<open>
  Arithmetic on such values: as an operand of \<^verbatim>\<open>+\<close> or \<^verbatim>\<open>-\<close> with a number, \<^verbatim>\<open>null\<close> counts
  as 0 and \<^verbatim>\<open>undefined\<close> as \<^verbatim>\<open>NaN\<close>, and \<^verbatim>\<open>NaN\<close> absorbs.  \<^verbatim>\<open>substring\<close> reads \<^verbatim>\<open>NaN\<close> as 0.
\<close>

datatype jsnum = NaN | Num int

definition toNumber :: "jsval \<Rightarrow> jsnum" where
  "toNumber v = (case v of Undefined \<Rightarrow> NaN | Null \<Rightarrow> Num 0 | Number n \<Rightarrow> Num n)"

definition jsAdd :: "jsnum \<Rightarrow> jsnum \<Rightarrow> jsnum" where
  "jsAdd a b = (case (a, b) of (Num x, Num y) \<Rightarrow> Num (x + y) | _ \<Rightarrow> NaN)"

definition jsSub :: "jsnum \<Rightarrow> jsnum \<Rightarrow> jsnum" where
  "jsSub a b = (case (a, b) of (Num x, Num y) \<Rightarrow> Num (x - y) | _ \<Rightarrow> NaN)"

definition toInteger :: "jsnum \<Rightarrow> int" where
  "toInteger a = (case a of NaN \<Rightarrow> 0 | Num x \<Rightarrow> x)"


text \<open>
  \<^verbatim>\<open>emitSeparator(n1, n2, sepType)\<close>.  The two nodes enter through their metadata
  \<^verbatim>\<open>DU.dataParsoid(n1)\<close> and \<^verbatim>\<open>DU.dataParsoid(n2)\<close>, the only thing the function reads of them.
  The function returns when a \<^verbatim>\<open>dsr\<close> is falsy (absent) or its selected entry is
  \<^verbatim>\<open>=== null\<close>; an entry that is \<^verbatim>\<open>undefined\<close> passes the test.
\<close>

definition emitSeparator :: "dataParsoid \<Rightarrow> dataParsoid \<Rightarrow> sepType \<Rightarrow> state \<Rightarrow> state" where
  "emitSeparator n1 n2 sepType st =
     (case pageSrc st of
        None \<Rightarrow> st
      | Some pagesrc \<Rightarrow>
          if pagesrc = [] then st
          else
            let dsrIndex1 = (case sepType of START_SEP \<Rightarrow> 0 | IE_SEP \<Rightarrow> 1 | END_SEP \<Rightarrow> 1);
                dsrIndex2 = (case sepType of START_SEP \<Rightarrow> 0 | IE_SEP \<Rightarrow> 0 | END_SEP \<Rightarrow> (1::nat))
            in
              (case dsrOf n1 of
                 None \<Rightarrow> st
               | Some d1 \<Rightarrow>
                   if dsrAt dsrIndex1 d1 = Null then st
                   else
                     (case dsrOf n2 of
                        None \<Rightarrow> st
                      | Some d2 \<Rightarrow>
                          if dsrAt dsrIndex2 d2 = Null then st
                          else
                            let i1 = jsAdd (toNumber (dsrAt dsrIndex1 d1))
                                       (if sepType = START_SEP then toNumber (dsrAt 2 d1) else Num 0);
                                i2 = jsSub (toNumber (dsrAt dsrIndex2 d2))
                                       (if sepType = END_SEP then toNumber (dsrAt 3 d2) else Num 0);
                                separator = jsSubstring pagesrc (toInteger i1) (toInteger i2)
                            in
                              if isSeparatorSrc separator
                              then (emitSepChunk separator st)\<lparr>separatorEmittedFromSrc := True\<rparr>
                              else st)))"



section \<open>DOM nodes\<close>

text \<open>
  A DOM node as the handlers read it: an element with its name, attributes, loaded
  metadata (\<^verbatim>\<open>node.data.parsoid\<close>) and children, a text node or a comment node.
\<close>

datatype node =
  Element string "(string \<times> string) list" dataParsoid "node list"
  | TextNode string
  | CommentNode string

fun childNodes :: "node \<Rightarrow> node list" where
  "childNodes (Element n as dp kids) = kids"
| "childNodes _ = []"

definition firstChild :: "node \<Rightarrow> node option" where
  "firstChild n = (case childNodes n of [] \<Rightarrow> None | k # ks \<Rightarrow> Some k)"

definition lastChild :: "node \<Rightarrow> node option" where
  "lastChild n = (if childNodes n = [] then None else Some (last (childNodes n)))"

fun isElementNode :: "node \<Rightarrow> bool" where
  "isElementNode (Element n as dp kids) = True"
| "isElementNode _ = False"

text \<open>\<^verbatim>\<open>node.getAttribute(k)\<close> on an element: the first attribute of that name.\<close>

fun nodeAttribute :: "node \<Rightarrow> string \<Rightarrow> string option" where
  "nodeAttribute (Element n as dp kids) k = map_of as k"
| "nodeAttribute _ k = None"

fun parsoidOf :: "node \<Rightarrow> dataParsoid" where
  "parsoidOf (Element n as dp kids) = dp"
| "parsoidOf _ = emptyDP"

section \<open>Collaborators outside the sources\<close>

text \<open>
  The serializer calls code that is not under \<^verbatim>\<open>src/\<close>: \<^verbatim>\<open>Util.escapeEntities\<close>,
  \<^verbatim>\<open>Util.KVtoHash\<close>, \<^verbatim>\<open>Util.lookup\<close>, \<^verbatim>\<open>Util.isVoidElement\<close>, the PEG tokenizer (\<^verbatim>\<open>processSync\<close>,
  \<^verbatim>\<open>tokenizeURL\<close>), the token methods \<^verbatim>\<open>isHTMLTag\<close> and \<^verbatim>\<open>getAttribute\<close>, the constant tables
  \<^verbatim>\<open>TagWhiteList\<close>, \<^verbatim>\<open>noEndTagHash\<close>, \<^verbatim>\<open>Image.SimpleOptions\<close> and
  \<^verbatim>\<open>Image.PrefixOptionsReverseMap\<close>, and the wiki configuration's
  \<^verbatim>\<open>replaceInterpolatedMagicWord\<close>.  Two functions of the sources are taken from here as
  well: \<^verbatim>\<open>WSP._serializeAttributes\<close>, which is built on token methods that are not in the
  sources (\<^verbatim>\<open>getAttributeShadowInfo\<close>, \<^verbatim>\<open>Util.lookupKV\<close>), and
  \<^verbatim>\<open>state.serializeChildrenToString\<close>, which runs the whole DOM walker over the given
  children.  Every function below takes them as the parameter \<open>c\<close>.
\<close>

record collab =
  escapeEntities :: "string \<Rightarrow> string"
  kvToHash :: "(string \<times> string) list \<Rightarrow> string \<Rightarrow> string option"
  lookup :: "(string \<times> string) list \<Rightarrow> string \<Rightarrow> string option"
  processSync :: "string \<Rightarrow> token list"
  tokenizeURL :: "string option \<Rightarrow> bool"
  isHTMLTag :: "tagToken \<Rightarrow> bool"
  getAttribute :: "tagToken \<Rightarrow> string \<Rightarrow> string option"
  tagWhiteList :: "string list"
  noEndTagHash :: "string list"
  serializeAttributes :: "state \<Rightarrow> tagToken \<Rightarrow> string"
  isVoidElement :: "string \<Rightarrow> bool"
  serializeChildrenToString ::
    "state \<Rightarrow> node list \<Rightarrow> wteHandler option \<Rightarrow> error + string \<times> state"
  simpleImgOptions :: "string \<Rightarrow> string option"
  prefixImgOptionsRM :: "string \<Rightarrow> string option"
  replaceInterpolatedMagicWord :: "string option \<Rightarrow> string option \<Rightarrow> string"

section \<open>Regular expressions of the escape engine\<close>

text \<open>\<^verbatim>\<open>\w\<close>.\<close>

definition isWordChar :: "char \<Rightarrow> bool" where
  "isWordChar c =
     (c \<in> set ''abcdefghijklmnopqrstuvwxyzABCDEFGHIJKLMNOPQRSTUVWXYZ0123456789_'')"

text \<open>A line terminator, which \<^verbatim>\<open>.\<close> does not match.\<close>

definition isLineTerm :: "char \<Rightarrow> bool" where
  "isLineTerm c = (c = nl \<or> c = cr)"

text \<open>The word \<open>w\<close> stands at the head of \<open>s\<close> and a \<^verbatim>\<open>\b\<close> follows it.\<close>

definition wordAt :: "string \<Rightarrow> string \<Rightarrow> bool" where
  "wordAt w s =
     (take (length w) s = w \<and>
      (case drop (length w) s of [] \<Rightarrow> True | d # ds \<Rightarrow> \<not> isWordChar d))"

text \<open>\<^verbatim>\<open>/\b(RFC|ISBN|PMID)\b/\<close>; the flag says whether the previous character is a word
  character.\<close>

fun urlTriggerScan :: "bool \<Rightarrow> string \<Rightarrow> bool" where
  "urlTriggerScan prevWord [] = False"
| "urlTriggerScan prevWord (c # cs) =
     ((\<not> prevWord \<and>
        (wordAt ''RFC'' (c # cs) \<or> wordAt ''ISBN'' (c # cs) \<or> wordAt ''PMID'' (c # cs)))
      \<or> urlTriggerScan (isWordChar c) cs)"

definition urlTriggers :: "string \<Rightarrow> bool" where
  "urlTriggers s = urlTriggerScan False s"

text \<open>Some character of \<open>s\<close> is one of \<open>cs\<close>: a character class anywhere in the string.\<close>

definition hasCharOf :: "string \<Rightarrow> string \<Rightarrow> bool" where
  "hasCharOf cs s = list_ex (\<lambda>c. c \<in> set cs) s"

text \<open>The string \<open>p\<close> occurs in \<open>s\<close>.\<close>

fun containsStr :: "string \<Rightarrow> string \<Rightarrow> bool" where
  "containsStr p [] = (p = [])"
| "containsStr p (c # cs) = (take (length p) (c # cs) = p \<or> containsStr p cs)"

text \<open>\<^verbatim>\<open>/^[ \t][^\s]+|[<>\[\]\-\+\|'!=#\*:;~{}]/\<close>.\<close>

definition quickCheckRE :: "string \<Rightarrow> bool" where
  "quickCheckRE s =
     ((case s of
         c # d # ds \<Rightarrow> (c = CHR '' '' \<or> c = tab) \<and> \<not> isSpace d
       | _ \<Rightarrow> False)
      \<or> hasCharOf (CHR 0x27 # ''<>[]-+|!=#*:;~{}'') s)"

text \<open>\<^verbatim>\<open>/\{\{\{|\{\{|\}\}\}|\}\}/\<close>.\<close>

definition bracesRE :: "string \<Rightarrow> bool" where
  "bracesRE s =
     (containsStr ''{{{'' s \<or> containsStr ''{{'' s \<or> containsStr ''}}}'' s \<or> containsStr ''}}'' s)"

text \<open>\<^verbatim>\<open>/\n./\<close>.\<close>

fun nlThenChar :: "string \<Rightarrow> bool" where
  "nlThenChar (c # d # cs) = ((c = nl \<and> \<not> isLineTerm d) \<or> nlThenChar (d # cs))"
| "nlThenChar _ = False"

text \<open>\<^verbatim>\<open>/~{3,5}/\<close>.\<close>

definition tildesRE :: "string \<Rightarrow> bool" where
  "tildesRE s = containsStr ''~~~'' s"

text \<open>\<^verbatim>\<open>.*c\<close> matched from the head of the string.\<close>

fun dotStarThen :: "char \<Rightarrow> string \<Rightarrow> bool" where
  "dotStarThen c [] = False"
| "dotStarThen c (d # ds) = (d = c \<or> (\<not> isLineTerm d \<and> dotStarThen c ds))"

text \<open>\<^verbatim>\<open>/\[.*\]/\<close> (and \<^verbatim>\<open>/\[.*?\]/\<close>, which matches the same strings).\<close>

fun bracketPairRE :: "string \<Rightarrow> bool" where
  "bracketPairRE [] = False"
| "bracketPairRE (c # cs) = ((c = CHR ''['' \<and> dotStarThen CHR '']'' cs) \<or> bracketPairRE cs)"

text \<open>\<^verbatim>\<open>/''|[<>]|\[.*\]|\]/\<close>.\<close>

definition nonSolRE :: "string \<Rightarrow> bool" where
  "nonSolRE s =
     (containsStr [CHR 0x27, CHR 0x27] s \<or> hasCharOf ''<>'' s \<or> bracketPairRE s
      \<or> hasCharOf '']'' s)"

text \<open>\<^verbatim>\<open>/^[ \t#*:;=]|[<\[\]>\|'!]|\-\-\-\-/\<close>.\<close>

definition solRE :: "string \<Rightarrow> bool" where
  "solRE s =
     ((case s of c # cs \<Rightarrow> c \<in> set (tab # '' #*:;='') | [] \<Rightarrow> False)
      \<or> hasCharOf (CHR 0x27 # ''<[]>|!'') s
      \<or> containsStr ''----'' s)"

text \<open>\<^verbatim>\<open>/(^ |\n )[^\s]+/\<close>.\<close>

fun nlSpaceNonspace :: "string \<Rightarrow> bool" where
  "nlSpaceNonspace (a # b # c # cs) =
     ((a = nl \<and> b = CHR '' '' \<and> \<not> isSpace c) \<or> nlSpaceNonspace (b # c # cs))"
| "nlSpaceNonspace _ = False"

definition solSpaceRE :: "string \<Rightarrow> bool" where
  "solSpaceRE s =
     ((case s of c # d # ds \<Rightarrow> c = CHR '' '' \<and> \<not> isSpace d | _ \<Rightarrow> False)
      \<or> nlSpaceNonspace s)"

text \<open>\<^verbatim>\<open>text.replace(/<(\/?nowiki)>/g, '&lt;$1&gt;')\<close>.\<close>

fun escapeNowikiTags :: "string \<Rightarrow> string" where
  "escapeNowikiTags [] = []"
| "escapeNowikiTags (c # cs) =
     (if take 8 (c # cs) = ''<nowiki>'' then ''&lt;nowiki&gt;'' @ escapeNowikiTags (drop 7 cs)
      else if take 9 (c # cs) = ''</nowiki>'' then ''&lt;/nowiki&gt;'' @ escapeNowikiTags (drop 8 cs)
      else c # escapeNowikiTags cs)"

text \<open>The trailing \<^verbatim>\<open>\n\<close>s of a string, and the string without them.\<close>

definition dropTrailingNLs :: "string \<Rightarrow> string" where
  "dropTrailingNLs s = rev (dropWhile (\<lambda>c. c = nl) (rev s))"

text \<open>\<^verbatim>\<open>/^=.*=\n*$/\<close>.\<close>

definition headingPairRE :: "string \<Rightarrow> bool" where
  "headingPairRE s =
     (let r = dropTrailingNLs s
      in 2 \<le> length r \<and> hd r = CHR ''='' \<and> last r = CHR ''='' \<and> \<not> list_ex isLineTerm r)"

text \<open>\<^verbatim>\<open>/(\]\]?)([^\]]|$)/\<close>.\<close>

definition notCloseBracketNext :: "string \<Rightarrow> bool" where
  "notCloseBracketNext s = (case s of [] \<Rightarrow> True | e # es \<Rightarrow> e \<noteq> CHR '']'')"

fun closeBracketRE :: "string \<Rightarrow> bool" where
  "closeBracketRE [] = False"
| "closeBracketRE (c # cs) =
     ((c = CHR '']'' \<and>
        (notCloseBracketNext cs
         \<or> (case cs of d # ds \<Rightarrow> d = CHR '']'' \<and> notCloseBracketNext ds | [] \<Rightarrow> False)))
      \<or> closeBracketRE cs)"

text \<open>
  \<^verbatim>\<open>escapedText\<close>.  Its pattern
  \<^verbatim>\<open>/^((?:.*?|[\r\n]+[^\r\n]|[~]{3,5})*?)((?:\r?\n)*)$/\<close> splits the text into a body and
  the longest tail of line ends \<^verbatim>\<open>\r?\n\<close>.  The body cannot end in a line terminator, so
  the pattern does not match a text whose body would end in \<^verbatim>\<open>\r\<close>; \<^verbatim>\<open>match[1]\<close> then
  throws.  \<open>splitTrailingNLs\<close> works on the reversed text and returns the reversed body
  and the tail.
\<close>

fun splitTrailingNLs :: "string \<Rightarrow> string \<Rightarrow> string \<times> string" where
  "splitTrailingNLs (a # b # r) acc =
     (if a = nl \<and> b = cr then splitTrailingNLs r (cr # nl # acc)
      else if a = nl then splitTrailingNLs (b # r) (nl # acc)
      else (a # b # r, acc))"
| "splitTrailingNLs [a] acc = (if a = nl then ([], nl # acc) else ([a], acc))"
| "splitTrailingNLs [] acc = ([], acc)"

definition escapedText :: "string \<Rightarrow> error + string" where
  "escapedText s =
     (case splitTrailingNLs (rev s) [] of
        (rbody, nls) \<Rightarrow>
          (case rbody of
             [] \<Rightarrow> Inr (''<nowiki>'' @ ''</nowiki>'' @ nls)
           | e # es \<Rightarrow>
               if isLineTerm e then Inl TypeError
               else Inr (''<nowiki>'' @ rev rbody @ ''</nowiki>'' @ nls)))"

section \<open>Escape handlers and the escape engine\<close>

text \<open>\<^verbatim>\<open>isTd\<close> and \<^verbatim>\<open>isListItem\<close>; a missing token is falsy.\<close>

definition isTd :: "token option \<Rightarrow> bool" where
  "isTd tok = (case tok of Some (Tag t) \<Rightarrow> tt t = TagTk \<and> name t = ''td'' | _ \<Rightarrow> False)"

definition isListItem :: "token option \<Rightarrow> bool" where
  "isListItem tok =
     (case tok of
        Some (Tag t) \<Rightarrow> tt t = TagTk \<and> name t \<in> set [''li'', ''dt'', ''dd'']
      | _ \<Rightarrow> False)"

text \<open>\<^verbatim>\<open>state.wteHandlerStack.pop(); state.wteHandlerStack.push(null)\<close>.\<close>

definition replaceTopByNull :: "state \<Rightarrow> state" where
  "replaceTopByNull st = st\<lparr>wteHandlerStack := butlast (wteHandlerStack st) @ [None]\<rparr>"

text \<open>
  The handlers of \<^verbatim>\<open>WikitextEscapeHandlers.prototype\<close>: the truthiness of the result and
  the state after the call.
\<close>

definition tdHandlerTok :: "token option \<Rightarrow> bool" where
  "tdHandlerTok tok =
     (case tok of
        Some (Tag t) \<Rightarrow>
          isTd tok
          \<and> (case dsrOf (dataAttribs t) of None \<Rightarrow> True | Some d \<Rightarrow> dsrAt 2 d = Number 1)
          \<and> stx_v (dataAttribs t) \<noteq> Some ''row''
          \<and> attribs t = []
      | _ \<Rightarrow> False)"

fun runWteHandler :: "wteHandler \<Rightarrow> state \<Rightarrow> string \<Rightarrow> bool \<times> state" where
  "runWteHandler HeadingHandler st txt =
     (let st' = replaceTopByNull st
      in (case lineText (currLineOf st') of
            None \<Rightarrow> (False, st')
          | Some line \<Rightarrow>
              (line \<noteq> [] \<and> 2 < length line \<and> hd line = CHR ''='' \<and> last line = CHR ''='', st')))"
| "runWteHandler LiHandler st txt =
     (let st' = replaceTopByNull st
      in (isListItem (currTagToken st') \<and>
            (case txt of c # cs \<Rightarrow> c \<in> set ''#*:;'' | [] \<Rightarrow> False), st'))"
| "runWteHandler LinkHandler st txt = (hasCharOf '']'' txt \<or> bracketPairRE txt, st)"
| "runWteHandler QuoteHandler st txt =
     (txt \<noteq> [] \<and> (hd txt = CHR 0x27 \<or> last txt = CHR 0x27), st)"
| "runWteHandler ThHandler st txt = (containsStr ''!!'' txt, st)"
| "runWteHandler WikilinkHandler st txt =
     (txt \<noteq> [] \<and> (hd txt = CHR ''|'' \<or> last txt = CHR '']''), st)"
| "runWteHandler AHandler st txt = (txt \<noteq> [] \<and> last txt = CHR '']'', st)"
| "runWteHandler TdHandler st txt =
     (hasCharOf ''|'' txt \<or>
        ((case txt of c # cs \<Rightarrow> c \<in> set ''-+'' | [] \<Rightarrow> False) \<and> tdHandlerTok (currTagToken st)), st)"

text \<open>\<^verbatim>\<open>String.prototype.toLowerCase\<close> on 8-bit code units.\<close>

definition toLowerChar :: "char \<Rightarrow> char" where
  "toLowerChar c =
     (let n = (of_char c :: nat)
      in if (65 \<le> n \<and> n \<le> 90) \<or> (192 \<le> n \<and> n \<le> 222 \<and> n \<noteq> 215) then char_of (n + 32) else c)"

definition toLowerCase :: "string \<Rightarrow> string" where
  "toLowerCase s = map toLowerChar s"

text \<open>
  The scan of the tokenizer's output in \<^verbatim>\<open>hasWikitextTokens\<close>; \<open>numEntities\<close> counts the
  open \<^verbatim>\<open>mw:Entity\<close> spans.
\<close>

fun scanTokens :: "collab \<Rightarrow> bool \<Rightarrow> nat \<Rightarrow> token list \<Rightarrow> bool" where
  "scanTokens c linksOnly numEntities [] = False"
| "scanTokens c linksOnly numEntities (Tag t # ts) =
     (if isHTMLTag c t \<and> toLowerCase (name t) \<notin> set (tagWhiteList c)
      then scanTokens c linksOnly numEntities ts
      else
        (case tt t of
           SelfclosingTagTk \<Rightarrow>
             if name t = ''extlink'' \<and> \<not> tokenizeURL c (getAttribute c t ''href'')
             then scanTokens c linksOnly numEntities ts
             else if name t = ''urllink'' then scanTokens c linksOnly numEntities ts
             else if \<not> linksOnly \<or> name t = ''wikilink'' then True
             else scanTokens c linksOnly numEntities ts
         | TagTk \<Rightarrow>
             if linksOnly then scanTokens c linksOnly numEntities ts
             else if name t = ''span'' \<and> getAttribute c t ''typeof'' = Some ''mw:Entity''
             then scanTokens c linksOnly (Suc numEntities) ts
             else True
         | EndTagTk \<Rightarrow>
             if linksOnly then scanTokens c linksOnly numEntities ts
             else if 0 < numEntities \<and> name t = ''span''
             then scanTokens c linksOnly (numEntities - 1) ts
             else if toLowerCase (name t) \<in> set (noEndTagHash c)
             then scanTokens c linksOnly numEntities ts
             else True))"
| "scanTokens c linksOnly numEntities (t # ts) = scanTokens c linksOnly numEntities ts"

text \<open>\<^verbatim>\<open>prefixedText.replace(/(\r?\n)/g, '$1_')\<close>.\<close>

fun underscoreAfterNL :: "string \<Rightarrow> string" where
  "underscoreAfterNL [] = []"
| "underscoreAfterNL (c # cs) =
     (if c = nl then nl # CHR ''_'' # underscoreAfterNL cs else c # underscoreAfterNL cs)"

definition hasWikitextTokens :: "collab \<Rightarrow> state \<Rightarrow> bool \<Rightarrow> string \<Rightarrow> bool \<Rightarrow> bool" where
  "hasWikitextTokens c st onNl txt linksOnly =
     (let prefixedText = (if \<not> onNl then CHR ''_'' # txt else txt);
          prefixedText' = (if inIndentPre st then underscoreAfterNL prefixedText else prefixedText)
      in scanTokens c linksOnly 0 (processSync c prefixedText'))"

text \<open>\<^verbatim>\<open>return escapedText(text)\<close> inside \<^verbatim>\<open>escapeWikiText\<close>.\<close>

definition fenced :: "state \<Rightarrow> string \<Rightarrow> error + string \<times> state" where
  "fenced st txt = (case escapedText txt of Inl e \<Rightarrow> Inl e | Inr r \<Rightarrow> Inr (r, st))"

text \<open>
  The last resort of \<^verbatim>\<open>escapeWikiText\<close> (\<^verbatim>\<open>state.currLine.numPieces > 1\<close>): analyse the
  text of the whole line once, then fence a piece that holds one half of a heading or
  bracket pair.  Matching against a line text that is \<^verbatim>\<open>null\<close> throws.
\<close>

definition lineLevelEscape :: "collab \<Rightarrow> state \<Rightarrow> bool \<Rightarrow> string \<Rightarrow> error + string \<times> state" where
  "lineLevelEscape c st sol txt =
     (let cl = currLineOf st
      in (case (if processed cl then Inr cl
                else (case lineText cl of
                        None \<Rightarrow> Inl TypeError
                      | Some lt \<Rightarrow>
                          Inr (cl\<lparr> processed := True,
                                  hasHeadingPair := headingPairRE lt,
                                  hasBracketPair :=
                                    (if hasWikitextTokens c st sol lt True then True
                                     else hasBracketPair cl) \<rparr>)))
          of Inl e \<Rightarrow> Inl e
           | Inr cl' \<Rightarrow>
               let st' = st\<lparr>currLineOf := cl'\<rparr>
               in if (hasHeadingPair cl' \<and> (case txt of x # xs \<Rightarrow> x = CHR ''='' | [] \<Rightarrow> False))
                     \<or> (hasBracketPair cl' \<and> closeBracketRE txt)
                  then fenced st' txt
                  else Inr (txt, st')))"

text \<open>\<^verbatim>\<open>WSP.escapeWikiText\<close>: the escaped text and the state after the call.\<close>

definition escapeWikiText :: "collab \<Rightarrow> state \<Rightarrow> string \<Rightarrow> error + string \<times> state" where
  "escapeWikiText c st txt =
     (let fullCheckNeeded = urlTriggers txt
      in if \<not> fullCheckNeeded \<and> \<not> quickCheckRE txt then Inr (txt, st)
         else
           (case (case (if wteHandlerStack st = [] then None else last (wteHandlerStack st)) of
                    None \<Rightarrow> (False, st)
                  | Some h \<Rightarrow> runWteHandler h st txt)
            of (hit, st1) \<Rightarrow>
              if hit then fenced st1 txt
              else if bracesRE txt then fenced st1 txt
              else
                let sol = (onStartOfLine st1 \<or> emitNewlineOnNextToken st1);
                    hasNewlines = nlThenChar txt;
                    hasTildes = tildesRE txt;
                    quick = (\<not> fullCheckNeeded \<and> \<not> hasNewlines \<and> \<not> hasTildes)
                in if quick \<and> \<not> sol \<and> \<not> nonSolRE txt then Inr (txt, st1)
                   else if quick \<and> sol \<and> \<not> solRE txt then Inr (txt, st1)
                   else if sol \<and> solSpaceRE txt then fenced st1 txt
                   else
                     let txt' = escapeNowikiTags txt
                     in if hasWikitextTokens c st1 sol txt' False \<or> hasTildes
                        then fenced st1 txt'
                        else if 1 < numPieces (currLineOf st1)
                        then lineLevelEscape c st1 sol txt'
                        else Inr (txt', st1)))"

text \<open>\<^verbatim>\<open>escapeWikiLinkContentString\<close>.\<close>

definition escapeWikiLinkContentString ::
  "collab \<Rightarrow> string \<Rightarrow> state \<Rightarrow> error + string \<times> state" where
  "escapeWikiLinkContentString c contentString st =
     (let st1 = st\<lparr> onStartOfLine := False, emitNewlineOnNextToken := False,
                    wteHandlerStack := wteHandlerStack st @ [Some WikilinkHandler] \<rparr>
      in (case escapeWikiText c st1 contentString of
            Inl e \<Rightarrow> Inl e
          | Inr (res, st2) \<Rightarrow> Inr (res, st2\<lparr>wteHandlerStack := butlast (wteHandlerStack st2)\<rparr>)))"

section \<open>Token serializer: text tokens\<close>

text \<open>
  The text transform the \<^verbatim>\<open>pre\<close> start handler installs in \<^verbatim>\<open>state.textHandler\<close>:
  \<^verbatim>\<open>t.replace(/\n(?!$)/g, '\n ')\<close>, with a leading space at start of line.
\<close>

fun indentNLs :: "string \<Rightarrow> string" where
  "indentNLs [] = []"
| "indentNLs (c # cs) =
     (if c = nl \<and> cs \<noteq> [] then nl # CHR '' '' # indentNLs cs else c # indentNLs cs)"

definition indentPreTextHandler :: "state \<Rightarrow> string \<Rightarrow> string" where
  "indentPreTextHandler currState t =
     (let res = indentNLs t in if onStartOfLine currState then CHR '' '' # res else res)"

text \<open>The local function \<^verbatim>\<open>emitNLs(nls, debugStr, dontBuffer)\<close> of \<^verbatim>\<open>_serializeToken\<close>.\<close>

definition emitNLs :: "string \<Rightarrow> bool \<Rightarrow> state \<Rightarrow> state" where
  "emitNLs nls dontBuffer st =
     (if \<not> separatorEmittedFromSrc st
      then
        let sep = orElse (bufferedSeparator st) [] @ nls
        in if truthy (pageSrc st) \<and> \<not> dontBuffer then st\<lparr>bufferedSeparator := Some sep\<rparr>
           else emitSepChunk sep st
      else st)"

text \<open>The flags \<^verbatim>\<open>_serializeToken\<close> reads from the handler entry after the switch.\<close>

record hflags =
  f_startsLine :: bool
  f_endsLine :: bool
  f_emitsNL :: bool
  f_solTransparent :: bool
  f_isTemplateSrc :: bool
  f_singleLine :: int

text \<open>\<^verbatim>\<open>handler = {}\<close>: every flag is \<^verbatim>\<open>undefined\<close>.\<close>

definition noFlags :: hflags where
  "noFlags = \<lparr> f_startsLine = False, f_endsLine = False, f_emitsNL = False,
     f_solTransparent = False, f_isTemplateSrc = False, f_singleLine = 0 \<rparr>"

text \<open>\<^verbatim>\<open>/[\r\n]$/\<close> and \<^verbatim>\<open>/^[ \t]*\n/\<close>.\<close>

definition endsWithLineTerm :: "string \<Rightarrow> bool" where
  "endsWithLineTerm s = (s \<noteq> [] \<and> isLineTerm (last s))"

definition blankThenNL :: "string \<Rightarrow> bool" where
  "blankThenNL s =
     (case dropWhile (\<lambda>c. c = CHR '' '' \<or> c = tab) s of [] \<Rightarrow> False | c # cs \<Rightarrow> c = nl)"

text \<open>\<^verbatim>\<open>res.replace(/\n/g, '')\<close>.\<close>

definition stripNLs :: "string \<Rightarrow> string" where
  "stripNLs s = filter (\<lambda>c. c \<noteq> nl) s"

text \<open>
  The part of \<^verbatim>\<open>_serializeToken\<close> after the switch on the token type, for a result
  \<open>res\<close> that is a string: start-of-line processing, single-line stripping, emission
  of the chunk, the update of \<^verbatim>\<open>onNewline\<close> / \<^verbatim>\<open>onStartOfLine\<close>, the newlines after the
  token, the single-line counter and the reset of \<^verbatim>\<open>separatorEmittedFromSrc\<close>.
\<close>

definition finishToken :: "hflags \<Rightarrow> bool \<Rightarrow> string \<Rightarrow> state \<Rightarrow> state" where
  "finishToken h suppressOutput res st =
     (let st1 = (if f_startsLine h \<and> \<not> onStartOfLine st \<and> \<not> suppressOutput \<and> singleLineMode st = 0
                 then emitNLs [nl] False st else st);
          res1 = (if \<not> truthy (pageSrc st1) \<and> singleLineMode st1 \<noteq> 0 \<and> \<not> f_isTemplateSrc h
                  then stripNLs res else res);
          st2 = chunkCB (if suppressOutput then [] else res1) None st1;
          st3 = (if endsWithLineTerm res1 then st2\<lparr>onNewline := True, onStartOfLine := True\<rparr>
                 else if res1 \<noteq> []
                 then (if \<not> f_solTransparent h
                       then st2\<lparr>onNewline := False, onStartOfLine := False\<rparr>
                       else st2\<lparr>onNewline := False\<rparr>)
                 else st2);
          st4 = (if f_emitsNL h then emitNLs [nl] True st3
                 else (case bufferedSeparator st3 of
                         None \<Rightarrow> st3
                       | Some b \<Rightarrow> if b = [] then st3 else emitSepChunk b st3));
          st5 = (if f_endsLine h \<and> \<not> onNewline st4 then emitNLs [nl] False st4 else st4);
          st6 = (if 0 < f_singleLine h
                 then st5\<lparr>singleLineMode := singleLineMode st5 + f_singleLine h\<rparr> else st5)
      in st6\<lparr>separatorEmittedFromSrc := False\<rparr>)"

text \<open>
  The text of a text token: \<^verbatim>\<open>res\<close> as \<^verbatim>\<open>case String\<close> of \<^verbatim>\<open>_serializeToken\<close> computes it
  (entities escaped, wikitext escaped outside \<^verbatim>\<open>nowiki\<close> and html \<^verbatim>\<open>pre\<close>, the text handler
  applied), and the state after the escaping.
\<close>

definition textTokenRes :: "collab \<Rightarrow> state \<Rightarrow> string \<Rightarrow> error + string \<times> state" where
  "textTokenRes c st0 token =
     (let th = textHandler st0;
          res = escapeEntities c token
      in (case (if inNoWiki st0 \<or> inHTMLPre st0 then Inr (res, st0) else escapeWikiText c st0 res) of
            Inl e \<Rightarrow> Inl e
          | Inr (res1, st1) \<Rightarrow> Inr (if th then indentPreTextHandler st1 res1 else res1, st1)))"

text \<open>
  \<^verbatim>\<open>_serializeToken(state, token)\<close> for a text token (\<^verbatim>\<open>case String\<close>): the handler is
  the empty object.
\<close>

definition serializeTextToken :: "collab \<Rightarrow> state \<Rightarrow> string \<Rightarrow> error + state" where
  "serializeTextToken c st token =
     (let st0 = st\<lparr>prevToken := curToken st, curToken := Some (Str token)\<rparr>
      in (case textTokenRes c st0 token of
            Inl e \<Rightarrow> Inl e
          | Inr (res2, st1) \<Rightarrow>
              let st2 = (if blankThenNL res2 then st1\<lparr>bufferedSeparator := None\<rparr> else st1)
              in Inr (finishToken noFlags False res2 st2)))"

section \<open>DOM-based handlers: the chunk callback wrapper and the figure handler\<close>

text \<open>\<^verbatim>\<open>cbWrapper\<close> of \<^verbatim>\<open>_serializeDOM\<close>, the callback a DOM-based handler receives.\<close>

definition cbWrapper :: "string \<Rightarrow> string option \<Rightarrow> state \<Rightarrow> state" where
  "cbWrapper res serializeInfo st = applyCB (WrapCB (chunkCBOf st)) res serializeInfo st"

text \<open>\<^verbatim>\<open>s.replace(/(^\[:)|(\]$)/g, '')\<close>.\<close>

definition stripResourceBrackets :: "string \<Rightarrow> string" where
  "stripResourceBrackets s =
     (let s1 = (if take 2 s = ''[:'' then drop 2 s else s)
      in if s1 \<noteq> [] \<and> last s1 = CHR '']'' then butlast s1 else s1)"

text \<open>\<^verbatim>\<open>canonical.replace(/^img_/, '')\<close>.\<close>

definition stripImgPrefix :: "string \<Rightarrow> string" where
  "stripImgPrefix s = (if take 4 s = ''img_'' then drop 4 s else s)"

text \<open>\<^verbatim>\<open>w + (size.height ? "x" + size.height : '') + "px"\<close>.\<close>

definition sizeBit :: "string \<Rightarrow> string option \<Rightarrow> string" where
  "sizeBit w h = w @ (if truthy h then ''x'' @ orElse h [] else []) @ ''px''"

text \<open>\<^verbatim>\<open>Array.prototype.join\<close>; an element that is \<^verbatim>\<open>undefined\<close> joins as the empty string.\<close>

fun joinBits :: "string \<Rightarrow> string option list \<Rightarrow> string" where
  "joinBits sep [] = []"
| "joinBits sep [b] = orElse b []"
| "joinBits sep (b # bs) = orElse b [] @ sep @ joinBits sep bs"

text \<open>
  The loop of \<^verbatim>\<open>figureHandler\<close> over \<^verbatim>\<open>dp.optionList\<close>.  \<open>w\<close> and \<open>h\<close> are
  \<^verbatim>\<open>size.width\<close> and \<^verbatim>\<open>size.height\<close>; \<open>bits\<close> is \<^verbatim>\<open>outBits\<close>.  Indexing \<^verbatim>\<open>optNames\<close> throws
  when the metadata has none.
\<close>

fun figureOptions ::
  "collab \<Rightarrow> string \<Rightarrow> (string \<times> string) list option \<Rightarrow> (string \<times> string option) list \<Rightarrow>
     string option \<Rightarrow> string option \<Rightarrow> string option list \<Rightarrow>
     error + string option \<times> string option \<times> string option list" where
  "figureOptions c captionSrc names [] w h bits = Inr (w, h, bits)"
| "figureOptions c captionSrc names ((k, v) # rest) w h bits =
     (if k = ''width'' then figureOptions c captionSrc names rest v h bits
      else if k = ''height'' then figureOptions c captionSrc names rest w v bits
      else
        let bits1 = (case w of None \<Rightarrow> bits | Some wv \<Rightarrow> bits @ [Some (sizeBit wv h)]);
            w1 = None
        in if k = ''caption''
           then figureOptions c captionSrc names rest w1 h
                  (bits1 @ [Some (case v of None \<Rightarrow> captionSrc | Some x \<Rightarrow> x)])
           else if simpleImgOptions c (''img_'' @ (case v of None \<Rightarrow> ''null'' | Some x \<Rightarrow> x)) = Some k
           then (case names of
                   None \<Rightarrow> Inl TypeError
                 | Some nm \<Rightarrow>
                     figureOptions c captionSrc names rest w1 h
                       (bits1 @ [map_of nm (case v of None \<Rightarrow> ''null'' | Some x \<Rightarrow> x)]))
           else if truthy (prefixImgOptionsRM c k)
           then (case names of
                   None \<Rightarrow> Inl TypeError
                 | Some nm \<Rightarrow>
                     figureOptions c captionSrc names rest w1 h
                       (bits1 @ [Some (replaceInterpolatedMagicWord c
                          (map_of nm (stripImgPrefix (orElse (prefixImgOptionsRM c k) []))) v)]))
           else figureOptions c captionSrc names rest w1 h bits1)"

text \<open>
  \<^verbatim>\<open>WSP.figureHandler(state, node, cb)\<close> with \<^verbatim>\<open>cb\<close> the wrapper above.  The
  \<^verbatim>\<open>try\<close> block looks for the image at \<^verbatim>\<open>node.firstChild.firstChild\<close>; \<open>findImg\<close> is
  its outcome, \<open>None\<close> when the block throws.
\<close>

definition findImg :: "node \<Rightarrow> (node \<times> node) option" where
  "findImg n =
     (case firstChild n of
        None \<Rightarrow> None
      | Some fc \<Rightarrow>
          (case firstChild fc of
             None \<Rightarrow> None
           | Some img \<Rightarrow>
               if \<not> isElementNode img then None
               else (case lastChild n of None \<Rightarrow> None | Some caption \<Rightarrow> Some (img, caption))))"

definition figureHandler :: "collab \<Rightarrow> state \<Rightarrow> node \<Rightarrow> error + state" where
  "figureHandler c st n =
     (let dp = parsoidOf n
      in (case findImg n of
            None \<Rightarrow> Inr (cbWrapper [] None st)
          | Some (img, caption) \<Rightarrow>
              (case serializeChildrenToString c st (childNodes caption) (Some AHandler) of
                 Inl e \<Rightarrow> Inl e
               | Inr (captionSrc, st1) \<Rightarrow>
                   let imgResource = stripResourceBrackets (orElse (nodeAttribute img ''resource'') [])
                   in (case optionList dp of
                         None \<Rightarrow> Inl TypeError
                       | Some figAttrs \<Rightarrow>
                           (case figureOptions c captionSrc (optNames dp) figAttrs None None
                                   [Some imgResource] of
                              Inl e \<Rightarrow> Inl e
                            | Inr (w, h, outBits) \<Rightarrow>
                                let outBits1 = (if truthy w then outBits @ [Some (sizeBit (orElse w []) h)]
                                                else outBits)
                                in Inr (cbWrapper (''[['' @ joinBits ''|'' outBits1 @ '']]'') None st1))))))"

section \<open>Token-based handlers: list items, table rows, meta\<close>

text \<open>The two local predicates of \<^verbatim>\<open>WSP._listItemHandler\<close>; they throw when the token
  they inspect is missing.\<close>

definition isRepeatToken :: "state \<Rightarrow> tagToken \<Rightarrow> error + bool" where
  "isRepeatToken st token =
     (case prevToken st of
        None \<Rightarrow> Inl TypeError
      | Some p \<Rightarrow> Inr (isTagNamed EndTagTk (name token) p))"

definition isMultiLineDtDdPair :: "state \<Rightarrow> tagToken \<Rightarrow> error + bool" where
  "isMultiLineDtDdPair st token =
     (if name token = ''dd'' \<and> stx (dataAttribs token) \<noteq> Some ''row''
      then (case prevTagToken st of
              None \<Rightarrow> Inl TypeError
            | Some p \<Rightarrow> Inr (isTagNamed EndTagTk ''dt'' p))
      else Inr False)"

text \<open>
  \<^verbatim>\<open>WSP._listItemHandler(handler, bullet, state, token)\<close>: the wikitext, the value it
  stores in \<^verbatim>\<open>handler.startsLine\<close>, and the state.
\<close>

definition listItemHandler :: "string \<Rightarrow> state \<Rightarrow> tagToken \<Rightarrow> error + string \<times> bool \<times> state" where
  "listItemHandler bullet st token =
     (let stack0 = listStack st;
          stack1 = (if stack0 = []
                    then [\<lparr> itemCount = 0, bullets = bullet, itemBullet = bullet \<rparr>] else stack0);
          curList = (last stack1)\<lparr> itemCount := itemCount (last stack1) + 1, itemBullet := bullet \<rparr>;
          st1 = st\<lparr>listStack := butlast stack1 @ [curList]\<rparr>;
          full = Inr (bullets curList @ bullet, True, st1);
          own = Inr (bullet, False, st1)
      in if 1 < itemCount curList
         then
           if onStartOfLine st1 then full
           else
             (case isRepeatToken st1 token of
                Inl e \<Rightarrow> Inl e
              | Inr True \<Rightarrow> full
              | Inr False \<Rightarrow>
                  (case isMultiLineDtDdPair st1 token of
                     Inl e \<Rightarrow> Inl e
                   | Inr True \<Rightarrow> full
                   | Inr False \<Rightarrow> own))
         else own)"

text \<open>\<^verbatim>\<open>WSP._serializeTableTag(symbol, endSymbol, state, token)\<close>.\<close>

definition serializeTableTag ::
  "collab \<Rightarrow> string \<Rightarrow> string option \<Rightarrow> state \<Rightarrow> tagToken \<Rightarrow> string" where
  "serializeTableTag c symbol endSymbol st token =
     (let sAttribs = serializeAttributes c st token
      in if sAttribs \<noteq> []
         then symbol @ '' '' @ sAttribs @ (case endSymbol of Some e \<Rightarrow> e | None \<Rightarrow> '' |'')
         else symbol @ orElse endSymbol [])"

text \<open>\<^verbatim>\<open>WSP.tagHandlers.tr.start.handle\<close>.\<close>

definition trStartHandle :: "collab \<Rightarrow> state \<Rightarrow> tagToken \<Rightarrow> error + string" where
  "trStartHandle c st token =
     (let da = dataAttribs token
      in (case prevToken st of
            None \<Rightarrow> Inl TypeError
          | Some p \<Rightarrow>
              if isTagNamed TagTk ''tbody'' p \<and> \<not> truthy (startTagSrc da) then Inr []
              else Inr (serializeTableTag c (orElse (startTagSrc da) ''|-'') (Some []) st token)))"

text \<open>\<^verbatim>\<open>WSP._serializeHTMLTag\<close>.\<close>

definition serializeHTMLTag :: "collab \<Rightarrow> state \<Rightarrow> tagToken \<Rightarrow> string \<times> state" where
  "serializeHTMLTag c st token =
     (let da = dataAttribs token;
          st1 = (if name token = ''pre'' then st\<lparr>inHTMLPre := True\<rparr> else st)
      in if autoInsertedStart da then ([], st1)
         else
           let close = (if (isVoidElement c (name token) \<and> \<not> noClose da) \<or> selfClose da
                        then ''/'' else []);
               sAttribs = serializeAttributes c st1 token;
               tokenName = orElse (srcTagName da) (name token)
           in (if sAttribs \<noteq> [] then ''<'' @ tokenName @ '' '' @ sAttribs @ close @ ''>''
               else ''<'' @ tokenName @ close @ ''>'', st1))"

text \<open>\<^verbatim>\<open>argDict.property.match(/^mw\:PageProp\/(.*)$/)\<close>: the captured name.\<close>

definition pagePropName :: "string \<Rightarrow> string option" where
  "pagePropName p =
     (if take 12 p = ''mw:PageProp/'' \<and> \<not> list_ex isLineTerm (drop 12 p) then Some (drop 12 p)
      else None)"

text \<open>
  \<^verbatim>\<open>WSP.tagHandlers.meta.start.handle\<close>: the result (\<open>None\<close> for \<^verbatim>\<open>undefined\<close>), the
  value it stores in \<^verbatim>\<open>this.solTransparent\<close> (\<open>None\<close> when it stores nothing), and the
  state.
\<close>

definition metaStartHandle ::
  "collab \<Rightarrow> state \<Rightarrow> tagToken \<Rightarrow> string option \<times> bool option \<times> state" where
  "metaStartHandle c st token =
     (let argDict = kvToHash c (attribs token);
          da = dataAttribs token
      in if truthy (argDict ''typeof'')
         then
           let ty = orElse (argDict ''typeof'') []
           in if ty = ''mw:tag''
              then (Some (''<'' @ (case argDict ''content'' of None \<Rightarrow> ''undefined'' | Some x \<Rightarrow> x) @ ''>''),
                    Some True,
                    if argDict ''content'' = Some ''nowiki'' then st\<lparr>inNoWiki := True\<rparr>
                    else if argDict ''content'' = Some ''/nowiki'' then st\<lparr>inNoWiki := False\<rparr>
                    else st)
              else if ty = ''mw:IncludeOnly'' then (src da, Some True, st)
              else if ty = ''mw:NoInclude'' then (Some (orElse (src da) ''<noinclude>''), Some True, st)
              else if ty = ''mw:NoInclude/End'' then (Some (orElse (src da) ''</noinclude>''), None, st)
              else if ty = ''mw:OnlyInclude'' then (Some (orElse (src da) ''<onlyinclude>''), Some True, st)
              else if ty = ''mw:OnlyInclude/End''
              then (Some (orElse (src da) ''</onlyinclude>''), None, st)
              else if ty = ''mw:DiffMarker'' \<or> ty = ''mw:Separator'' then (Some [], None, st)
              else (case serializeHTMLTag c st token of (r, st1) \<Rightarrow> (Some r, Some False, st1))
         else if truthy (argDict ''property'')
         then (case pagePropName (orElse (argDict ''property'') []) of
                 Some switchType \<Rightarrow>
                   (Some (if truthy (magicSrc da) then orElse (magicSrc da) [] else switchType), None, st)
               | None \<Rightarrow> (Some [], None, st))
         else (case serializeHTMLTag c st token of (r, st1) \<Rightarrow> (Some r, None, st1)))"

section \<open>Token serializer: tag tokens\<close>

text \<open>\<^verbatim>\<open>WSP._serializeHTMLEndTag\<close>.\<close>

definition serializeHTMLEndTag :: "collab \<Rightarrow> state \<Rightarrow> tagToken \<Rightarrow> string \<times> state" where
  "serializeHTMLEndTag c st token =
     (let st1 = (if name token = ''pre'' then st\<lparr>inHTMLPre := False\<rparr> else st)
      in (if \<not> autoInsertedEnd (dataAttribs token) \<and> \<not> isVoidElement c (name token) \<and>
             \<not> selfClose (dataAttribs token)
          then ''</'' @ orElse (srcTagName (dataAttribs token)) (name token) @ ''>''
          else [], st1))"

text \<open>\<^verbatim>\<open>WSP.defaultHTMLTagHandler\<close>: its \<^verbatim>\<open>start\<close> and \<^verbatim>\<open>end\<close> entries; it has no escape handler.\<close>

definition defaultHTMLTagHandler ::
  "collab \<Rightarrow> tokHandler option \<times> tokHandler option \<times> wteHandler option" where
  "defaultHTMLTagHandler c =
     (Some (emptyHandler\<lparr>handle := Some (\<lambda>st token. Inr (serializeHTMLTag c st token))\<rparr>),
      Some (emptyHandler\<lparr>handle := Some (\<lambda>st token. Inr (serializeHTMLEndTag c st token))\<rparr>),
      None)"

text \<open>
  \<^verbatim>\<open>WSP._getTokenHandler(state, token)\<close> for the table \<open>tagHandlers\<close>.  A token with source
  whose \<^verbatim>\<open>typeof\<close> is \<^verbatim>\<open>mw:TemplateSource\<close> gets a handler that returns the source.  A token
  in html syntax, or a new start or end token (metadata empty, taken as \<open>emptyDP\<close>) other
  than \<^verbatim>\<open>meta\<close> under a parent in html syntax, gets the default html handler; otherwise the
  row of the table decides, through \<^verbatim>\<open>make\<close> when the row has one, and the default html
  handler stands in for a missing row.  For a start or self-closing token the escape
  handler of the row is pushed and the \<^verbatim>\<open>start\<close> entry returned; for an end token the
  \<^verbatim>\<open>end\<close> entry.
\<close>

definition getTokenHandler ::
  "collab \<Rightarrow> (string \<Rightarrow> tagHandler option) \<Rightarrow> state \<Rightarrow> tagToken \<Rightarrow> error + tokHandler \<times> state" where
  "getTokenHandler c tagHandlers st token =
     (if src (dataAttribs token) \<noteq> None \<and>
         lookup c (attribs token) ''typeof'' = Some ''mw:TemplateSource''
      then Inr (emptyHandler\<lparr> handle := Some (\<lambda>s t. Inr (orElse (src (dataAttribs token)) [], s)),
                              isTemplateSrc := True \<rparr>, st)
      else
        (case (if isHTMLTag c token \<or>
                  ((tt token = TagTk \<or> tt token = EndTagTk) \<and> dataAttribs token = emptyDP \<and>
                   name token \<noteq> ''meta'' \<and> parentSTX st = Some ''html'')
               then Inr (defaultHTMLTagHandler c, st)
               else (case tagHandlers (name token) of
                       None \<Rightarrow> Inr (defaultHTMLTagHandler c, st)
                     | Some h \<Rightarrow>
                         (case hmake h of
                            None \<Rightarrow> Inr ((hstart h, hend h, wtEscapeHandler h), st)
                          | Some mk \<Rightarrow> mk st token))) of
           Inl e \<Rightarrow> Inl e
         | Inr ((hs, he, wte), st1) \<Rightarrow>
             if tt token = TagTk \<or> tt token = SelfclosingTagTk
             then Inr (case hs of None \<Rightarrow> emptyHandler | Some x \<Rightarrow> x,
                       st1\<lparr>wteHandlerStack := wteHandlerStack st1 @ [wte]\<rparr>)
             else Inr (case he of None \<Rightarrow> emptyHandler | Some x \<Rightarrow> x, st1)))"

text \<open>The flags of a handler entry, as \<open>finishToken\<close> reads them.\<close>

definition flagsOf :: "tokHandler \<Rightarrow> hflags" where
  "flagsOf h = \<lparr> f_startsLine = startsLine h, f_endsLine = endsLine h, f_emitsNL = emitsNL h,
     f_solTransparent = solTransparent h, f_isTemplateSrc = isTemplateSrc h,
     f_singleLine = singleLine h \<rparr>"

text \<open>\<^verbatim>\<open>handler.handle ? handler.handle(state, token) : ''\<close>.\<close>

definition runHandle :: "tokHandler \<Rightarrow> state \<Rightarrow> tagToken \<Rightarrow> error + string \<times> state" where
  "runHandle h st token = (case handle h of None \<Rightarrow> Inr ([], st) | Some f \<Rightarrow> f st token)"

text \<open>
  \<^verbatim>\<open>_serializeToken(state, token)\<close> for a tag token (\<^verbatim>\<open>pd.TagTk\<close>, \<^verbatim>\<open>pd.SelfclosingTagTk\<close>,
  \<^verbatim>\<open>pd.EndTagTk\<close>): the handler is looked up and run, the output of an auto-inserted tag is
  suppressed, and the part after the switch follows.  The counter
  \<^verbatim>\<open>state.nlsSinceLastEndTag\<close>, which nothing reads, is left out.
\<close>

definition serializeTagToken ::
  "collab \<Rightarrow> (string \<Rightarrow> tagHandler option) \<Rightarrow> state \<Rightarrow> tagToken \<Rightarrow> error + state" where
  "serializeTagToken c tagHandlers st token =
     (let st0 = st\<lparr>prevToken := curToken st, curToken := Some (Tag token)\<rparr>;
          th = textHandler st0
      in (case getTokenHandler c tagHandlers st0 token of
            Inl e \<Rightarrow> Inl e
          | Inr (handler, st1) \<Rightarrow>
              if tt token = EndTagTk
              then
                let st2 = st1\<lparr>wteHandlerStack := butlast (wteHandlerStack st1)\<rparr>
                in if ignore handler then Inr (finishToken (flagsOf handler) False [] st2)
                   else
                     let st3 = st2\<lparr>prevTagToken := currTagToken st2, currTagToken := Some (Tag token)\<rparr>;
                         st4 = (if singleLine handler < 0 \<and> singleLineMode st3 \<noteq> 0
                                then st3\<lparr>singleLineMode := singleLineMode st3 - 1\<rparr> else st3)
                     in (case runHandle handler st4 token of
                           Inl e \<Rightarrow> Inl e
                         | Inr (res, st5) \<Rightarrow>
                             Inr (finishToken (flagsOf handler)
                                    (autoInsertedEnd (dataAttribs token)) res st5))
              else
                (case (if ignore handler then Inr ([], False, st1)
                       else
                         let st2 = st1\<lparr>prevTagToken := currTagToken st1,
                                       currTagToken := Some (Tag token)\<rparr>
                         in (case runHandle handler st2 token of
                               Inl e \<Rightarrow> Inl e
                             | Inr (res, st3) \<Rightarrow>
                                 Inr (if th then indentPreTextHandler st3 res else res,
                                      autoInsertedStart (dataAttribs token), st3))) of
                   Inl e \<Rightarrow> Inl e
                 | Inr (res, suppressOutput, st4) \<Rightarrow>
                     let st5 = (if tt token = SelfclosingTagTk
                                then st4\<lparr>wteHandlerStack := butlast (wteHandlerStack st4)\<rparr>
                                else st4)
                     in Inr (finishToken (flagsOf handler) suppressOutput res st5))))"

section \<open>The newline invariant\<close>

text \<open>
  The comment on the state attributes says of \<^verbatim>\<open>onStartOfLine\<close>: ``true when onNewline is
  true, and also in other start-of-line contexts''.
\<close>

definition nlInvariant :: "state \<Rightarrow> bool" where
  "nlInvariant st = (onStartOfLine st \<or> \<not> onNewline st)"

text \<open>A chunk callback that is not a wrapper of \<^verbatim>\<open>_serializeDOM\<close>.\<close>

fun plainCB :: "cbKind \<Rightarrow> bool" where
  "plainCB TopCB = True"
| "plainCB BitsCB = True"
| "plainCB (WrapCB k) = False"

text \<open>Two states agree on the tokens seen, the syntax context and the serializer options.\<close>

definition sameCtx :: "state \<Rightarrow> state \<Rightarrow> bool" where
  "sameCtx st st' =
     (prevToken st' = prevToken st \<and> curToken st' = curToken st \<and> parentSTX st' = parentSTX st \<and>
      textHandler st' = textHandler st \<and> pageSrc st' = pageSrc st \<and>
      selserInfo st' = selserInfo st \<and> singleLineMode st' = singleLineMode st)"

section \<open>Stand-ins used to evaluate the model\<close>

text \<open>
  Concrete collaborators for evaluating the model at inputs that hold no entity, no
  markup and no attribute: the entity escaper leaves such a text as it is, the tokenizer
  returns it as one text token, and \<^verbatim>\<open>Util.KVtoHash\<close> looks a key up in the attribute
  list.
\<close>

definition plainCollab :: collab where
  "plainCollab = \<lparr> escapeEntities = (\<lambda>s. s), kvToHash = map_of, lookup = map_of,
     processSync = (\<lambda>s. [Str s, EOFTk]), tokenizeURL = (\<lambda>h. False), isHTMLTag = (\<lambda>t. False),
     getAttribute = (\<lambda>t k. map_of (attribs t) k), tagWhiteList = [], noEndTagHash = [],
     serializeAttributes = (\<lambda>st t. []), isVoidElement = (\<lambda>n. False),
     serializeChildrenToString = (\<lambda>st ns h. Inr ([], st)),
     simpleImgOptions = (\<lambda>k. None), prefixImgOptionsRM = (\<lambda>k. None),
     replaceInterpolatedMagicWord = (\<lambda>a b. []) \<rparr>"

section \<open>The DOM as a store\<close>

text \<open>
  \<^verbatim>\<open>serializeDOM\<close> and \<^verbatim>\<open>preprocessDOM\<close> change DOM nodes in place, and nodes refer to one
  another (\<^verbatim>\<open>parentNode\<close>, \<^verbatim>\<open>childNodes\<close>), so here a node is an identifier and the document
  is a store of node objects.  A node object has the DOM properties the serializer uses and
  the two properties the serializer's utilities add to it, \<^verbatim>\<open>node.data.parsoid\<close> and
  \<^verbatim>\<open>node.data['parsoid-serialize']\<close>.  \<open>fresh\<close> is the next unused identifier: every
  node object that exists has a smaller one.
\<close>

type_synonym nid = nat

datatype nodeType = ELEMENT_NODE | TEXT_NODE | COMMENT_NODE

record dnode =
  nodeType :: nodeType
  nodeName :: string
  attrs :: "(string \<times> string) list"
  cdata :: string
  kids :: "nid list"
  parent :: "nid option"
  dataP :: "dataParsoid option"
  dataS :: "string option"

record dom =
  heap :: "nid \<Rightarrow> dnode option"
  fresh :: nid

text \<open>Sequencing of steps that may throw.\<close>

definition bindE :: "error + 'a \<Rightarrow> ('a \<Rightarrow> error + 'b) \<Rightarrow> error + 'b" where
  "bindE m f = (case m of Inl e \<Rightarrow> Inl e | Inr x \<Rightarrow> f x)"

text \<open>
  Reading a node.  A variable of the program always holds a node object that exists; for
  an identifier without object the readers below return the empty value.
\<close>

definition dKids :: "dom \<Rightarrow> nid \<Rightarrow> nid list" where
  "dKids d i = (case heap d i of None \<Rightarrow> [] | Some n \<Rightarrow> kids n)"

definition dParent :: "dom \<Rightarrow> nid \<Rightarrow> nid option" where
  "dParent d i = (case heap d i of None \<Rightarrow> None | Some n \<Rightarrow> parent n)"

definition dFirstChild :: "dom \<Rightarrow> nid \<Rightarrow> nid option" where
  "dFirstChild d i = (case dKids d i of [] \<Rightarrow> None | k # ks \<Rightarrow> Some k)"

definition dLastChild :: "dom \<Rightarrow> nid \<Rightarrow> nid option" where
  "dLastChild d i = (if dKids d i = [] then None else Some (last (dKids d i)))"

definition dSiblings :: "dom \<Rightarrow> nid \<Rightarrow> nid list" where
  "dSiblings d i = (case dParent d i of None \<Rightarrow> [] | Some p \<Rightarrow> dKids d p)"

definition dNextSibling :: "dom \<Rightarrow> nid \<Rightarrow> nid option" where
  "dNextSibling d i =
     (case dropWhile (\<lambda>k. k \<noteq> i) (dSiblings d i) of a # b # r \<Rightarrow> Some b | _ \<Rightarrow> None)"

definition dPreviousSibling :: "dom \<Rightarrow> nid \<Rightarrow> nid option" where
  "dPreviousSibling d i =
     (let pre = takeWhile (\<lambda>k. k \<noteq> i) (dSiblings d i)
      in if i \<in> set (dSiblings d i) \<and> pre \<noteq> [] then Some (last pre) else None)"

definition dType :: "dom \<Rightarrow> nid \<Rightarrow> nodeType option" where
  "dType d i = map_option nodeType (heap d i)"

definition dData :: "dom \<Rightarrow> nid \<Rightarrow> string" where
  "dData d i = (case heap d i of None \<Rightarrow> [] | Some n \<Rightarrow> cdata n)"

text \<open>\<^verbatim>\<open>node.nodeName\<close>: the tag name of an element, \<^verbatim>\<open>#text\<close> and \<^verbatim>\<open>#comment\<close> otherwise.\<close>

definition dName :: "dom \<Rightarrow> nid \<Rightarrow> string" where
  "dName d i =
     (case heap d i of
        None \<Rightarrow> []
      | Some n \<Rightarrow> (case nodeType n of
                     ELEMENT_NODE \<Rightarrow> nodeName n
                   | TEXT_NODE \<Rightarrow> ''#text''
                   | COMMENT_NODE \<Rightarrow> ''#comment''))"

definition dAttrs :: "dom \<Rightarrow> nid \<Rightarrow> (string \<times> string) list" where
  "dAttrs d i = (case heap d i of None \<Rightarrow> [] | Some n \<Rightarrow> attrs n)"

text \<open>\<^verbatim>\<open>node.getAttribute(k)\<close>; only elements have the method.\<close>

definition dGetAttribute :: "dom \<Rightarrow> nid \<Rightarrow> string \<Rightarrow> error + string option" where
  "dGetAttribute d i k =
     (if dType d i = Some ELEMENT_NODE then Inr (map_of (dAttrs d i) k) else Inl TypeError)"

definition dDataP :: "dom \<Rightarrow> nid \<Rightarrow> error + dataParsoid" where
  "dDataP d i =
     (case heap d i of
        None \<Rightarrow> Inl TypeError
      | Some n \<Rightarrow> (case dataP n of None \<Rightarrow> Inl TypeError | Some dp \<Rightarrow> Inr dp))"

text \<open>Writing a node: every change of the store goes through \<open>updNode\<close> or \<open>alloc\<close>.\<close>

definition updNode :: "dom \<Rightarrow> nid \<Rightarrow> (dnode \<Rightarrow> dnode) \<Rightarrow> dom" where
  "updNode d i f =
     (case heap d i of None \<Rightarrow> d | Some n \<Rightarrow> d\<lparr>heap := (heap d)(i := Some (f n))\<rparr>)"

definition alloc :: "dom \<Rightarrow> dnode \<Rightarrow> dom \<times> nid" where
  "alloc d n = (d\<lparr>heap := (heap d)(fresh d := Some n), fresh := Suc (fresh d)\<rparr>, fresh d)"

text \<open>Taking a node out of its parent's child list.\<close>

definition detach :: "dom \<Rightarrow> nid \<Rightarrow> dom" where
  "detach d c =
     (case dParent d c of
        None \<Rightarrow> d
      | Some q \<Rightarrow> updNode (updNode d q (\<lambda>n. n\<lparr>kids := removeAll c (kids n)\<rparr>)) c
                    (\<lambda>n. n\<lparr>parent := None\<rparr>))"

text \<open>\<^verbatim>\<open>p.removeChild(c)\<close>; throws \<^verbatim>\<open>NotFoundError\<close> when \<^verbatim>\<open>c\<close> is not a child of \<^verbatim>\<open>p\<close>.\<close>

definition removeChild :: "dom \<Rightarrow> nid \<Rightarrow> nid \<Rightarrow> error + dom" where
  "removeChild d p c =
     (if dParent d c = Some p \<and> c \<in> set (dKids d p) then Inr (detach d c)
      else Inl NotFoundError)"

fun insertAt :: "nid \<Rightarrow> nid option \<Rightarrow> nid list \<Rightarrow> nid list" where
  "insertAt new None ks = ks @ [new]"
| "insertAt new (Some r) [] = [new]"
| "insertAt new (Some r) (k # ks) =
     (if k = r then new # k # ks else k # insertAt new (Some r) ks)"

text \<open>
  \<^verbatim>\<open>p.insertBefore(new, ref)\<close>: \<^verbatim>\<open>new\<close> leaves the parent it has and becomes the child of
  \<^verbatim>\<open>p\<close> before \<^verbatim>\<open>ref\<close>, the last child when \<^verbatim>\<open>ref\<close> is \<^verbatim>\<open>null\<close>.  When \<^verbatim>\<open>ref\<close> is \<^verbatim>\<open>new\<close>
  itself, its next sibling is the reference.  Throws \<^verbatim>\<open>NotFoundError\<close> when \<^verbatim>\<open>ref\<close> is not
  a child of \<^verbatim>\<open>p\<close>.
\<close>

definition insertBefore :: "dom \<Rightarrow> nid \<Rightarrow> nid \<Rightarrow> nid option \<Rightarrow> error + dom" where
  "insertBefore d p new ref =
     (let ref1 = (if ref = Some new then dNextSibling d new else ref)
      in if (case ref1 of None \<Rightarrow> False | Some r \<Rightarrow> dParent d r \<noteq> Some p) then Inl NotFoundError
         else
           let d1 = detach d new;
               d2 = updNode d1 p (\<lambda>n. n\<lparr>kids := insertAt new ref1 (kids n)\<rparr>)
           in Inr (updNode d2 new (\<lambda>n. n\<lparr>parent := Some p\<rparr>)))"

text \<open>\<^verbatim>\<open>node.data = s\<close> and \<^verbatim>\<open>node.insertData(0, s)\<close> on a text node.\<close>

definition setData :: "dom \<Rightarrow> nid \<Rightarrow> string \<Rightarrow> dom" where
  "setData d i s = updNode d i (\<lambda>n. n\<lparr>cdata := s\<rparr>)"

definition insertData0 :: "dom \<Rightarrow> nid \<Rightarrow> string \<Rightarrow> dom" where
  "insertData0 d i s = updNode d i (\<lambda>n. n\<lparr>cdata := s @ cdata n\<rparr>)"

text \<open>\<^verbatim>\<open>node.setAttribute(k, v)\<close>.\<close>

definition setAttribute :: "dom \<Rightarrow> nid \<Rightarrow> string \<Rightarrow> string \<Rightarrow> dom" where
  "setAttribute d i k v =
     updNode d i (\<lambda>n. n\<lparr>attrs := (if map_of (attrs n) k = None then attrs n @ [(k, v)]
                                  else map (\<lambda>kv. if fst kv = k then (k, v) else kv) (attrs n))\<rparr>)"

text \<open>\<^verbatim>\<open>document.createElement(name)\<close> and \<^verbatim>\<open>document.createTextNode(s)\<close>.\<close>

definition createElement :: "dom \<Rightarrow> string \<Rightarrow> dom \<times> nid" where
  "createElement d nm =
     alloc d \<lparr> nodeType = ELEMENT_NODE, nodeName = nm, attrs = [], cdata = [], kids = [],
               parent = None, dataP = None, dataS = None \<rparr>"

definition createTextNode :: "dom \<Rightarrow> string \<Rightarrow> dom \<times> nid" where
  "createTextNode d s =
     alloc d \<lparr> nodeType = TEXT_NODE, nodeName = ''#text'', attrs = [], cdata = s, kids = [],
               parent = None, dataP = None, dataS = None \<rparr>"

text \<open>
  \<^verbatim>\<open>node.cloneNode(true)\<close>, as the DOM standard defines it: a new node object with the
  type, name, attributes and character data of the node, without parent, whose children
  are clones of the node's children.  Properties that scripts added to the node object
  (\<^verbatim>\<open>node.data\<close>) are not copied.  The first argument bounds the depth of the recursion.
\<close>

fun cloneNode :: "nat \<Rightarrow> nid \<Rightarrow> dom \<Rightarrow> error + nid \<times> dom"
  and cloneKids :: "nat \<Rightarrow> nid \<Rightarrow> nid list \<Rightarrow> dom \<Rightarrow> error + dom" where
  "cloneNode 0 i d = Inl OutOfFuel"
| "cloneNode (Suc f) i d =
     (case heap d i of
        None \<Rightarrow> Inl TypeError
      | Some n \<Rightarrow>
          let (d1, c) = alloc d (n\<lparr>kids := [], parent := None, dataP := None, dataS := None\<rparr>)
          in bindE (cloneKids f c (kids n) d1) (\<lambda>d2. Inr (c, d2)))"
| "cloneKids f c [] d = Inr d"
| "cloneKids f c (k # ks) d =
     bindE (cloneNode f k d) (\<lambda>(ck, d1).
       bindE (insertBefore d1 c ck None) (\<lambda>d2. cloneKids f c ks d2))"

section \<open>Preprocessing the DOM\<close>

text \<open>
  The DOM utilities (\<^verbatim>\<open>DOMUtils\<close>, \<^verbatim>\<open>Util.isBlockTag\<close>) and \<^verbatim>\<open>JSON.parse\<close> are not under
  \<^verbatim>\<open>src/\<close>.  The predicates read the document; \<^verbatim>\<open>DU.loadDataParsoid(node)\<close> and
  \<^verbatim>\<open>DU.loadDataAttrib(node, 'parsoid-serialize', null)\<close> store a value in \<^verbatim>\<open>node.data\<close> of
  the node they are given, and \<open>loadedParsoid\<close> and \<open>loadedSerialize\<close> are those values.
\<close>

record domUtils =
  hasNodeName :: "dom \<Rightarrow> nid \<Rightarrow> string \<Rightarrow> bool"
  isNodeOfType :: "dom \<Rightarrow> nid \<Rightarrow> string \<Rightarrow> string \<Rightarrow> bool"
  hasElementChild :: "dom \<Rightarrow> nid \<Rightarrow> bool"
  isBlockNode :: "dom \<Rightarrow> nid \<Rightarrow> bool"
  isMarkerMeta :: "dom \<Rightarrow> nid \<Rightarrow> string \<Rightarrow> bool"
  isBlockTag :: "string \<Rightarrow> bool"
  jsonParse :: "string \<Rightarrow> error + dataParsoid"
  loadedParsoid :: "dom \<Rightarrow> nid \<Rightarrow> error + dataParsoid"
  loadedSerialize :: "dom \<Rightarrow> nid \<Rightarrow> string option"
  duDataParsoid :: "dom \<Rightarrow> nid \<Rightarrow> dataParsoid"
  getAttributeKVArray :: "dom \<Rightarrow> nid \<Rightarrow> (string \<times> string) list"

text \<open>\<^verbatim>\<open>WSP._getDOMRTInfo\<close>.\<close>

definition getDOMRTInfo :: "domUtils \<Rightarrow> dom \<Rightarrow> nid \<Rightarrow> error + dataParsoid" where
  "getDOMRTInfo du d i =
     bindE (dGetAttribute d i ''data-parsoid'') (\<lambda>a.
       case a of
         None \<Rightarrow> Inr emptyDP
       | Some s \<Rightarrow> jsonParse du (if s = [] then ''{}'' else s))"

text \<open>\<^verbatim>\<open>s.split(c)\<close>.\<close>

fun splitOn :: "char \<Rightarrow> string \<Rightarrow> string list" where
  "splitOn c [] = [[]]"
| "splitOn c (x # xs) =
     (if x = c then [] # splitOn c xs
      else (case splitOn c xs of [] \<Rightarrow> [[x]] | p # ps \<Rightarrow> (x # p) # ps))"

text \<open>
  The \<^verbatim>\<open>meta\<close> branch of \<^verbatim>\<open>preprocessDOM\<close>: a \<^verbatim>\<open>mw:objectAttr\<close> meta records its source in
  \<^verbatim>\<open>state.tplAttrs\<close>.  It does not change the document.
\<close>

definition ppMeta :: "domUtils \<Rightarrow> nid \<Rightarrow> state \<Rightarrow> dom \<Rightarrow> error + state" where
  "ppMeta du node st d =
     bindE (dGetAttribute d node ''property'') (\<lambda>prop.
       if truthy prop \<and> containsStr ''mw:objectAttr'' (orElse prop [])
       then
         bindE (dGetAttribute d node ''about'') (\<lambda>about.
           bindE (getDOMRTInfo du d node) (\<lambda>rt.
             let templateId = orElse about [];
                 pieces = splitOn (CHR ''#'') (orElse prop []);
                 attr = (if 1 < length pieces then Some (pieces ! 1) else None);
                 which = (if hd pieces = ''mw:objectAttr'' then ''kvs''
                          else if hd pieces = ''mw:objectAttrKey'' then ''ks'' else ''vs'')
             in Inr (st\<lparr>tplAttrs := tplAttrs st @ [(templateId, which, attr, src rt)]\<rparr>)))
       else Inr st)"

text \<open>
  The inner loop of the text-node case: the text nodes that follow \<^verbatim>\<open>child\<close> are removed
  and their text is collected in \<^verbatim>\<open>buf\<close>.
\<close>

fun ppCoalesce ::
  "nat \<Rightarrow> nid \<Rightarrow> nid option \<Rightarrow> string list \<Rightarrow> dom \<Rightarrow> error + nid option \<times> string list \<times> dom" where
  "ppCoalesce 0 node next buf d = Inl OutOfFuel"
| "ppCoalesce (Suc f) node next buf d =
     (case next of
        None \<Rightarrow> Inr (None, buf, d)
      | Some n \<Rightarrow>
          if dType d n = Some TEXT_NODE
          then (let nextnext = dNextSibling d n
                in bindE (removeChild d node n) (\<lambda>d1.
                     ppCoalesce f node nextnext (buf @ [dData d n]) d1))
          else Inr (next, buf, d))"

text \<open>The text-node case of the first loop; the result is the new \<^verbatim>\<open>next\<close>.\<close>

definition ppText :: "nat \<Rightarrow> nid \<Rightarrow> nid \<Rightarrow> nid option \<Rightarrow> dom \<Rightarrow> error + nid option \<times> dom" where
  "ppText f node child next d =
     bindE (ppCoalesce f node next [dData d child] d) (\<lambda>(next1, buf, d1).
       let d2 = (if 1 < length buf then setData d1 child (concat buf) else d1)
       in if dData d2 child = []
          then bindE (removeChild d2 node child) (\<lambda>d3. Inr (next1, d3))
          else Inr (next1, d2))"

text \<open>The loop of \<^verbatim>\<open>setupSeparator\<close> that deletes the separator nodes.\<close>

fun removeSepNodes :: "nid list \<Rightarrow> dom \<Rightarrow> error + dom" where
  "removeSepNodes [] d = Inr d"
| "removeSepNodes (s # ss) d =
     (case dParent d s of
        None \<Rightarrow> Inl TypeError
      | Some p \<Rightarrow> bindE (removeChild d p s) (removeSepNodes ss))"

text \<open>\<^verbatim>\<open>setupSeparator(nodeA, nodeB, sepNodes, sepText)\<close>.\<close>

definition setupSeparator ::
  "nid option \<Rightarrow> nid option \<Rightarrow> nid list \<Rightarrow> string list \<Rightarrow> dom \<Rightarrow> error + dom" where
  "setupSeparator nodeA nodeB sepNodes sepText d =
     (if nodeA = None \<and> nodeB = None then Inl TypeError
      else
        let (d1, sepMeta) = createElement d ''meta'';
            d2 = setAttribute d1 sepMeta ''typeof'' ''mw:Separator'';
            d3 = setAttribute d2 sepMeta ''data-sep'' (concat sepText)
        in bindE
             (case nodeA of
                Some a \<Rightarrow>
                  (case dParent d3 a of
                     None \<Rightarrow> Inl TypeError
                   | Some p \<Rightarrow> insertBefore d3 p sepMeta (dNextSibling d3 a))
              | None \<Rightarrow>
                  (case nodeB of
                     None \<Rightarrow> Inl TypeError
                   | Some b \<Rightarrow>
                       (case dParent d3 b of
                          None \<Rightarrow> Inl TypeError
                        | Some p \<Rightarrow> insertBefore d3 p sepMeta (dPreviousSibling d3 b))))
             (removeSepNodes sepNodes))"

text \<open>\<^verbatim>\<open>str.replace(/^\n+/, '')\<close> and \<^verbatim>\<open>/^\s+$/\<close>.\<close>

definition dropLeadingNLs :: "string \<Rightarrow> string" where
  "dropLeadingNLs s = dropWhile (\<lambda>c. c = nl) s"

definition allSpaceRE :: "string \<Rightarrow> bool" where
  "allSpaceRE s = (s \<noteq> [] \<and> list_all isSpace s)"

text \<open>The variables of the second loop of \<^verbatim>\<open>preprocessDOM\<close>.\<close>

record sepVars =
  prevSentinel :: "nid option"
  waitForSentinel :: bool
  sepNodes :: "nid list"
  sepText :: "string list"

text \<open>
  The body of the second loop of \<^verbatim>\<open>preprocessDOM\<close> for a text node when there is no
  original source: newlines next to block nodes are stripped.  \<open>prev\<close> is the variable
  \<^verbatim>\<open>prev\<close> as the first loop left it.
\<close>

definition ppStripNLs :: "domUtils \<Rightarrow> nid option \<Rightarrow> nid \<Rightarrow> nid option \<Rightarrow> dom \<Rightarrow> dom" where
  "ppStripNLs du prev c next d =
     (let str = dData d c;
          d1 = (if endsWithNL str \<and>
                   (case next of None \<Rightarrow> True | Some nx \<Rightarrow> isBlockNode du d nx)
                then setData d c (dropTrailingNLs str) else d)
      in if take 1 str = [nl] \<and>
            (case prev of None \<Rightarrow> True | Some pv \<Rightarrow> isBlockNode du d1 pv)
         then setData d1 c (dropLeadingNLs str) else d1)"

text \<open>
  The \<^verbatim>\<open>switch\<close> of the second loop, taken when there is original source: runs of
  whitespace and comments between elements are replaced by a separator meta, and
  \<^verbatim>\<open>mw:DiffMarker\<close> metas float to the left.
\<close>

definition ppSepStep :: "domUtils \<Rightarrow> nid \<Rightarrow> nid \<Rightarrow> sepVars \<Rightarrow> dom \<Rightarrow> error + sepVars \<times> dom" where
  "ppSepStep du node c v d =
     (case dType d c of
        Some TEXT_NODE \<Rightarrow>
          if \<not> waitForSentinel v \<and> allSpaceRE (dData d c)
          then Inr (v\<lparr>sepText := sepText v @ [dData d c], sepNodes := sepNodes v @ [c]\<rparr>, d)
          else Inr (v\<lparr>prevSentinel := None, waitForSentinel := True\<rparr>, d)
      | Some COMMENT_NODE \<Rightarrow>
          if \<not> waitForSentinel v
          then Inr (v\<lparr>sepText := sepText v @ [''<!--'', dData d c, ''-->''],
                      sepNodes := sepNodes v @ [c]\<rparr>, d)
          else Inr (v, d)
      | Some ELEMENT_NODE \<Rightarrow>
          if \<not> waitForSentinel v \<and> isMarkerMeta du d c ''mw:DiffMarker''
          then bindE (insertBefore d node c
                        (case prevSentinel v of
                           Some ps \<Rightarrow> dNextSibling d ps
                         | None \<Rightarrow> dFirstChild d node))
                 (\<lambda>d1. Inr (v\<lparr>prevSentinel := Some c\<rparr>, d1))
          else bindE (if \<not> waitForSentinel v \<and> sepNodes v \<noteq> []
                      then setupSeparator (prevSentinel v) (Some c) (sepNodes v) (sepText v) d
                      else Inr d)
                 (\<lambda>d1. Inr (\<lparr> prevSentinel = Some c, waitForSentinel = False,
                               sepNodes = [], sepText = [] \<rparr>, d1))
      | None \<Rightarrow> Inr (v, d))"

text \<open>
  One iteration of the second loop for the child \<open>c\<close>, whose next sibling was \<open>next\<close> when
  the iteration began: an empty text node is deleted, otherwise one of the two cases above
  applies.
\<close>

definition ppStep2 ::
  "domUtils \<Rightarrow> nid \<Rightarrow> bool \<Rightarrow> nid option \<Rightarrow> nid \<Rightarrow> nid option \<Rightarrow> sepVars \<Rightarrow> dom \<Rightarrow>
     error + sepVars \<times> dom" where
  "ppStep2 du node haveOrigSrc prev c next v d =
     (if dType d c = Some TEXT_NODE \<and> dData d c = []
      then bindE (removeChild d node c) (\<lambda>d1. Inr (v, d1))
      else if \<not> haveOrigSrc
      then Inr (v, if dType d c = Some TEXT_NODE then ppStripNLs du prev c next d else d)
      else ppSepStep du node c v d)"

text \<open>The second loop.\<close>

fun ppLoop2 ::
  "nat \<Rightarrow> domUtils \<Rightarrow> nid \<Rightarrow> bool \<Rightarrow> nid option \<Rightarrow> nid option \<Rightarrow> sepVars \<Rightarrow> dom \<Rightarrow>
     error + sepVars \<times> dom" where
  "ppLoop2 0 du node haveOrigSrc prev child v d = Inl OutOfFuel"
| "ppLoop2 (Suc f) du node haveOrigSrc prev child v d =
     (case child of
        None \<Rightarrow> Inr (v, d)
      | Some c \<Rightarrow>
          let next = dNextSibling d c
          in bindE (ppStep2 du node haveOrigSrc prev c next v d) (\<lambda>(v1, d1).
               ppLoop2 f du node haveOrigSrc prev next v1 d1))"

text \<open>The part of \<^verbatim>\<open>preprocessDOM\<close> after the first loop.\<close>

definition ppSeparators ::
  "nat \<Rightarrow> domUtils \<Rightarrow> nid \<Rightarrow> bool \<Rightarrow> bool \<Rightarrow> nid option \<Rightarrow> dom \<Rightarrow> error + dom" where
  "ppSeparators f du node inPre haveOrigSrc prev d =
     (if \<not> inPre \<and> \<not> isNodeOfType du d node ''span'' ''mw:Entity'' \<and>
         (\<not> haveOrigSrc \<or> hasElementChild du d node)
      then
        bindE (ppLoop2 f du node haveOrigSrc prev (dFirstChild d node)
                 \<lparr> prevSentinel = None, waitForSentinel = False, sepNodes = [], sepText = [] \<rparr> d)
          (\<lambda>(v, d1).
             if prevSentinel v \<noteq> None \<and> sepNodes v \<noteq> []
             then setupSeparator (prevSentinel v) None (sepNodes v) (sepText v) d1
             else Inr d1)
      else Inr d)"

text \<open>
  \<^verbatim>\<open>WSP.preprocessDOM(node, state, inPre, haveOrigSrc)\<close> and its first loop, which recurses
  into every child and then coalesces text nodes.  The loop returns the last value of
  \<^verbatim>\<open>prev\<close>.  The first argument bounds the number of nested calls and loop iterations.
\<close>

fun preprocessDOM ::
  "nat \<Rightarrow> domUtils \<Rightarrow> nid \<Rightarrow> bool \<Rightarrow> bool \<Rightarrow> state \<times> dom \<Rightarrow> error + state \<times> dom"
  and ppChildren ::
  "nat \<Rightarrow> domUtils \<Rightarrow> nid \<Rightarrow> bool \<Rightarrow> bool \<Rightarrow> nid option \<Rightarrow> nid option \<Rightarrow> state \<times> dom \<Rightarrow>
     error + nid option \<times> state \<times> dom" where
  "preprocessDOM 0 du node inPre haveOrigSrc sd = Inl OutOfFuel"
| "preprocessDOM (Suc f) du node inPre haveOrigSrc sd =
     (if toLowerCase (dName (snd sd) node) = ''meta''
      then bindE (ppMeta du node (fst sd) (snd sd)) (\<lambda>st1. Inr (st1, snd sd))
      else
        bindE (ppChildren f du node inPre haveOrigSrc (dFirstChild (snd sd) node) None sd)
          (\<lambda>(prev, st1, d1).
             bindE (ppSeparators f du node inPre haveOrigSrc prev d1) (\<lambda>d2. Inr (st1, d2))))"
| "ppChildren 0 du node inPre haveOrigSrc child prev sd = Inl OutOfFuel"
| "ppChildren (Suc f) du node inPre haveOrigSrc child prev sd =
     (case child of
        None \<Rightarrow> Inr (prev, sd)
      | Some c \<Rightarrow>
          let next = dNextSibling (snd sd) c;
              prev1 = dPreviousSibling (snd sd) c;
              childIsPre = hasNodeName du (snd sd) c ''pre''
          in bindE (preprocessDOM f du c (inPre \<or> childIsPre) haveOrigSrc sd) (\<lambda>(st1, d1).
               bindE (if dType d1 c = Some TEXT_NODE then ppText f node c next d1
                      else Inr (next, d1))
                 (\<lambda>(next1, d2). ppChildren f du node inPre haveOrigSrc next1 prev1 (st1, d2))))"

section \<open>The DOM walker\<close>

text \<open>
  \<^verbatim>\<open>WSP._serializeDOM\<close> walks the document and calls the DOM-based handlers, which call it
  back on the children of a node.  What the walker and the handlers do to the document and
  the order in which they visit nodes are modelled from the sources.  Two parts of the
  sources that work on the serializer state and on strings only are parameters: the table
  \<^verbatim>\<open>WSP.tagHandlers\<close> of the token-based handlers (\<open>tagTable\<close>), and the decisions of
  \<^verbatim>\<open>WSP.linkHandler\<close> between its branches with the link text they compute (\<open>linkPlan\<close>).
\<close>

text \<open>
  \<^verbatim>\<open>WSP._serializeToken(state, token)\<close> for every kind of token: a comment is written with
  its delimiters and does not change the start-of-line status, and the end-of-file token
  hands an empty chunk to the chunk callback before the part after the switch does.
\<close>

definition serializeToken ::
  "collab \<Rightarrow> (string \<Rightarrow> tagHandler option) \<Rightarrow> state \<Rightarrow> token \<Rightarrow> error + state" where
  "serializeToken c tagHandlers st token =
     (let st0 = st\<lparr>prevToken := curToken st, curToken := Some token\<rparr>
      in case token of
           Tag t \<Rightarrow> serializeTagToken c tagHandlers st t
         | Str s \<Rightarrow> serializeTextToken c st s
         | CommentTk v \<Rightarrow>
             Inr (finishToken (noFlags\<lparr>f_solTransparent := True\<rparr>) False (''<!--'' @ v @ ''-->'') st0)
         | NlTk \<Rightarrow>
             Inr (finishToken noFlags False
                    (if textHandler st0 then indentPreTextHandler st0 [nl] else [nl]) st0)
         | EOFTk \<Rightarrow> Inr (finishToken noFlags False [] (chunkCB [] None st0)))"

datatype wikiBody = SimpleLink string | PipedString string | PipedNodes string bool

datatype linkPlan =
  WikiLinkPlan "(string \<times> string) option" wikiBody
  | ExtLinkPlan string
  | MagicLinkPlan
  | TextPlan "string option"
  | HtmlPlan

record walkEnv =
  du :: domUtils
  cl :: collab
  tagTable :: "string \<Rightarrow> tagHandler option"
  linkPlan :: "state \<Rightarrow> dom \<Rightarrow> nid \<Rightarrow> error + linkPlan \<times> state"

text \<open>The recursive call \<^verbatim>\<open>this.serializer._serializeDOM(node, state)\<close>.\<close>

type_synonym walker = "nid \<Rightarrow> state \<times> dom \<Rightarrow> error + state \<times> dom"

text \<open>\<^verbatim>\<open>nodes[i]\<close> for the live list \<^verbatim>\<open>owner.childNodes\<close>.\<close>

definition liveChild :: "dom \<Rightarrow> nid \<Rightarrow> nat \<Rightarrow> nid option" where
  "liveChild d owner i = (if i < length (dKids d owner) then Some (dKids d owner ! i) else None)"

text \<open>
  \<^verbatim>\<open>state.serializeChildren(nodes, chunkCB, wtEscaper)\<close> where \<^verbatim>\<open>nodes\<close> is
  \<^verbatim>\<open>owner.childNodes\<close>: the loop over the indices below the length the list had at the
  start, and the function.
\<close>

fun serializeChildrenLoop ::
  "walker \<Rightarrow> nid \<Rightarrow> nat list \<Rightarrow> state \<times> dom \<Rightarrow> error + state \<times> dom" where
  "serializeChildrenLoop rec owner [] sd = Inr sd"
| "serializeChildrenLoop rec owner (i # is) sd =
     (case liveChild (snd sd) owner i of
        None \<Rightarrow> Inl TypeError
      | Some k \<Rightarrow> bindE (rec k sd) (serializeChildrenLoop rec owner is))"

definition serializeChildren ::
  "walker \<Rightarrow> nid \<Rightarrow> cbKind \<Rightarrow> wteHandler option \<Rightarrow> state \<times> dom \<Rightarrow> error + state \<times> dom" where
  "serializeChildren rec owner cb wtEscaper sd =
     (let st = fst sd;
          oldCB = chunkCBOf st;
          st1 = st\<lparr>chunkCBOf := cb\<rparr>;
          st2 = (if wtEscaper \<noteq> None
                 then st1\<lparr>wteHandlerStack := wteHandlerStack st1 @ [wtEscaper]\<rparr> else st1)
      in bindE (serializeChildrenLoop rec owner [0 ..< length (dKids (snd sd) owner)] (st2, snd sd))
           (\<lambda>(st3, d3).
              let st4 = st3\<lparr>chunkCBOf := oldCB\<rparr>
              in Inr (if wtEscaper \<noteq> None
                      then st4\<lparr>wteHandlerStack := butlast (wteHandlerStack st4)\<rparr> else st4, d3)))"

text \<open>
  \<^verbatim>\<open>state.serializeChildrenToString(owner.childNodes, wtEscaper)\<close>: the chunks go to a
  new collector and are joined.
\<close>

definition serializeChildrenToStringD ::
  "walker \<Rightarrow> nid \<Rightarrow> wteHandler option \<Rightarrow> state \<times> dom \<Rightarrow> error + string \<times> state \<times> dom" where
  "serializeChildrenToStringD rec owner wtEscaper sd =
     bindE (serializeChildren rec owner BitsCB wtEscaper ((fst sd)\<lparr>out := []\<rparr>, snd sd))
       (\<lambda>(st1, d1). Inr (concat (map fst (out st1)), st1\<lparr>out := out (fst sd)\<rparr>, d1))"

text \<open>\<^verbatim>\<open>WSP._getDOMAttribs\<close>.\<close>

definition getDOMAttribs :: "(string \<times> string) list \<Rightarrow> (string \<times> string) list" where
  "getDOMAttribs as =
     filter (\<lambda>kv. fst kv \<notin> set [''data-parsoid'', ''data-ve-changed'', ''data-parsoid-changed'',
                                  ''dtaa-parsoid-diff'', ''data-parsoid-serialize'']) as"

text \<open>\<^verbatim>\<open>isHtmlBlockTag\<close>, \<^verbatim>\<open>firstBlockNodeAncestor\<close> and \<^verbatim>\<open>gatherInlineText\<close>; they read only.\<close>

definition isHtmlBlockTag :: "domUtils \<Rightarrow> string \<Rightarrow> bool" where
  "isHtmlBlockTag u nm = (nm = ''body'' \<or> isBlockTag u nm)"

fun firstBlockNodeAncestor :: "nat \<Rightarrow> domUtils \<Rightarrow> dom \<Rightarrow> nid \<Rightarrow> error + nid" where
  "firstBlockNodeAncestor 0 u d node = Inl OutOfFuel"
| "firstBlockNodeAncestor (Suc f) u d node =
     (if isHtmlBlockTag u (toLowerCase (dName d node)) then Inr node
      else (case dParent d node of
              None \<Rightarrow> Inl TypeError
            | Some p \<Rightarrow> firstBlockNodeAncestor f u d p))"

fun gatherInlineText :: "nat \<Rightarrow> domUtils \<Rightarrow> dom \<Rightarrow> nid \<Rightarrow> error + string list"
  and gatherInlineKids :: "nat \<Rightarrow> domUtils \<Rightarrow> dom \<Rightarrow> nid list \<Rightarrow> error + string list" where
  "gatherInlineText 0 u d node = Inl OutOfFuel"
| "gatherInlineText (Suc f) u d node =
     (case dType d node of
        Some ELEMENT_NODE \<Rightarrow>
          if isHtmlBlockTag u (toLowerCase (dName d node)) then Inr []
          else gatherInlineKids f u d (dKids d node)
      | Some COMMENT_NODE \<Rightarrow> Inr [''<--'' @ dData d node @ ''-->'']
      | Some TEXT_NODE \<Rightarrow> Inr [dData d node]
      | None \<Rightarrow> Inr [])"
| "gatherInlineKids f u d [] = Inr []"
| "gatherInlineKids f u d (k # ks) =
     bindE (gatherInlineText f u d k) (\<lambda>a.
       bindE (gatherInlineKids f u d ks) (\<lambda>b. Inr (a @ b)))"

text \<open>\<^verbatim>\<open>/\bmw:Object(\/[^\s]+|\b)/\<close>; the flag says whether the previous character is a word
  character.  After \<^verbatim>\<open>mw:Object\<close> either alternative needs a character that is not a word
  character, or the end.\<close>

fun mwObjectRE :: "bool \<Rightarrow> string \<Rightarrow> bool" where
  "mwObjectRE pw [] = False"
| "mwObjectRE pw (c # cs) =
     ((\<not> pw \<and> wordAt ''mw:Object'' (c # cs)) \<or> mwObjectRE (isWordChar c) cs)"

text \<open>
  The start of \<^verbatim>\<open>_serializeDOM\<close> for an element: content of the active template is
  skipped, and the first node of template output is serialized as a \<^verbatim>\<open>mw:TemplateSource\<close>
  meta token.  The result says whether the walker returns here.
\<close>

definition templateCheck :: "walkEnv \<Rightarrow> nid \<Rightarrow> state \<Rightarrow> dom \<Rightarrow> error + bool \<times> state" where
  "templateCheck e node st d =
     bindE (dGetAttribute d node ''about'') (\<lambda>about.
       if truthy (activeTemplateId st) \<and> activeTemplateId st = about then Inr (True, st)
       else
         bindE (dGetAttribute d node ''typeof'') (\<lambda>typeofVal.
           if truthy typeofVal \<and> mwObjectRE False (orElse typeofVal [])
           then
             bindE (dGetAttribute d node ''data-parsoid-serialize'') (\<lambda>dps.
               bindE (getDOMRTInfo (du e) d node) (\<lambda>rt.
                 let attrs1 = [(''typeof'', ''mw:TemplateSource'')] @
                              (if truthy dps then [(''data-parsoid-serialize'', orElse dps [])]
                               else []);
                     dummyToken = \<lparr> tt = SelfclosingTagTk, name = ''meta'', attribs = attrs1,
                                    dataAttribs = emptyDP\<lparr>src := src rt\<rparr> \<rparr>;
                     st1 = st\<lparr>activeTemplateId := Some (orElse about [])\<rparr>;
                     st2 = (if truthy dps then st1\<lparr>selserInfo := dps\<rparr> else st1)
                 in bindE (serializeToken (cl e) (tagTable e) st2 (Tag dummyToken))
                      (\<lambda>st3. Inr (True, st3))))
           else Inr (False, st\<lparr>activeTemplateId := None\<rparr>)))"

text \<open>\<^verbatim>\<open>DU.loadDataParsoid(node); DU.loadDataAttrib(node, 'parsoid-serialize', null)\<close>.\<close>

definition loadData :: "domUtils \<Rightarrow> nid \<Rightarrow> dom \<Rightarrow> error + dom" where
  "loadData u node d =
     bindE (loadedParsoid u d node) (\<lambda>dp.
       Inr (updNode d node (\<lambda>n. n\<lparr>dataP := Some dp, dataS := loadedSerialize u d node\<rparr>)))"

text \<open>The link tail hack: \<^verbatim>\<open>tailSrc\<close>.\<close>

definition linkTailSrc :: "domUtils \<Rightarrow> nid \<Rightarrow> string \<Rightarrow> dom \<Rightarrow> error + string" where
  "linkTailSrc u node nm d =
     (if nm = ''a''
      then
        bindE (dGetAttribute d node ''rel'') (\<lambda>rel.
          if rel = Some ''mw:WikiLink''
          then
            bindE (dGetAttribute d node ''data-parsoid'') (\<lambda>a.
              bindE (jsonParse u (orElse a ''{}'')) (\<lambda>dp.
                Inr (if stx dp \<noteq> Some ''html'' \<and> \<not> truthy (tail dp) \<and>
                        (case dNextSibling d node of
                           None \<Rightarrow> False
                         | Some nx \<Rightarrow>
                             dType d nx = Some TEXT_NODE \<and>
                             (case dData d nx of
                                [] \<Rightarrow> False
                              | c # cs \<Rightarrow> 97 \<le> (of_char c :: nat) \<and> (of_char c :: nat) \<le> 122))
                     then ''<nowiki/>'' else [])))
          else Inr [])
      else Inr [])"

text \<open>\<^verbatim>\<open>fc.data.match(/^(\r\n|\r|\n)/)\<close>: the captured line break.\<close>

definition leadingNL :: "string \<Rightarrow> string option" where
  "leadingNL s =
     (if take 2 s = [cr, nl] then Some [cr, nl]
      else if take 1 s = [cr] then Some [cr]
      else if take 1 s = [nl] then Some [nl] else None)"

text \<open>
  The patch of an html-syntax \<^verbatim>\<open>pre\<close>: a leading line break of the first text child is
  doubled; otherwise a stripped line break recorded in the metadata is put back, in the
  first text child or in a new text node.
\<close>

definition patchHtmlPre :: "nid \<Rightarrow> dataParsoid \<Rightarrow> dom \<Rightarrow> error + dom" where
  "patchHtmlPre node tkRTInfo d =
     (let fc = dFirstChild d node;
          fcText = (case fc of None \<Rightarrow> None
                    | Some k \<Rightarrow> if dType d k = Some TEXT_NODE then Some k else None);
          matches = (case fcText of None \<Rightarrow> None | Some k \<Rightarrow> leadingNL (dData d k));
          d1 = (case (fcText, matches) of
                  (Some k, Some m) \<Rightarrow> insertData0 d k m
                | _ \<Rightarrow> d)
      in if matches = None \<and> truthy (strippedNL tkRTInfo)
         then (case fcText of
                 Some k \<Rightarrow> Inr (insertData0 d1 k (orElse (strippedNL tkRTInfo) []))
               | None \<Rightarrow>
                   let (d2, t) = createTextNode d1 (orElse (strippedNL tkRTInfo) [])
                   in insertBefore d2 node t fc)
         else Inr d1)"

text \<open>\<^verbatim>\<open>WSP.htmlElementHandler(state, node, cb)\<close>.\<close>

definition htmlElementHandler ::
  "walker \<Rightarrow> walkEnv \<Rightarrow> nid \<Rightarrow> cbKind \<Rightarrow> state \<times> dom \<Rightarrow> error + state \<times> dom" where
  "htmlElementHandler rec e node cb sd =
     bindE (dDataP (snd sd) node) (\<lambda>dp.
       let attribKVs = getAttributeKVArray (du e) (snd sd) node;
           nm = toLowerCase (dName (snd sd) node);
           (s1, st1) = serializeHTMLTag (cl e) (fst sd)
                         \<lparr> tt = TagTk, name = nm, attribs = attribKVs, dataAttribs = dp \<rparr>;
           st2 = applyCB cb s1 None st1
       in bindE (if dKids (snd sd) node \<noteq> [] then serializeChildren rec node cb None (st2, snd sd)
                 else Inr (st2, snd sd))
            (\<lambda>(st3, d3).
               bindE (dDataP d3 node) (\<lambda>dp3.
                 let (s2, st4) = serializeHTMLEndTag (cl e) st3
                                   \<lparr> tt = EndTagTk, name = nm, attribs = attribKVs, dataAttribs = dp3 \<rparr>
                 in Inr (applyCB cb s2 None st4, d3))))"

text \<open>\<^verbatim>\<open>splitLinkContentString(contentString, dp)\<close>: the content, the tail and the prefix.\<close>

definition splitLinkContentString :: "string \<Rightarrow> dataParsoid \<Rightarrow> string \<times> string \<times> string" where
  "splitLinkContentString contentString dp =
     (if pipetrick dp then ([], orElse (tail dp) [], orElse (prefix dp) [])
      else
        let t = orElse (tail dp) [];
            hasTail = (t \<noteq> [] \<and> drop (length contentString - length t) contentString = t);
            cs1 = (if hasTail then take (length contentString - length t) contentString
                   else contentString);
            t1 = (if hasTail then t else []);
            p = orElse (prefix dp) [];
            hasPrefix = (p \<noteq> [] \<and> take (length p) cs1 = p);
            cs2 = (if hasPrefix then drop (length p) cs1 else cs1);
            p1 = (if hasPrefix then p else [])
        in (cs2, t1, p1))"

text \<open>\<^verbatim>\<open>dp.tail = t; dp.prefix = p\<close> on the metadata object \<^verbatim>\<open>node.data.parsoid\<close>.\<close>

definition setTailPrefix :: "dom \<Rightarrow> nid \<Rightarrow> string \<Rightarrow> string \<Rightarrow> dom" where
  "setTailPrefix d node t p =
     updNode d node (\<lambda>n. n\<lparr>dataP := map_option (\<lambda>dp. dp\<lparr>tail := Some t, prefix := Some p\<rparr>) (dataP n)\<rparr>)"

text \<open>
  \<^verbatim>\<open>WSP.linkHandler(state, node, cb)\<close>, in three parts.  \<open>wikiLinkBody\<close> emits a wiki
  link: a simple link or a piped link with a string as content is passed to the callback;
  a piped link whose content is a list of nodes serializes those, splits tail and prefix
  off and stores them in the metadata.  \<open>linkBranch\<close> is the choice between the kinds of
  link: a wiki link whose category target carries a sort key first stores the tail and
  prefix of the sort key in the metadata; an external link serializes its children;
  everything else is passed to the callback as it is, or goes to
  \<^verbatim>\<open>htmlElementHandler\<close>.
\<close>

definition wikiLinkBody ::
  "walker \<Rightarrow> nid \<Rightarrow> cbKind \<Rightarrow> wikiBody \<Rightarrow> state \<times> dom \<Rightarrow> error + state \<times> dom" where
  "wikiLinkBody rec node cb body sd =
     (case body of
        SimpleLink s \<Rightarrow> Inr (applyCB cb s None (fst sd), snd sd)
      | PipedString s \<Rightarrow> Inr (applyCB cb s None (fst sd), snd sd)
      | PipedNodes target keepEmpty \<Rightarrow>
          bindE (serializeChildrenToStringD rec node (Some WikilinkHandler) sd)
            (\<lambda>(contentSrc, st3, d2).
               bindE (dDataP d2 node) (\<lambda>dp.
                 let (cs, t, p) = splitLinkContentString contentSrc dp;
                     d3 = setTailPrefix d2 node t p;
                     cs1 = (if cs = [] \<and> \<not> keepEmpty then ''<nowiki/>'' else cs)
                 in Inr (applyCB cb (p @ ''[['' @ target @ ''|'' @ cs1 @ '']]'' @ t) None st3, d3))))"

definition linkBranch ::
  "walker \<Rightarrow> walkEnv \<Rightarrow> nid \<Rightarrow> cbKind \<Rightarrow> linkPlan \<Rightarrow> state \<times> dom \<Rightarrow> error + state \<times> dom" where
  "linkBranch rec e node cb plan sd =
     (case plan of
        WikiLinkPlan sortKey body \<Rightarrow>
          wikiLinkBody rec node cb body
            ((fst sd)\<lparr>onStartOfLine := False\<rparr>,
             case sortKey of
               None \<Rightarrow> snd sd
             | Some tp \<Rightarrow> setTailPrefix (snd sd) node (fst tp) (snd tp))
      | ExtLinkPlan target \<Rightarrow>
          bindE (serializeChildrenToStringD rec node (Some AHandler)
                   ((fst sd)\<lparr>onStartOfLine := False\<rparr>, snd sd))
            (\<lambda>(s, st3, d1). Inr (applyCB cb (''['' @ target @ '' '' @ s @ '']'') None st3, d1))
      | MagicLinkPlan \<Rightarrow>
          (case dFirstChild (snd sd) node of
             None \<Rightarrow> Inl TypeError
           | Some fc \<Rightarrow> Inr (applyCB cb (dData (snd sd) fc) None (fst sd), snd sd))
      | TextPlan s \<Rightarrow>
          Inr (case s of None \<Rightarrow> fst sd | Some x \<Rightarrow> applyCB cb x None (fst sd), snd sd)
      | HtmlPlan \<Rightarrow> htmlElementHandler rec e node cb sd)"

definition linkHandler ::
  "walker \<Rightarrow> walkEnv \<Rightarrow> nid \<Rightarrow> cbKind \<Rightarrow> state \<times> dom \<Rightarrow> error + state \<times> dom" where
  "linkHandler rec e node cb sd =
     bindE (dDataP (snd sd) node) (\<lambda>dp0.
       bindE (linkPlan e (fst sd) (snd sd) node) (\<lambda>(plan, st1).
         linkBranch rec e node cb plan (st1, snd sd)))"

text \<open>
  \<^verbatim>\<open>WSP.figureHandler(state, node, cb)\<close> on the store: the image is looked for at
  \<^verbatim>\<open>node.firstChild.firstChild\<close>, the caption is \<^verbatim>\<open>node.lastChild\<close>, and the children of the
  caption are serialized.
\<close>

definition findImgD :: "dom \<Rightarrow> nid \<Rightarrow> (nid \<times> nid) option" where
  "findImgD d node =
     (case dFirstChild d node of
        None \<Rightarrow> None
      | Some fc \<Rightarrow>
          (case dFirstChild d fc of
             None \<Rightarrow> None
           | Some img \<Rightarrow>
               if dType d img \<noteq> Some ELEMENT_NODE then None
               else (case dLastChild d node of None \<Rightarrow> None | Some caption \<Rightarrow> Some (img, caption))))"

definition figureHandlerD ::
  "walker \<Rightarrow> walkEnv \<Rightarrow> nid \<Rightarrow> cbKind \<Rightarrow> state \<times> dom \<Rightarrow> error + state \<times> dom" where
  "figureHandlerD rec e node cb sd =
     bindE (dDataP (snd sd) node) (\<lambda>dp.
       case findImgD (snd sd) node of
         None \<Rightarrow> Inr (applyCB cb [] None (fst sd), snd sd)
       | Some (img, caption) \<Rightarrow>
           bindE (serializeChildrenToStringD rec caption (Some AHandler) sd) (\<lambda>(captionSrc, st1, d1).
             bindE (dGetAttribute d1 img ''resource'') (\<lambda>resource.
               let imgResource = stripResourceBrackets (orElse resource [])
               in (case optionList dp of
                     None \<Rightarrow> Inl TypeError
                   | Some figAttrs \<Rightarrow>
                       bindE (figureOptions (cl e) captionSrc (optNames dp) figAttrs None None
                                [Some imgResource])
                         (\<lambda>(w, h, outBits).
                            let outBits1 = (if truthy w then outBits @ [Some (sizeBit (orElse w []) h)]
                                            else outBits)
                            in Inr (applyCB cb (''[['' @ joinBits ''|'' outBits1 @ '']]'') None st1,
                                    d1))))))"

text \<open>
  \<^verbatim>\<open>WSP.getDOMHandler(state, node, cb)\<close>: the handler, if any.  For a \<^verbatim>\<open>mw:Entity\<close> node
  with source the children are serialized here; for a \<^verbatim>\<open>mw:Image\<close> span the attributes
  \<^verbatim>\<open>rel\<close> and \<^verbatim>\<open>href\<close> are set.
\<close>

datatype domHandler = SrcHandler | EntityHandler string | LinkNodeHandler | FigureNodeHandler

definition htmlSyntax :: "dataParsoid \<Rightarrow> string \<Rightarrow> nid \<Rightarrow> dom \<Rightarrow> error + bool" where
  "htmlSyntax dp nm node d =
     (if stx dp = Some ''html'' then Inr True
      else
        bindE (dGetAttribute d node ''data-parsoid'') (\<lambda>a.
          if a = None \<and> nm \<noteq> ''meta''
          then (case dParent d node of
                  None \<Rightarrow> Inr False
                | Some p \<Rightarrow> bindE (dDataP d p) (\<lambda>pdp. Inr (stx pdp = Some ''html'')))
          else Inr False))"

definition getDOMHandler ::
  "walker \<Rightarrow> walkEnv \<Rightarrow> nid \<Rightarrow> state \<times> dom \<Rightarrow> error + domHandler option \<times> state \<times> dom" where
  "getDOMHandler rec e node sd =
     bindE (dDataP (snd sd) node) (\<lambda>dp.
       bindE (dGetAttribute (snd sd) node ''typeof'') (\<lambda>ty.
         let nm = toLowerCase (dName (snd sd) node);
             nodeTypeOf = orElse ty []
         in if src dp \<noteq> None \<and> (nodeTypeOf = ''mw:TemplateSource'' \<or> nodeTypeOf = ''mw:Placeholder'')
            then Inr (Some SrcHandler, sd)
            else if src dp \<noteq> None \<and> nodeTypeOf = ''mw:Entity''
            then bindE (serializeChildrenToStringD rec node None sd) (\<lambda>(contentSrc, sd1).
                   Inr (Some (EntityHandler contentSrc), sd1))
            else if nm = ''span'' \<and> nodeTypeOf = ''mw:Image''
            then Inr (Some LinkNodeHandler, fst sd,
                      setAttribute (setAttribute (snd sd) node ''rel'' ''mw:Image'') node ''href'' [])
            else
              bindE (htmlSyntax dp nm node (snd sd)) (\<lambda>html.
                Inr (if html then None
                     else if nm = ''a'' \<or> nm = ''link'' then Some LinkNodeHandler
                     else if nm = ''figure'' then Some FigureNodeHandler
                     else None, sd))))"

text \<open>\<^verbatim>\<open>domHandler.handle(state, node, cbWrapper)\<close>.\<close>

definition handleDOM ::
  "walker \<Rightarrow> walkEnv \<Rightarrow> domHandler \<Rightarrow> nid \<Rightarrow> cbKind \<Rightarrow> state \<times> dom \<Rightarrow> error + state \<times> dom" where
  "handleDOM rec e h node cb sd =
     (case h of
        SrcHandler \<Rightarrow>
          bindE (dDataP (snd sd) node) (\<lambda>dp.
            Inr (applyCB cb (orElse (src dp) []) None (fst sd), snd sd))
      | EntityHandler contentSrc \<Rightarrow>
          bindE (dDataP (snd sd) node) (\<lambda>dp.
            Inr (applyCB cb (if srcContent dp = Some contentSrc then orElse (src dp) []
                             else contentSrc) None (fst sd), snd sd))
      | LinkNodeHandler \<Rightarrow> linkHandler rec e node cb sd
      | FigureNodeHandler \<Rightarrow> figureHandlerD rec e node cb sd)"

text \<open>
  The loop of \<^verbatim>\<open>_serializeDOM\<close> over the children of an element that has no DOM-based
  handler.  \<open>isContentChild\<close> is the test that a child is not a comment, not a
  white-space text node and not content of the active template; \<open>sepBefore\<close> emits the
  separator in front of an element child.  The loop returns \<^verbatim>\<open>prevEltChild\<close>.
\<close>

definition isContentChild :: "state \<Rightarrow> dom \<Rightarrow> nid \<Rightarrow> error + bool" where
  "isContentChild st d child =
     (case dType d child of
        Some COMMENT_NODE \<Rightarrow> Inr False
      | Some TEXT_NODE \<Rightarrow> Inr (\<not> list_all isSpace (dData d child))
      | Some ELEMENT_NODE \<Rightarrow>
          bindE (dGetAttribute d child ''about'') (\<lambda>about.
            Inr (\<not> (truthy (activeTemplateId st) \<and> activeTemplateId st = about)))
      | None \<Rightarrow> Inr True)"

definition sepBefore :: "walkEnv \<Rightarrow> nid \<Rightarrow> nid \<Rightarrow> nid option \<Rightarrow> state \<Rightarrow> dom \<Rightarrow> state" where
  "sepBefore e node child prevEltChild st d =
     (if dType d child = Some ELEMENT_NODE
      then (case prevEltChild of
              None \<Rightarrow>
                if \<not> hasNodeName (du e) d node ''pre''
                then emitSeparator (duDataParsoid (du e) d node) (duDataParsoid (du e) d child)
                       START_SEP st
                else st
            | Some p \<Rightarrow>
                if dType d p = Some ELEMENT_NODE \<and> \<not> hasNodeName (du e) d node ''pre''
                then emitSeparator (duDataParsoid (du e) d p) (duDataParsoid (du e) d child)
                       IE_SEP st
                else st)
      else st)"

fun tokenChildren ::
  "walker \<Rightarrow> walkEnv \<Rightarrow> nid \<Rightarrow> nat list \<Rightarrow> nid option \<Rightarrow> state \<times> dom \<Rightarrow>
     error + nid option \<times> state \<times> dom" where
  "tokenChildren rec e node [] prevEltChild sd = Inr (prevEltChild, sd)"
| "tokenChildren rec e node (i # is) prevEltChild sd =
     (case liveChild (snd sd) node i of
        None \<Rightarrow> Inl TypeError
      | Some child \<Rightarrow>
          if isMarkerMeta (du e) (snd sd) child ''mw:Separator''
          then tokenChildren rec e node is prevEltChild sd
          else
            bindE (isContentChild (fst sd) (snd sd) child) (\<lambda>content.
              let st1 = (if content then sepBefore e node child prevEltChild (fst sd) (snd sd)
                         else fst sd);
                  prev1 = (if content then Some child else prevEltChild)
              in bindE (rec child (st1, snd sd)) (\<lambda>sd1. tokenChildren rec e node is prev1 sd1)))"

text \<open>
  The token-based branch of \<^verbatim>\<open>_serializeDOM\<close>: the start token, the children, the
  separator before the end, the end token and the link tail.  The variable \<^verbatim>\<open>parentSTX\<close>
  is read from \<^verbatim>\<open>state.parentST1X\<close>, which is never set, so \<^verbatim>\<open>state.parentSTX\<close> is
  \<^verbatim>\<open>undefined\<close> after the children.  A metadata object counts as empty when it is \<open>emptyDP\<close>.
\<close>

definition tokenBased ::
  "walker \<Rightarrow> walkEnv \<Rightarrow> nid \<Rightarrow> string \<Rightarrow> (string \<times> string) list \<Rightarrow> dataParsoid \<Rightarrow> string \<Rightarrow>
     state \<times> dom \<Rightarrow> error + state \<times> dom" where
  "tokenBased rec e node nm tkAttribs tkRTInfo tailSrc sd =
     bindE (serializeToken (cl e) (tagTable e) (fst sd)
              (Tag \<lparr> tt = TagTk, name = nm, attribs = tkAttribs, dataAttribs = tkRTInfo \<rparr>))
       (\<lambda>st1.
          let st2 = (if tkRTInfo \<noteq> emptyDP \<or> nm \<in> set [''table'', ''ul'', ''ol'', ''dl''] \<or>
                        nm \<notin> set [''tbody'', ''tr'', ''td'', ''li'', ''dd'', ''dt'']
                     then (if nm = ''p'' \<or> \<not> isBlockTag (du e) nm then st1\<lparr>parentSTX := None\<rparr>
                           else st1\<lparr>parentSTX := stx tkRTInfo\<rparr>)
                     else st1);
              oldPrevToken = prevToken st2;
              oldPrevTagToken = prevTagToken st2;
              st3 = st2\<lparr>prevToken := None, prevTagToken := None\<rparr>
          in bindE (tokenChildren rec e node [0 ..< length (dKids (snd sd) node)] None (st3, snd sd))
               (\<lambda>(prevEltChild, st4, d4).
                  let st5 = (case prevEltChild of
                               None \<Rightarrow> st4
                             | Some p \<Rightarrow>
                                 if dType d4 p = Some ELEMENT_NODE \<and>
                                    \<not> hasNodeName (du e) d4 node ''pre''
                                 then emitSeparator (duDataParsoid (du e) d4 p)
                                        (duDataParsoid (du e) d4 node) END_SEP st4
                                 else st4);
                      st6 = st5\<lparr>prevTagToken := oldPrevTagToken, prevToken := oldPrevToken,
                               parentSTX := None\<rparr>
                  in bindE (serializeToken (cl e) (tagTable e) st6
                              (Tag \<lparr> tt = EndTagTk, name = nm, attribs = tkAttribs,
                                     dataAttribs = tkRTInfo \<rparr>))
                       (\<lambda>st7. Inr (if tailSrc \<noteq> [] then chunkCB tailSrc (selserInfo st7) st7
                                    else st7, d4))))"

text \<open>
  The element case of \<^verbatim>\<open>_serializeDOM\<close> after the template check: the metadata is loaded
  into \<^verbatim>\<open>node.data\<close> and an html-syntax \<^verbatim>\<open>pre\<close> is patched; then (\<open>dispatchElement\<close>)
  the node goes to its DOM-based handler, with the wrapper of the current callback, or to
  the token-based branch.
\<close>

definition dDataS :: "dom \<Rightarrow> nid \<Rightarrow> string option" where
  "dDataS d i = (case heap d i of None \<Rightarrow> None | Some n \<Rightarrow> dataS n)"

definition dispatchElement ::
  "walker \<Rightarrow> walkEnv \<Rightarrow> nid \<Rightarrow> string \<Rightarrow> (string \<times> string) list \<Rightarrow> dataParsoid \<Rightarrow> string \<Rightarrow>
     state \<times> dom \<Rightarrow> error + state \<times> dom" where
  "dispatchElement rec e node nm tkAttribs tkRTInfo tailSrc sd =
     bindE (getDOMHandler rec e node sd) (\<lambda>(h, st3, d3).
       case h of
         Some dh \<Rightarrow>
           bindE (handleDOM rec e dh node (WrapCB (chunkCBOf st3)) (st3, d3)) (\<lambda>(st4, d4).
             let tk = Some (Tag \<lparr> tt = EndTagTk, name = nm, attribs = tkAttribs,
                                  dataAttribs = tkRTInfo \<rparr>)
             in Inr (st4\<lparr>curToken := tk, prevToken := tk, currTagToken := tk,
                       prevTagToken := tk\<rparr>, d4))
       | None \<Rightarrow> tokenBased rec e node nm tkAttribs tkRTInfo tailSrc (st3, d3))"

definition serializeElement ::
  "walker \<Rightarrow> walkEnv \<Rightarrow> nid \<Rightarrow> state \<times> dom \<Rightarrow> error + state \<times> dom" where
  "serializeElement rec e node sd =
     (let nm = toLowerCase (dName (snd sd) node);
          tkAttribs = getDOMAttribs (dAttrs (snd sd) node)
      in bindE (getDOMRTInfo (du e) (snd sd) node) (\<lambda>tkRTInfo.
           bindE (loadData (du e) node (snd sd)) (\<lambda>d1.
             let st1 = (if isHtmlBlockTag (du e) nm
                        then (fst sd)\<lparr>currLineOf := \<lparr> lineText = None, numPieces = 0,
                               processed = False, hasBracketPair = False,
                               hasHeadingPair = False \<rparr>\<rparr>
                        else fst sd)
             in bindE (linkTailSrc (du e) node nm d1) (\<lambda>tailSrc.
                  bindE (if nm = ''pre'' \<and> stx tkRTInfo = Some ''html''
                         then patchHtmlPre node tkRTInfo d1 else Inr d1) (\<lambda>d2.
                    let own = (selserInfo st1 = None);
                        serializeInfo = (if own then dDataS d2 node else None);
                        st2 = (if own then chunkCB [] serializeInfo (st1\<lparr>selserInfo := serializeInfo\<rparr>)
                               else st1)
                    in bindE (dispatchElement rec e node nm tkAttribs tkRTInfo tailSrc (st2, d2))
                         (\<lambda>(st5, d5).
                            Inr (if serializeInfo \<noteq> None then st5\<lparr>selserInfo := None\<rparr> else st5,
                                 d5)))))))"

text \<open>
  The body of \<^verbatim>\<open>WSP._serializeDOM(node, state)\<close>; \<open>rec\<close> is the function itself for the
  nested calls and \<open>f\<close> bounds the walks of \<^verbatim>\<open>firstBlockNodeAncestor\<close> and
  \<^verbatim>\<open>gatherInlineText\<close>.
\<close>

definition serializeNodeBody ::
  "nat \<Rightarrow> walker \<Rightarrow> walkEnv \<Rightarrow> nid \<Rightarrow> state \<times> dom \<Rightarrow> error + state \<times> dom" where
  "serializeNodeBody f rec e node sd =
     (case dType (snd sd) node of
        None \<Rightarrow> Inl TypeError
      | Some ELEMENT_NODE \<Rightarrow>
          bindE (templateCheck e node (fst sd) (snd sd)) (\<lambda>(done, st1).
            if done then Inr (st1, snd sd) else serializeElement rec e node (st1, snd sd))
      | Some TEXT_NODE \<Rightarrow>
          (let st1 = (fst sd)\<lparr>activeTemplateId := None\<rparr>
           in bindE (if lineText (currLineOf st1) = None
                     then
                       bindE (firstBlockNodeAncestor f (du e) (snd sd) node) (\<lambda>bn.
                         bindE (gatherInlineKids f (du e) (snd sd) (dKids (snd sd) bn)) (\<lambda>buf.
                           Inr (st1\<lparr>currLineOf := (currLineOf st1)
                                  \<lparr>numPieces := length (dKids (snd sd) bn),
                                   lineText := Some (concat buf)\<rparr>\<rparr>)))
                     else Inr st1)
                (\<lambda>st2. bindE (serializeToken (cl e) (tagTable e) st2 (Str (dData (snd sd) node)))
                         (\<lambda>st3. Inr (st3, snd sd))))
      | Some COMMENT_NODE \<Rightarrow>
          bindE (serializeToken (cl e) (tagTable e) (fst sd) (CommentTk (dData (snd sd) node)))
            (\<lambda>st1. Inr (st1, snd sd)))"

text \<open>\<^verbatim>\<open>WSP._serializeDOM\<close>; the first argument bounds the depth of the nested calls.\<close>

primrec serializeNode :: "nat \<Rightarrow> walkEnv \<Rightarrow> walker" where
  "serializeNode 0 e = (\<lambda>node sd. Inl OutOfFuel)"
| "serializeNode (Suc f) e = serializeNodeBody f (serializeNode f e) e"

section \<open>Serializing a document\<close>

text \<open>
  \<^verbatim>\<open>WSP.serializeDOM(node, chunkCB, finalCB, selser)\<close> for a caller that passes a chunk
  callback.  \<open>pagesrc\<close> is \<^verbatim>\<open>env.page.src\<close> of the options.  \<open>selser\<close> is \<open>None\<close> when the
  argument is \<^verbatim>\<open>undefined\<close> and holds \<^verbatim>\<open>selser.serializeInfo\<close> otherwise.  Without \<^verbatim>\<open>selser\<close>
  the node is cloned; then the document is preprocessed and walked and the end-of-file
  token is serialized.  The result is what the chunk callback received, and the store.
  The callbacks of the caller are taken not to touch the document.
\<close>

definition serializeDOM ::
  "nat \<Rightarrow> walkEnv \<Rightarrow> string option \<Rightarrow> nid \<Rightarrow> string option option \<Rightarrow> dom \<Rightarrow>
     error + (string \<times> string option) list \<times> dom" where
  "serializeDOM f e pagesrc node selser d =
     bindE (case selser of None \<Rightarrow> cloneNode f node d | Some si \<Rightarrow> Inr (node, d)) (\<lambda>(node1, d1).
       let st0 = initialState\<lparr>pageSrc := pagesrc\<rparr>;
           st1 = (case selser of None \<Rightarrow> st0 | Some si \<Rightarrow> st0\<lparr>selserInfo := si\<rparr>)
       in bindE (preprocessDOM f (du e) node1 False (truthy (pageSrc st1)) (st1, d1)) (\<lambda>(st2, d2).
            bindE (serializeNode f e node1 (st2\<lparr>chunkCBOf := TopCB, out := []\<rparr>, d2)) (\<lambda>(st4, d4).
              bindE (serializeToken (cl e) (tagTable e) st4 EOFTk) (\<lambda>st5. Inr (out st5, d4)))))"

section \<open>The nodes of a clone\<close>

text \<open>
  What a run of the serializer keeps true of the store, for a store \<open>d0\<close> at the time of
  the call and \<open>b\<close> the first identifier that was unused then.  \<open>frame\<close>: every node
  object below \<open>b\<close> is as it was in \<open>d0\<close>.  \<open>closed\<close>: the children and the parent of
  every node object from \<open>b\<close> on are themselves from \<open>b\<close> on, so that following
  \<^verbatim>\<open>childNodes\<close>, \<^verbatim>\<open>parentNode\<close> and the sibling properties from such a node never reaches a
  node of the caller.
\<close>

definition okNode :: "nid \<Rightarrow> dnode \<Rightarrow> bool" where
  "okNode b n = ((\<forall>k. k \<in> set (kids n) \<longrightarrow> b \<le> k) \<and> (\<forall>p. parent n = Some p \<longrightarrow> b \<le> p))"

definition closed :: "nid \<Rightarrow> dom \<Rightarrow> bool" where
  "closed b d = (\<forall>i n. b \<le> i \<longrightarrow> heap d i = Some n \<longrightarrow> okNode b n)"

definition frame :: "dom \<Rightarrow> nid \<Rightarrow> dom \<Rightarrow> bool" where
  "frame d0 b d = (\<forall>i. i < b \<longrightarrow> heap d i = heap d0 i)"

definition rinv :: "dom \<Rightarrow> nid \<Rightarrow> dom \<Rightarrow> bool" where
  "rinv d0 b d = (frame d0 b d \<and> b \<le> fresh d \<and> closed b d)"

text \<open>An optional node of the region, and the variables of the separator loop.\<close>

definition inR :: "nid \<Rightarrow> nid option \<Rightarrow> bool" where
  "inR b x = (case x of None \<Rightarrow> True | Some k \<Rightarrow> b \<le> k)"

definition okVars :: "nid \<Rightarrow> sepVars \<Rightarrow> bool" where
  "okVars b v = (inR b (prevSentinel v) \<and> (\<forall>s \<in> set (sepNodes v). b \<le> s))"

text \<open>A walker that keeps the invariant when it is called on a node of the region.\<close>

definition recOK :: "dom \<Rightarrow> nid \<Rightarrow> walker \<Rightarrow> bool" where
  "recOK d0 b rec =
     (\<forall>n st d st' d'. rinv d0 b d \<longrightarrow> b \<le> n \<longrightarrow> rec n (st, d) = Inr (st', d') \<longrightarrow> rinv d0 b d')"

text \<open>A store in which no node object exists at or above \<open>fresh\<close>.\<close>

definition wfStore :: "dom \<Rightarrow> bool" where
  "wfStore d = (\<forall>i. fresh d \<le> i \<longrightarrow> heap d i = None)"

section \<open>Stand-ins used to evaluate the document model\<close>

text \<open>
  Concrete DOM utilities for documents without metadata: names are compared in lower
  case, the block tags are the paragraph, heading, \<^verbatim>\<open>div\<close> and \<^verbatim>\<open>pre\<close> tags, and every
  node loads empty metadata.  The environment has the heading handlers as its table of
  token-based handlers.  \<open>headingDoc\<close> is the document \<^verbatim>\<open><h2>ab</h2>\<close> whose text is split
  into two adjacent text nodes.
\<close>

definition plainDU :: domUtils where
  "plainDU = \<lparr>
     hasNodeName = (\<lambda>d n nm. toLowerCase (dName d n) = nm),
     isNodeOfType = (\<lambda>d n nm ty. toLowerCase (dName d n) = nm \<and> map_of (dAttrs d n) ''typeof'' = Some ty),
     hasElementChild = (\<lambda>d n. \<exists>k \<in> set (dKids d n). dType d k = Some ELEMENT_NODE),
     isBlockNode = (\<lambda>d n. toLowerCase (dName d n) \<in> {''p'', ''h1'', ''h2'', ''h3'', ''h4'', ''h5'', ''h6'', ''div'', ''pre''}),
     isMarkerMeta = (\<lambda>d n ty. toLowerCase (dName d n) = ''meta'' \<and> map_of (dAttrs d n) ''typeof'' = Some ty),
     isBlockTag = (\<lambda>nm. nm \<in> {''p'', ''h1'', ''h2'', ''h3'', ''h4'', ''h5'', ''h6'', ''div'', ''pre''}),
     jsonParse = (\<lambda>s. Inr emptyDP),
     loadedParsoid = (\<lambda>d n. Inr emptyDP),
     loadedSerialize = (\<lambda>d n. None),
     duDataParsoid = (\<lambda>d n. emptyDP),
     getAttributeKVArray = (\<lambda>d n. dAttrs d n) \<rparr>"

definition plainEnv :: walkEnv where
  "plainEnv = \<lparr> du = plainDU, cl = plainCollab, tagTable = headingTagHandlers,
                linkPlan = (\<lambda>st d n. Inr (TextPlan None, st)) \<rparr>"

definition exNode :: "nodeType \<Rightarrow> string \<Rightarrow> string \<Rightarrow> nid list \<Rightarrow> nid option \<Rightarrow> dnode" where
  "exNode ty nm txt ks p = \<lparr> nodeType = ty, nodeName = nm, attrs = [], cdata = txt, kids = ks,
     parent = p, dataP = None, dataS = None \<rparr>"

definition headingDoc :: dom where
  "headingDoc = \<lparr> heap = [0 \<mapsto> exNode ELEMENT_NODE ''H2'' [] [1, 2] None,
                          1 \<mapsto> exNode TEXT_NODE ''#text'' ''a'' [] (Some 0),
                          2 \<mapsto> exNode TEXT_NODE ''#text'' ''b'' [] (Some 0)],
                  fresh = 3 \<rparr>"

section \<open>Theorems\<close>

subsection \<open>Separators spliced from the original source\<close>



lemma applyCB_fields:
  "pageSrc (applyCB k ch info st) = pageSrc st \<and>
   singleLineMode (applyCB k ch info st) = singleLineMode st \<and>
   selserInfo (applyCB k ch info st) = selserInfo st \<and>
   bufferedSeparator (applyCB k ch info st) = bufferedSeparator st \<and>
   separatorEmittedFromSrc (applyCB k ch info st) = separatorEmittedFromSrc st \<and>
   onNewline (applyCB k ch info st) = onNewline st \<and>
   chunkCBOf (applyCB k ch info st) = chunkCBOf st"
  by (induction k arbitrary: st) simp_all

lemma out_applyCB:
  "out (applyCB k ch info st) = out st @ [(ch, if truthy info then info else selserInfo st)]"
  by (induction k arbitrary: st) simp_all

lemma chunkCB_fields:
  "pageSrc (chunkCB ch info st) = pageSrc st"
  "singleLineMode (chunkCB ch info st) = singleLineMode st"
  "selserInfo (chunkCB ch info st) = selserInfo st"
  "bufferedSeparator (chunkCB ch info st) = bufferedSeparator st"
  "separatorEmittedFromSrc (chunkCB ch info st) = separatorEmittedFromSrc st"
  "onNewline (chunkCB ch info st) = onNewline st"
  "chunkCBOf (chunkCB ch info st) = chunkCBOf st"
  using applyCB_fields [of "chunkCBOf st" ch info st] by (simp_all add: chunkCB_def)

lemma out_chunkCB:
  "out (chunkCB ch info st) = out st @ [(ch, if truthy info then info else selserInfo st)]"
  by (simp add: chunkCB_def out_applyCB)

lemma out_emitSepChunk: "out (emitSepChunk sep st) = out st @ [(sep, Some ''separator'')]"
  by (simp add: emitSepChunk_def Let_def out_chunkCB truthy_def)



text \<open>
  Outside the data model the code goes its own way: an entry that is missing from the
  array is not \<^verbatim>\<open>null\<close>, so the function goes on with \<^verbatim>\<open>NaN\<close>, which \<^verbatim>\<open>substring\<close> reads as
  0.  With \<^verbatim>\<open>n2.dsr = []\<close> the text from the start of the source up to the first offset is
  emitted when it is a separator.
\<close>

lemma emitSeparator_short_dsr:
  "out (emitSeparator
     (emptyDP\<lparr>dsrOf := Some [Some 0, Some 2, Some 0, Some 0]\<rparr>)
     (emptyDP\<lparr>dsrOf := Some []\<rparr>)
     IE_SEP (initialState\<lparr>pageSrc := Some ('' '' @ [nl] @ ''x'')\<rparr>))
     = [('' '' @ [nl], Some ''separator'')]"
  by (simp add: emitSeparator_def emptyDP_def initialState_def dsrAt_def toNumber_def jsAdd_def
      jsSub_def toInteger_def jsSubstring_def isSeparatorSrc_def isSpace_def out_emitSepChunk
      Let_def)

subsection \<open>Empty headings\<close>

lemma headingTagHandlers_level:
  assumes "1 \<le> k" "k \<le> 6"
  shows "headingTagHandlers (headingName k) = Some (buildHeadingHandler (replicate k (CHR ''='')))"
proof -
  have "k = 1 \<or> k = 2 \<or> k = 3 \<or> k = 4 \<or> k = 5 \<or> k = 6" using assms by arith
  then show ?thesis
    by (elim disjE) (simp_all add: headingName_def headingTagHandlers_def numeral_eq_Suc)
qed

lemma applyCB_ctx: "sameCtx st (applyCB k ch info st)"
  by (induction k arbitrary: st) (simp_all add: sameCtx_def)

lemma chunkCB_ctx: "sameCtx st (chunkCB ch info st)"
  by (simp add: chunkCB_def applyCB_ctx)

lemma sameCtx_refl: "sameCtx st st"
  by (simp add: sameCtx_def)

lemma sameCtx_trans: "sameCtx a b \<Longrightarrow> sameCtx b c \<Longrightarrow> sameCtx a c"
  by (simp add: sameCtx_def)

lemma emitSepChunk_ctx:
  "sameCtx st (emitSepChunk sep st) \<and> bufferedSeparator (emitSepChunk sep st) = None \<and>
   separatorEmittedFromSrc (emitSepChunk sep st) = separatorEmittedFromSrc st"
proof -
  let ?st1 = "if endsWithNL sep then st\<lparr>onNewline := True\<rparr> else st"
  let ?st2 = "if containsNL sep then ?st1\<lparr>onStartOfLine := True\<rparr> else ?st1"
  have e: "emitSepChunk sep st = (chunkCB sep (Some ''separator'') ?st2)\<lparr>bufferedSeparator := None\<rparr>"
    by (simp add: emitSepChunk_def Let_def)
  have "sameCtx st ?st2" by (simp add: sameCtx_def)
  then have "sameCtx st (chunkCB sep (Some ''separator'') ?st2)"
    using chunkCB_ctx sameCtx_trans by blast
  moreover have "separatorEmittedFromSrc (chunkCB sep (Some ''separator'') ?st2)
                   = separatorEmittedFromSrc st"
    by (simp add: chunkCB_fields)
  ultimately show ?thesis unfolding e by (simp add: sameCtx_def)
qed

text \<open>The line break that \<open>emitNLs\<close> emits or buffers when nothing is buffered.\<close>

lemma emitNLs_line_break:
  assumes "\<not> truthy (bufferedSeparator st)"
  shows "sameCtx st (emitNLs [nl] False st) \<and>
         separatorEmittedFromSrc (emitNLs [nl] False st) = separatorEmittedFromSrc st \<and>
         (if separatorEmittedFromSrc st
          then out (emitNLs [nl] False st) = out st \<and>
               bufferedSeparator (emitNLs [nl] False st) = bufferedSeparator st
          else if truthy (pageSrc st)
          then out (emitNLs [nl] False st) = out st \<and>
               bufferedSeparator (emitNLs [nl] False st) = Some [nl]
          else out (emitNLs [nl] False st) = out st @ [([nl], Some ''separator'')] \<and>
               bufferedSeparator (emitNLs [nl] False st) = None)"
proof -
  have o: "orElse (bufferedSeparator st) [] = []"
    using assms by (auto simp: orElse_def truthy_def split: option.splits)
  show ?thesis
    using emitSepChunk_ctx [of st "[nl]"]
    by (simp add: emitNLs_def Let_def o out_emitSepChunk sameCtx_def)
qed

lemma stripNLs_id: "\<not> list_ex isLineTerm res \<Longrightarrow> stripNLs res = res"
  by (induction res) (auto simp: stripNLs_def isLineTerm_def)

lemma no_lineTerm_last: "res \<noteq> [] \<Longrightarrow> \<not> list_ex isLineTerm res \<Longrightarrow> \<not> endsWithLineTerm res"
  by (auto simp: endsWithLineTerm_def list_ex_iff)

lemma finishToken_plain_chunk:
  assumes B: "\<not> truthy (bufferedSeparator st)" and E: "\<not> f_emitsNL h"
    and R: "res \<noteq> []" "\<not> list_ex isLineTerm res" and S: "f_singleLine h \<le> 0"
    and D: "\<not> f_startsLine h \<or> onStartOfLine st \<or> singleLineMode st \<noteq> 0 \<or>
            separatorEmittedFromSrc st \<or> \<not> truthy (pageSrc st)"
  shows "\<exists>pre post.
           out (finishToken h False res st) = out st @ pre @ [(res, selserInfo st)] @ post \<and>
           (\<forall>x \<in> set (pre @ post). x = ([nl], Some ''separator'')) \<and>
           (\<not> f_startsLine h \<longrightarrow> pre = []) \<and> (\<not> f_endsLine h \<longrightarrow> post = []) \<and>
           (\<not> f_endsLine h \<longrightarrow> \<not> truthy (bufferedSeparator (finishToken h False res st))) \<and>
           \<not> separatorEmittedFromSrc (finishToken h False res st) \<and>
           sameCtx st (finishToken h False res st)"
proof -
  define st1 where
    "st1 = (if f_startsLine h \<and> \<not> onStartOfLine st \<and> \<not> False \<and> singleLineMode st = 0
            then emitNLs [nl] False st else st)"
  define res1 where
    "res1 = (if \<not> truthy (pageSrc st1) \<and> singleLineMode st1 \<noteq> 0 \<and> \<not> f_isTemplateSrc h
             then stripNLs res else res)"
  define st2 where "st2 = chunkCB (if False then [] else res1) None st1"
  define st3 where
    "st3 = (if endsWithLineTerm res1 then st2\<lparr>onNewline := True, onStartOfLine := True\<rparr>
            else if res1 \<noteq> []
            then (if \<not> f_solTransparent h
                  then st2\<lparr>onNewline := False, onStartOfLine := False\<rparr>
                  else st2\<lparr>onNewline := False\<rparr>)
            else st2)"
  define st4 where
    "st4 = (if f_emitsNL h then emitNLs [nl] True st3
            else (case bufferedSeparator st3 of
                    None \<Rightarrow> st3
                  | Some b \<Rightarrow> if b = [] then st3 else emitSepChunk b st3))"
  define st5 where
    "st5 = (if f_endsLine h \<and> \<not> onNewline st4 then emitNLs [nl] False st4 else st4)"
  define st6 where
    "st6 = (if 0 < f_singleLine h
            then st5\<lparr>singleLineMode := singleLineMode st5 + f_singleLine h\<rparr> else st5)"
  have r: "finishToken h False res st = st6\<lparr>separatorEmittedFromSrc := False\<rparr>"
    unfolding finishToken_def Let_def st1_def res1_def st2_def st3_def st4_def st5_def st6_def
    by (rule refl)
  have res1: "res1 = res" using stripNLs_id [OF R(2)] by (simp add: res1_def)
  obtain pre where
    p1: "out st1 = out st @ pre" "\<forall>x \<in> set pre. x = ([nl], Some ''separator'')"
      "\<not> truthy (bufferedSeparator st1)" "sameCtx st st1" "\<not> f_startsLine h \<longrightarrow> pre = []"
  proof (cases "f_startsLine h \<and> \<not> onStartOfLine st \<and> singleLineMode st = 0")
    case False
    then have "st1 = st" by (auto simp: st1_def)
    then show ?thesis using that [of "[]"] B sameCtx_refl by simp
  next
    case T: True
    then have e: "st1 = emitNLs [nl] False st" by (simp add: st1_def)
    from T D have d: "separatorEmittedFromSrc st \<or> \<not> truthy (pageSrc st)" by blast
    show ?thesis
    proof (cases "separatorEmittedFromSrc st")
      case True
      then show ?thesis using that [of "[]"] emitNLs_line_break [OF B] B e T by simp
    next
      case False
      then have "\<not> truthy (pageSrc st)" using d by blast
      then show ?thesis
        using that [of "[([nl], Some ''separator'')]"] emitNLs_line_break [OF B] False e T
        by (simp add: truthy_def)
    qed
  qed
  have p2: "out st2 = out st @ pre @ [(res, selserInfo st)]"
    "bufferedSeparator st2 = bufferedSeparator st1" "sameCtx st st2"
    "separatorEmittedFromSrc st2 = separatorEmittedFromSrc st1"
    using p1 chunkCB_ctx [of st1 res None] sameCtx_trans [OF p1(4)]
    by (auto simp: st2_def res1 out_chunkCB chunkCB_fields truthy_def sameCtx_def)
  have p3: "st3 = (if \<not> f_solTransparent h then st2\<lparr>onNewline := False, onStartOfLine := False\<rparr>
                   else st2\<lparr>onNewline := False\<rparr>)"
    using no_lineTerm_last [OF R] R(1) by (simp add: st3_def res1)
  have p3': "out st3 = out st2" "bufferedSeparator st3 = bufferedSeparator st2" "sameCtx st st3"
    "\<not> onNewline st3" "separatorEmittedFromSrc st3 = separatorEmittedFromSrc st2"
    using p2(3) by (auto simp: p3 sameCtx_def)
  have p4: "st4 = st3"
    using E p1(3) p2(2) p3'(2) by (auto simp: st4_def truthy_def split: option.splits)
  obtain post where
    p5: "out st5 = out st4 @ post" "\<forall>x \<in> set post. x = ([nl], Some ''separator'')"
      "\<not> f_endsLine h \<longrightarrow> post = [] \<and> st5 = st4" "sameCtx st st5"
  proof (cases "f_endsLine h")
    case False
    then have "st5 = st4" by (simp add: st5_def)
    then show ?thesis using that [of "[]"] False p4 p3'(3) by simp
  next
    case True
    then have e: "st5 = emitNLs [nl] False st4" using p4 p3'(4) by (simp add: st5_def)
    have b4: "\<not> truthy (bufferedSeparator st4)" using p4 p3'(2) p2(2) p1(3) by simp
    have c: "sameCtx st st5"
      using emitNLs_line_break [OF b4] e p4 p3'(3) sameCtx_trans by metis
    show ?thesis
    proof (cases "separatorEmittedFromSrc st4 \<or> truthy (pageSrc st4)")
      case True
      then have "out st5 = out st4" using emitNLs_line_break [OF b4] e by (auto split: if_splits)
      then show ?thesis using that [of "[]"] True \<open>f_endsLine h\<close> c by simp
    next
      case False
      then have "out st5 = out st4 @ [([nl], Some ''separator'')]"
        using emitNLs_line_break [OF b4] e by (auto split: if_splits)
      then show ?thesis using that [of "[([nl], Some ''separator'')]"] \<open>f_endsLine h\<close> c by simp
    qed
  qed
  have p6: "st6 = st5" using S by (simp add: st6_def)
  have o: "out (finishToken h False res st) = out st @ pre @ [(res, selserInfo st)] @ post"
    using p5(1) p4 p3'(1) p2(1) by (simp add: r p6)
  have bb: "\<not> f_endsLine h \<longrightarrow> \<not> truthy (bufferedSeparator (finishToken h False res st))"
    using p5(3) p4 p3'(2) p2(2) p1(3) by (auto simp: r p6)
  have cc: "sameCtx st (finishToken h False res st)"
    using p5(4) by (simp add: r p6 sameCtx_def)
  have ss: "\<not> separatorEmittedFromSrc (finishToken h False res st)" by (simp add: r)
  have aa: "\<forall>x \<in> set (pre @ post). x = ([nl], Some ''separator'')" using p1(2) p5(2) by auto
  have pp: "\<not> f_startsLine h \<longrightarrow> pre = []" "\<not> f_endsLine h \<longrightarrow> post = []"
    using p1(5) p5(3) by auto
  show ?thesis
    by (rule exI [of _ pre], rule exI [of _ post]) (use o bb cc ss aa pp in blast)
qed

lemma getTokenHandler_heading:
  assumes "th (name t) = Some (buildHeadingHandler v)"
    and "\<not> isHTMLTag c t" and "parentSTX st \<noteq> Some ''html''"
    and "src (dataAttribs t) = None \<or> lookup c (attribs t) ''typeof'' \<noteq> Some ''mw:TemplateSource''"
  shows "getTokenHandler c th st t =
           (if tt t = TagTk \<or> tt t = SelfclosingTagTk
            then Inr (emptyHandler\<lparr> startsLine := True,
                                    handle := Some (pureHandle (openHeading v)) \<rparr>,
                      st\<lparr>wteHandlerStack := wteHandlerStack st @ [Some HeadingHandler]\<rparr>)
            else Inr (emptyHandler\<lparr> endsLine := True,
                                    handle := Some (pureHandle (closeHeading v)) \<rparr>, st))"
  using assms by (auto simp: getTokenHandler_def buildHeadingHandler_def)

lemma serializeTagToken_heading_start:
  assumes "th (name t) = Some (buildHeadingHandler v)" and "tt t = TagTk"
    and "\<not> isHTMLTag c t" and "parentSTX st \<noteq> Some ''html''"
    and "src (dataAttribs t) = None \<or> lookup c (attribs t) ''typeof'' \<noteq> Some ''mw:TemplateSource''"
    and "\<not> textHandler st" and "\<not> autoInsertedStart (dataAttribs t)"
  shows "serializeTagToken c th st t =
           Inr (finishToken (noFlags\<lparr>f_startsLine := True\<rparr>) False v
                  (st\<lparr> prevToken := curToken st, curToken := Some (Tag t),
                       wteHandlerStack := wteHandlerStack st @ [Some HeadingHandler],
                       prevTagToken := currTagToken st, currTagToken := Some (Tag t) \<rparr>))"
proof -
  let ?st0 = "st\<lparr>prevToken := curToken st, curToken := Some (Tag t)\<rparr>"
  have g: "getTokenHandler c th ?st0 t =
             Inr (emptyHandler\<lparr> startsLine := True, handle := Some (pureHandle (openHeading v)) \<rparr>,
                  ?st0\<lparr>wteHandlerStack := wteHandlerStack ?st0 @ [Some HeadingHandler]\<rparr>)"
    using getTokenHandler_heading [of th t v c ?st0] assms by simp
  show ?thesis
    unfolding serializeTagToken_def Let_def g
    using assms(2,6,7)
    by (simp add: emptyHandler_def runHandle_def pureHandle_def openHeading_def flagsOf_def
        noFlags_def)
qed

lemma serializeTagToken_heading_end:
  assumes "th (name t) = Some (buildHeadingHandler v)" and "tt t = EndTagTk"
    and "\<not> isHTMLTag c t" and "parentSTX st \<noteq> Some ''html''"
    and "src (dataAttribs t) = None \<or> lookup c (attribs t) ''typeof'' \<noteq> Some ''mw:TemplateSource''"
    and "\<not> autoInsertedEnd (dataAttribs t)"
    and "curToken st = Some (Tag s)" and "tt s = TagTk" and "name s = name t"
  shows "serializeTagToken c th st t =
           Inr (finishToken (noFlags\<lparr>f_endsLine := True\<rparr>) False (''<nowiki></nowiki>'' @ v)
                  (st\<lparr> prevToken := curToken st, curToken := Some (Tag t),
                       wteHandlerStack := butlast (wteHandlerStack st),
                       prevTagToken := currTagToken st, currTagToken := Some (Tag t) \<rparr>))"
proof -
  let ?st0 = "st\<lparr>prevToken := curToken st, curToken := Some (Tag t)\<rparr>"
  have g: "getTokenHandler c th ?st0 t =
             Inr (emptyHandler\<lparr> endsLine := True, handle := Some (pureHandle (closeHeading v)) \<rparr>,
                  ?st0)"
    using getTokenHandler_heading [of th t v c ?st0] assms by simp
  show ?thesis
    unfolding serializeTagToken_def Let_def g
    using assms(2,6,7,8,9)
    by (simp add: emptyHandler_def runHandle_def pureHandle_def closeHeading_def flagsOf_def
        noFlags_def)
qed

text \<open>
  C1 (as the code has it).  The start and the end token of an empty heading of level \<open>k\<close>
  are serialized one after the other.  Both are in wikitext syntax (not html tokens, the
  parent syntax is not html), neither is a template-source token, the start tag is not
  auto-inserted and neither is the end tag; no indent-pre text handler is installed and no
  separator is buffered, and the heading begins at start of line (or single-line mode is
  on, or the separator came from the source, or there is no source to buffer a line break
  for).  Then the start token hands the opening delimiter, \<open>k\<close> equals signs, to the chunk
  callback, and the end token, whose previous token is the start token, hands it the empty
  literal-text fence, written \<^verbatim>\<open><nowiki></nowiki>\<close>, followed by the closing delimiter, as
  the next chunk.  Only line-break separator chunks come before and after the two.
\<close>

theorem empty_heading_serialized:
  assumes "1 \<le> k" and "k \<le> 6"
    and "tagHandlers (headingName k) = headingTagHandlers (headingName k)"
    and "tt s = TagTk" and "name s = headingName k"
    and "tt e = EndTagTk" and "name e = headingName k"
    and "\<not> isHTMLTag c s" and "\<not> isHTMLTag c e" and "parentSTX st \<noteq> Some ''html''"
    and "src (dataAttribs s) = None \<or> lookup c (attribs s) ''typeof'' \<noteq> Some ''mw:TemplateSource''"
    and "src (dataAttribs e) = None \<or> lookup c (attribs e) ''typeof'' \<noteq> Some ''mw:TemplateSource''"
    and "\<not> autoInsertedStart (dataAttribs s)" and "\<not> autoInsertedEnd (dataAttribs e)"
    and "\<not> textHandler st" and "\<not> truthy (bufferedSeparator st)"
    and "onStartOfLine st \<or> singleLineMode st \<noteq> 0 \<or> separatorEmittedFromSrc st \<or>
         \<not> truthy (pageSrc st)"
  shows "\<exists>st1 st2 pre post.
           serializeTagToken c tagHandlers st s = Inr st1 \<and>
           serializeTagToken c tagHandlers st1 e = Inr st2 \<and>
           out st2 = out st @ pre @
                     [(replicate k (CHR ''=''), selserInfo st),
                      (''<nowiki></nowiki>'' @ replicate k (CHR ''=''), selserInfo st)] @ post \<and>
           (\<forall>x \<in> set (pre @ post). x = ([nl], Some ''separator''))"
proof -
  let ?v = "replicate k (CHR ''='')"
  have row: "tagHandlers (headingName k) = Some (buildHeadingHandler ?v)"
    using assms(3) headingTagHandlers_level [OF assms(1,2)] by simp
  have v: "?v \<noteq> []" "\<not> list_ex isLineTerm ?v"
    using assms(1) by (auto simp: list_ex_iff isLineTerm_def)
  have fv: "''<nowiki></nowiki>'' @ ?v \<noteq> []" "\<not> list_ex isLineTerm (''<nowiki></nowiki>'' @ ?v)"
    by (auto simp: list_ex_iff isLineTerm_def)
  let ?sa = "st\<lparr> prevToken := curToken st, curToken := Some (Tag s),
                  wteHandlerStack := wteHandlerStack st @ [Some HeadingHandler],
                  prevTagToken := currTagToken st, currTagToken := Some (Tag s) \<rparr>"
  define st1 where "st1 = finishToken (noFlags\<lparr>f_startsLine := True\<rparr>) False ?v ?sa"
  have e1: "serializeTagToken c tagHandlers st s = Inr st1"
    unfolding st1_def
    by (rule serializeTagToken_heading_start)
       (use row assms in \<open>simp_all\<close>)
  obtain pre post1 where
    o1: "out st1 = out ?sa @ pre @ [(?v, selserInfo ?sa)] @ post1"
    and a1: "\<forall>x \<in> set (pre @ post1). x = ([nl], Some ''separator'')"
    and q1: "\<not> f_endsLine (noFlags\<lparr>f_startsLine := True\<rparr>) \<longrightarrow> post1 = []"
    and b1: "\<not> f_endsLine (noFlags\<lparr>f_startsLine := True\<rparr>) \<longrightarrow> \<not> truthy (bufferedSeparator st1)"
    and c1: "sameCtx ?sa st1"
    using finishToken_plain_chunk [of ?sa "noFlags\<lparr>f_startsLine := True\<rparr>" ?v] v assms(16,17)
    unfolding st1_def by (auto simp: noFlags_def)
  have post1: "post1 = []" and buf1: "\<not> truthy (bufferedSeparator st1)"
    using q1 b1 by (simp_all add: noFlags_def)
  have out1: "out st1 = out st @ pre @ [(?v, selserInfo st)]" using o1 post1 by simp
  have ctx1: "curToken st1 = Some (Tag s)" "parentSTX st1 = parentSTX st"
    "selserInfo st1 = selserInfo st"
    using c1 by (simp_all add: sameCtx_def)
  let ?sb = "st1\<lparr> prevToken := curToken st1, curToken := Some (Tag e),
                   wteHandlerStack := butlast (wteHandlerStack st1),
                   prevTagToken := currTagToken st1, currTagToken := Some (Tag e) \<rparr>"
  define st2 where
    "st2 = finishToken (noFlags\<lparr>f_endsLine := True\<rparr>) False (''<nowiki></nowiki>'' @ ?v) ?sb"
  have e2: "serializeTagToken c tagHandlers st1 e = Inr st2"
    unfolding st2_def
    by (rule serializeTagToken_heading_end [where s = s])
       (use row assms ctx1 in \<open>simp_all\<close>)
  obtain pre2 post where
    o2: "out st2 = out ?sb @ pre2 @ [(''<nowiki></nowiki>'' @ ?v, selserInfo ?sb)] @ post"
    and a2: "\<forall>x \<in> set (pre2 @ post). x = ([nl], Some ''separator'')"
    and q2: "\<not> f_startsLine (noFlags\<lparr>f_endsLine := True\<rparr>) \<longrightarrow> pre2 = []"
    using finishToken_plain_chunk [of ?sb "noFlags\<lparr>f_endsLine := True\<rparr>" "''<nowiki></nowiki>'' @ ?v"]
      fv buf1
    unfolding st2_def by (auto simp: noFlags_def)
  have pre2: "pre2 = []" using q2 by (simp add: noFlags_def)
  have out2: "out st2 = out st @ pre @
                [(?v, selserInfo st), (''<nowiki></nowiki>'' @ ?v, selserInfo st)] @ post"
    using o2 pre2 out1 ctx1(3) by simp
  have all: "\<forall>x \<in> set (pre @ post). x = ([nl], Some ''separator'')"
    using a1 a2 by auto
  show ?thesis
    by (rule exI [of _ st1], rule exI [of _ st2], rule exI [of _ pre], rule exI [of _ post])
       (use e1 e2 out2 all in blast)
qed

text \<open>The definitions that evaluate the serializer of tag tokens.\<close>

lemmas tag_eval_defs = serializeTagToken_def getTokenHandler_def headingTagHandlers_def
  buildHeadingHandler_def emptyHandler_def runHandle_def pureHandle_def openHeading_def
  closeHeading_def flagsOf_def plainCollab_def initialState_def startTok_def endTok_def
  emptyDP_def finishToken_def emitNLs_def emitSepChunk_def chunkCB_def substrLast100_def
  endsWithLineTerm_def isLineTerm_def endsWithNL_def containsNL_def stripNLs_def truthy_def
  orElse_def defaultHTMLTagHandler_def serializeHTMLTag_def serializeHTMLEndTag_def Let_def

theorem empty_heading_serialized_witness:
  "\<exists>st1 st2 pre post.
     serializeTagToken plainCollab headingTagHandlers initialState (startTok ''h2'') = Inr st1 \<and>
     serializeTagToken plainCollab headingTagHandlers st1 (endTok ''h2'') = Inr st2 \<and>
     out st2 = out initialState @ pre @
               [(replicate 2 (CHR ''=''), selserInfo initialState),
                (''<nowiki></nowiki>'' @ replicate 2 (CHR ''=''), selserInfo initialState)] @ post \<and>
     (\<forall>x \<in> set (pre @ post). x = ([nl], Some ''separator''))"
  using empty_heading_serialized [of 2 headingTagHandlers "startTok ''h2''" "endTok ''h2''"
      plainCollab initialState]
  by (simp add: headingName_def startTok_def endTok_def plainCollab_def initialState_def
      emptyDP_def truthy_def)

text \<open>
  C1 as stated fails: for \<^verbatim>\<open><h2></h2>\<close> serialized from the initial state the chunks are
  \<^verbatim>\<open>==\<close>, \<^verbatim>\<open><nowiki></nowiki>==\<close> and the line break, so the heading is written
  \<^verbatim>\<open>==<nowiki></nowiki>==\<close>, not \<^verbatim>\<open>==<nowiki/>==\<close>.
\<close>

theorem empty_h2_not_selfclosing_fence:
  "serializeTagToken plainCollab headingTagHandlers initialState (startTok ''h2'')
     = Inr (initialState\<lparr> curToken := Some (Tag (startTok ''h2'')),
              wteHandlerStack := [Some HeadingHandler],
              currTagToken := Some (Tag (startTok ''h2'')),
              lastRes := ''=='', onNewline := False, onStartOfLine := False,
              out := [(''=='', None)] \<rparr>) \<and>
   serializeTagToken plainCollab headingTagHandlers
       (initialState\<lparr> curToken := Some (Tag (startTok ''h2'')),
          wteHandlerStack := [Some HeadingHandler],
          currTagToken := Some (Tag (startTok ''h2'')),
          lastRes := ''=='', onNewline := False, onStartOfLine := False,
          out := [(''=='', None)] \<rparr>) (endTok ''h2'')
     = Inr (initialState\<lparr> prevToken := Some (Tag (startTok ''h2'')),
              curToken := Some (Tag (endTok ''h2'')),
              prevTagToken := Some (Tag (startTok ''h2'')),
              currTagToken := Some (Tag (endTok ''h2'')),
              lastRes := ''==<nowiki></nowiki>=='' @ [nl],
              out := [(''=='', None), (''<nowiki></nowiki>=='', None),
                      ([nl], Some ''separator'')] \<rparr>) \<and>
   ''=='' @ ''<nowiki></nowiki>=='' \<noteq> ''==<nowiki/>==''"
  by (simp add: tag_eval_defs)

text \<open>
  Outside the conditions of C1 an empty heading is written otherwise: in html syntax it
  keeps its tags, and an auto-inserted end tag emits nothing.
\<close>

lemma html_heading_keeps_tags:
  "serializeTagToken (plainCollab\<lparr>isHTMLTag := (\<lambda>t. stx (dataAttribs t) = Some ''html'')\<rparr>)
       headingTagHandlers initialState
       \<lparr> tt = TagTk, name = ''h2'', attribs = [], dataAttribs = emptyDP\<lparr>stx := Some ''html''\<rparr> \<rparr>
     = Inr (initialState\<lparr>
              curToken := Some (Tag \<lparr> tt = TagTk, name = ''h2'', attribs = [],
                                      dataAttribs = emptyDP\<lparr>stx := Some ''html''\<rparr> \<rparr>),
              wteHandlerStack := [None],
              currTagToken := Some (Tag \<lparr> tt = TagTk, name = ''h2'', attribs = [],
                                          dataAttribs = emptyDP\<lparr>stx := Some ''html''\<rparr> \<rparr>),
              lastRes := ''<h2>'', onNewline := False, onStartOfLine := False,
              out := [(''<h2>'', None)] \<rparr>) \<and>
   serializeTagToken (plainCollab\<lparr>isHTMLTag := (\<lambda>t. stx (dataAttribs t) = Some ''html'')\<rparr>)
       headingTagHandlers
       (initialState\<lparr>
          curToken := Some (Tag \<lparr> tt = TagTk, name = ''h2'', attribs = [],
                                  dataAttribs = emptyDP\<lparr>stx := Some ''html''\<rparr> \<rparr>),
          wteHandlerStack := [None],
          currTagToken := Some (Tag \<lparr> tt = TagTk, name = ''h2'', attribs = [],
                                      dataAttribs = emptyDP\<lparr>stx := Some ''html''\<rparr> \<rparr>),
          lastRes := ''<h2>'', onNewline := False, onStartOfLine := False,
          out := [(''<h2>'', None)] \<rparr>)
       \<lparr> tt = EndTagTk, name = ''h2'', attribs = [], dataAttribs = emptyDP\<lparr>stx := Some ''html''\<rparr> \<rparr>
     = Inr (initialState\<lparr>
              prevToken := Some (Tag \<lparr> tt = TagTk, name = ''h2'', attribs = [],
                                       dataAttribs = emptyDP\<lparr>stx := Some ''html''\<rparr> \<rparr>),
              curToken := Some (Tag \<lparr> tt = EndTagTk, name = ''h2'', attribs = [],
                                      dataAttribs = emptyDP\<lparr>stx := Some ''html''\<rparr> \<rparr>),
              prevTagToken := Some (Tag \<lparr> tt = TagTk, name = ''h2'', attribs = [],
                                          dataAttribs = emptyDP\<lparr>stx := Some ''html''\<rparr> \<rparr>),
              currTagToken := Some (Tag \<lparr> tt = EndTagTk, name = ''h2'', attribs = [],
                                          dataAttribs = emptyDP\<lparr>stx := Some ''html''\<rparr> \<rparr>),
              lastRes := ''<h2></h2>'', onNewline := False, onStartOfLine := False,
              out := [(''<h2>'', None), (''</h2>'', None)] \<rparr>)"
  by (simp add: tag_eval_defs)

lemma auto_inserted_end_suppresses_fence:
  "serializeTagToken plainCollab headingTagHandlers
       (initialState\<lparr> curToken := Some (Tag (startTok ''h2'')),
          wteHandlerStack := [Some HeadingHandler],
          currTagToken := Some (Tag (startTok ''h2'')),
          lastRes := ''=='', onNewline := False, onStartOfLine := False,
          out := [(''=='', None)] \<rparr>)
       \<lparr> tt = EndTagTk, name = ''h2'', attribs = [],
         dataAttribs = emptyDP\<lparr>autoInsertedEnd := True\<rparr> \<rparr>
     = Inr (initialState\<lparr> prevToken := Some (Tag (startTok ''h2'')),
              curToken := Some (Tag \<lparr> tt = EndTagTk, name = ''h2'', attribs = [],
                                      dataAttribs = emptyDP\<lparr>autoInsertedEnd := True\<rparr> \<rparr>),
              prevTagToken := Some (Tag (startTok ''h2'')),
              currTagToken := Some (Tag \<lparr> tt = EndTagTk, name = ''h2'', attribs = [],
                                          dataAttribs = emptyDP\<lparr>autoInsertedEnd := True\<rparr> \<rparr>),
              lastRes := ''=='' @ [nl],
              out := [(''=='', None), ([], None), ([nl], Some ''separator'')] \<rparr>)"
  by (simp add: tag_eval_defs)

subsection \<open>What the escape engine leaves untouched\<close>

lemma runWteHandler_frame:
  "runWteHandler h st txt = (b, st') \<Longrightarrow>
     pageSrc st' = pageSrc st \<and> singleLineMode st' = singleLineMode st \<and> out st' = out st \<and>
     selserInfo st' = selserInfo st \<and> onNewline st' = onNewline st \<and>
     onStartOfLine st' = onStartOfLine st \<and> bufferedSeparator st' = bufferedSeparator st \<and>
     separatorEmittedFromSrc st' = separatorEmittedFromSrc st \<and> chunkCBOf st' = chunkCBOf st"
  by (cases h) (auto simp: replaceTopByNull_def Let_def split: option.splits)

lemma fenced_state: "fenced st txt = Inr (r, st') \<Longrightarrow> st' = st"
  by (auto simp: fenced_def split: sum.splits)

lemma lineLevelEscape_frame:
  "lineLevelEscape c st sol txt = Inr (r, st') \<Longrightarrow>
     pageSrc st' = pageSrc st \<and> singleLineMode st' = singleLineMode st \<and> out st' = out st \<and>
     selserInfo st' = selserInfo st \<and> onNewline st' = onNewline st \<and>
     onStartOfLine st' = onStartOfLine st \<and> bufferedSeparator st' = bufferedSeparator st \<and>
     separatorEmittedFromSrc st' = separatorEmittedFromSrc st \<and> chunkCBOf st' = chunkCBOf st"
  by (auto simp: lineLevelEscape_def Let_def split: if_splits option.splits sum.splits
      dest!: fenced_state)

lemma escapeWikiText_frame:
  assumes "escapeWikiText c st txt = Inr (r, st')"
  shows "pageSrc st' = pageSrc st \<and> singleLineMode st' = singleLineMode st \<and> out st' = out st \<and>
     selserInfo st' = selserInfo st \<and> onNewline st' = onNewline st \<and>
     onStartOfLine st' = onStartOfLine st \<and> bufferedSeparator st' = bufferedSeparator st \<and>
     separatorEmittedFromSrc st' = separatorEmittedFromSrc st \<and> chunkCBOf st' = chunkCBOf st"
proof -
  obtain hit st1 where h:
    "(case (if wteHandlerStack st = [] then None else last (wteHandlerStack st)) of
        None \<Rightarrow> (False, st)
      | Some h \<Rightarrow> runWteHandler h st txt) = (hit, st1)"
    by (cases "(case (if wteHandlerStack st = [] then None else last (wteHandlerStack st)) of
                  None \<Rightarrow> (False, st)
                | Some h \<Rightarrow> runWteHandler h st txt)") auto
  have f1: "pageSrc st1 = pageSrc st \<and> singleLineMode st1 = singleLineMode st \<and>
     out st1 = out st \<and> selserInfo st1 = selserInfo st \<and> onNewline st1 = onNewline st \<and>
     onStartOfLine st1 = onStartOfLine st \<and> bufferedSeparator st1 = bufferedSeparator st \<and>
     separatorEmittedFromSrc st1 = separatorEmittedFromSrc st \<and> chunkCBOf st1 = chunkCBOf st"
    using h runWteHandler_frame by (auto split: option.splits if_splits)
  have "st' = st \<or> st' = st1 \<or> (\<exists>sol t. lineLevelEscape c st1 sol t = Inr (r, st'))"
    using assms h
    by (auto simp: escapeWikiText_def Let_def split: if_splits dest!: fenced_state)
  then show ?thesis using f1 lineLevelEscape_frame by metis
qed

subsection \<open>Text tokens in single-line mode\<close>

lemma stripNLs_no_nl: "nl \<notin> set (stripNLs s)"
  by (simp add: stripNLs_def)

lemma finishToken_noFlags_out:
  "\<exists>rest. out (finishToken noFlags False res st)
            = out st @ (if \<not> truthy (pageSrc st) \<and> singleLineMode st \<noteq> 0 then stripNLs res
                        else res, selserInfo st) # rest"
  by (auto simp: finishToken_def noFlags_def Let_def out_chunkCB out_emitSepChunk truthy_def
      chunkCB_fields split: option.splits)

lemma textTokenRes_frame:
  assumes "textTokenRes c st0 s = Inr (res, st1)"
  shows "pageSrc st1 = pageSrc st0 \<and> singleLineMode st1 = singleLineMode st0 \<and>
         out st1 = out st0 \<and> selserInfo st1 = selserInfo st0 \<and>
         onNewline st1 = onNewline st0 \<and> onStartOfLine st1 = onStartOfLine st0 \<and>
         chunkCBOf st1 = chunkCBOf st0"
proof -
  obtain res1 where
    e: "(if inNoWiki st0 \<or> inHTMLPre st0 then Inr (escapeEntities c s, st0)
         else escapeWikiText c st0 (escapeEntities c s)) = Inr (res1, st1)"
    using assms by (auto simp: textTokenRes_def Let_def split: sum.splits)
  show ?thesis
    using e escapeWikiText_frame [of c st0 "escapeEntities c s" res1 st1]
    by (auto split: if_splits)
qed

lemmas eval_defs = serializeTextToken_def textTokenRes_def plainCollab_def initialState_def escapeWikiText_def
  urlTriggers_def quickCheckRE_def hasCharOf_def wordAt_def isWordChar_def isSpace_def
  finishToken_def noFlags_def truthy_def orElse_def stripNLs_def chunkCB_def substrLast100_def
  endsWithLineTerm_def isLineTerm_def blankThenNL_def Let_def

text \<open>
  C3 (as the code has it).  \<open>textTokenRes\<close> is the text of the token after escaping.
  While \<open>singleLineMode\<close> is greater than zero, the chunk that a text token hands to the
  chunk callback is that text with every newline removed when no original source is
  available (\<^verbatim>\<open>state.env.page.src\<close> is falsy), so it holds no newline; when original source
  is available the chunk is that text unchanged, newlines included.  The chunk is the
  first entry the call adds to \<open>out\<close>; a flushed buffered separator may follow it.
\<close>

theorem text_chunk_newlines_by_source:
  assumes "0 < singleLineMode st" and "serializeTextToken c st s = Inr st'"
  shows "\<exists>res st1 rest.
           textTokenRes c (st\<lparr>prevToken := curToken st, curToken := Some (Str s)\<rparr>) s
             = Inr (res, st1) \<and>
           out st' = out st @ (if truthy (pageSrc st) then res else stripNLs res, selserInfo st) # rest \<and>
           nl \<notin> set (stripNLs res)"
proof -
  let ?st0 = "st\<lparr>prevToken := curToken st, curToken := Some (Str s)\<rparr>"
  obtain res st1 where
    e: "textTokenRes c ?st0 s = Inr (res, st1)"
    and r: "st' = finishToken noFlags False res
              (if blankThenNL res then st1\<lparr>bufferedSeparator := None\<rparr> else st1)"
    using assms(2) by (auto simp: serializeTextToken_def Let_def split: sum.splits)
  have f: "pageSrc st1 = pageSrc st \<and> singleLineMode st1 = singleLineMode st \<and>
           out st1 = out st \<and> selserInfo st1 = selserInfo st"
    using textTokenRes_frame [OF e] by simp
  let ?st2 = "if blankThenNL res then st1\<lparr>bufferedSeparator := None\<rparr> else st1"
  have p: "pageSrc ?st2 = pageSrc st" "singleLineMode ?st2 \<noteq> 0" "out ?st2 = out st"
    "selserInfo ?st2 = selserInfo st"
    using f assms(1) by auto
  from finishToken_noFlags_out [of res ?st2]
  obtain rest where
    "out st' = out ?st2 @ (if \<not> truthy (pageSrc ?st2) \<and> singleLineMode ?st2 \<noteq> 0
                           then stripNLs res else res, selserInfo ?st2) # rest"
    using r by auto
  then have "out st' = out st @ (if truthy (pageSrc st) then res else stripNLs res, selserInfo st) # rest"
    using p by (simp only: p split: if_splits) auto
  then show ?thesis using e stripNLs_no_nl by blast
qed

theorem text_chunk_newlines_by_source_witness:
  "0 < singleLineMode (initialState\<lparr>singleLineMode := 1\<rparr>) \<and>
   serializeTextToken plainCollab (initialState\<lparr>singleLineMode := 1\<rparr>) (''a'' @ [nl] @ ''b'')
     = Inr (initialState\<lparr> singleLineMode := 1, curToken := Some (Str (''a'' @ [nl] @ ''b'')),
              lastRes := ''ab'', onNewline := False, onStartOfLine := False,
              out := [(''ab'', None)] \<rparr>) \<and>
   (\<exists>res st1 rest.
      textTokenRes plainCollab
          ((initialState\<lparr>singleLineMode := 1\<rparr>)
             \<lparr>prevToken := curToken (initialState\<lparr>singleLineMode := 1\<rparr>),
              curToken := Some (Str (''a'' @ [nl] @ ''b''))\<rparr>) (''a'' @ [nl] @ ''b'')
        = Inr (res, st1) \<and>
      out (initialState\<lparr> singleLineMode := 1, curToken := Some (Str (''a'' @ [nl] @ ''b'')),
              lastRes := ''ab'', onNewline := False, onStartOfLine := False,
              out := [(''ab'', None)] \<rparr>)
        = out (initialState\<lparr>singleLineMode := 1\<rparr>)
          @ (if truthy (pageSrc (initialState\<lparr>singleLineMode := 1\<rparr>)) then res else stripNLs res,
             selserInfo (initialState\<lparr>singleLineMode := 1\<rparr>)) # rest \<and>
      nl \<notin> set (stripNLs res))"
proof -
  let ?s = "initialState\<lparr>singleLineMode := 1\<rparr>"
  let ?r = "initialState\<lparr> singleLineMode := 1, curToken := Some (Str (''a'' @ [nl] @ ''b'')),
              lastRes := ''ab'', onNewline := False, onStartOfLine := False,
              out := [(''ab'', None)] \<rparr>"
  have e: "serializeTextToken plainCollab ?s (''a'' @ [nl] @ ''b'') = Inr ?r"
    by (simp add: eval_defs)
  have h: "0 < singleLineMode ?s"
    by (simp add: initialState_def)
  from text_chunk_newlines_by_source [OF h e] h e show ?thesis by blast
qed

text \<open>
  C3 as stated fails: with original source available the newline stays.  In
  single-line mode the text \<^verbatim>\<open>a\nb\<close> is emitted as the chunk \<^verbatim>\<open>a\nb\<close>.
\<close>

theorem text_chunk_keeps_newline_with_source:
  "0 < singleLineMode (initialState\<lparr>singleLineMode := 1, pageSrc := Some ''x''\<rparr>) \<and>
   serializeTextToken plainCollab (initialState\<lparr>singleLineMode := 1, pageSrc := Some ''x''\<rparr>)
       (''a'' @ [nl] @ ''b'')
     = Inr (initialState\<lparr> singleLineMode := 1, pageSrc := Some ''x'',
              curToken := Some (Str (''a'' @ [nl] @ ''b'')), lastRes := ''a'' @ [nl] @ ''b'',
              onNewline := False, onStartOfLine := False,
              out := [(''a'' @ [nl] @ ''b'', None)] \<rparr>) \<and>
   nl \<in> set (''a'' @ [nl] @ ''b'')"
  by (simp add: eval_defs)

subsection \<open>The newline invariant\<close>

lemmas ewt_defs = escapeWikiText_def urlTriggers_def quickCheckRE_def hasCharOf_def wordAt_def
  isWordChar_def isSpace_def bracesRE_def fenced_def escapedText_def isLineTerm_def Let_def

lemma endsWithNL_containsNL: "endsWithNL s \<Longrightarrow> containsNL s"
  unfolding endsWithNL_def containsNL_def using last_in_set [of s] by metis

text \<open>Separator emission and the token serializer keep the invariant, as long as the
  chunk callback is not the wrapper of a DOM-based handler.\<close>

lemma chunkCB_invariant:
  "plainCB (chunkCBOf st) \<Longrightarrow> nlInvariant (chunkCB ch i st) = nlInvariant st"
  by (cases "chunkCBOf st") (simp_all add: chunkCB_def nlInvariant_def)

lemma emitSepChunk_chunkCBOf: "chunkCBOf (emitSepChunk sep st) = chunkCBOf st"
  by (simp add: emitSepChunk_def Let_def chunkCB_fields)

lemma emitNLs_chunkCBOf: "chunkCBOf (emitNLs nls d st) = chunkCBOf st"
  by (simp add: emitNLs_def Let_def emitSepChunk_chunkCBOf)

lemma emitSepChunk_invariant:
  assumes "plainCB (chunkCBOf st)" "nlInvariant st"
  shows "nlInvariant (emitSepChunk sep st)"
proof -
  let ?st1 = "if endsWithNL sep then st\<lparr>onNewline := True\<rparr> else st"
  let ?st2 = "if containsNL sep then ?st1\<lparr>onStartOfLine := True\<rparr> else ?st1"
  have "nlInvariant ?st2"
    using assms(2) endsWithNL_containsNL [of sep] by (auto simp: nlInvariant_def)
  moreover have "plainCB (chunkCBOf ?st2)" using assms(1) by simp
  ultimately have "nlInvariant (chunkCB sep (Some ''separator'') ?st2)"
    using chunkCB_invariant by blast
  then show ?thesis by (simp add: emitSepChunk_def Let_def nlInvariant_def)
qed

lemma emitNLs_invariant:
  "plainCB (chunkCBOf st) \<Longrightarrow> nlInvariant st \<Longrightarrow> nlInvariant (emitNLs nls d st)"
  using emitSepChunk_invariant by (auto simp: emitNLs_def Let_def nlInvariant_def)

lemma finishToken_invariant:
  assumes "plainCB (chunkCBOf st)" "nlInvariant st"
  shows "nlInvariant (finishToken h supp res st)"
proof -
  define st1 where
    "st1 = (if f_startsLine h \<and> \<not> onStartOfLine st \<and> \<not> supp \<and> singleLineMode st = 0
            then emitNLs [nl] False st else st)"
  define res1 where
    "res1 = (if \<not> truthy (pageSrc st1) \<and> singleLineMode st1 \<noteq> 0 \<and> \<not> f_isTemplateSrc h
             then stripNLs res else res)"
  define st2 where "st2 = chunkCB (if supp then [] else res1) None st1"
  define st3 where
    "st3 = (if endsWithLineTerm res1 then st2\<lparr>onNewline := True, onStartOfLine := True\<rparr>
            else if res1 \<noteq> []
            then (if \<not> f_solTransparent h
                  then st2\<lparr>onNewline := False, onStartOfLine := False\<rparr>
                  else st2\<lparr>onNewline := False\<rparr>)
            else st2)"
  define st4 where
    "st4 = (if f_emitsNL h then emitNLs [nl] True st3
            else (case bufferedSeparator st3 of
                    None \<Rightarrow> st3
                  | Some b \<Rightarrow> if b = [] then st3 else emitSepChunk b st3))"
  define st5 where
    "st5 = (if f_endsLine h \<and> \<not> onNewline st4 then emitNLs [nl] False st4 else st4)"
  define st6 where
    "st6 = (if 0 < f_singleLine h
            then st5\<lparr>singleLineMode := singleLineMode st5 + f_singleLine h\<rparr> else st5)"
  have r: "finishToken h supp res st = st6\<lparr>separatorEmittedFromSrc := False\<rparr>"
    unfolding finishToken_def Let_def st1_def res1_def st2_def st3_def st4_def st5_def st6_def
    by (rule refl)
  have c1: "plainCB (chunkCBOf st1)" using assms(1) by (simp add: st1_def emitNLs_chunkCBOf)
  have i1: "nlInvariant st1"
    using assms emitNLs_invariant by (simp add: st1_def)
  have c2: "plainCB (chunkCBOf st2)" using c1 by (simp add: st2_def chunkCB_fields)
  have i2: "nlInvariant st2"
    using i1 c1 by (simp add: st2_def chunkCB_invariant)
  have c3: "plainCB (chunkCBOf st3)" using c2 by (simp add: st3_def)
  have i3: "nlInvariant st3"
    using i2 by (simp add: st3_def nlInvariant_def)
  have c4: "plainCB (chunkCBOf st4)"
    using c3 by (simp add: st4_def emitNLs_chunkCBOf emitSepChunk_chunkCBOf split: option.splits)
  have i4: "nlInvariant st4"
    using i3 c3 emitNLs_invariant emitSepChunk_invariant by (simp add: st4_def split: option.splits)
  have i5: "nlInvariant st5"
    using i4 c4 emitNLs_invariant by (simp add: st5_def)
  have "nlInvariant st6" using i5 by (simp add: st6_def nlInvariant_def)
  then show ?thesis by (simp add: r nlInvariant_def)
qed

lemma serializeTextToken_invariant:
  assumes "plainCB (chunkCBOf st)" "nlInvariant st" "serializeTextToken c st s = Inr st'"
  shows "nlInvariant st'"
proof -
  let ?st0 = "st\<lparr>prevToken := curToken st, curToken := Some (Str s)\<rparr>"
  obtain res st1 where
    e: "textTokenRes c ?st0 s = Inr (res, st1)"
    and r: "st' = finishToken noFlags False res
              (if blankThenNL res then st1\<lparr>bufferedSeparator := None\<rparr> else st1)"
    using assms(3) by (auto simp: serializeTextToken_def Let_def split: sum.splits)
  have f: "onNewline st1 = onNewline st \<and> onStartOfLine st1 = onStartOfLine st \<and>
           chunkCBOf st1 = chunkCBOf st"
    using textTokenRes_frame [OF e] by simp
  show ?thesis unfolding r
    by (rule finishToken_invariant) (use f assms(1,2) in \<open>auto simp: nlInvariant_def\<close>)
qed

text \<open>
  C4 fails in the link handler.  \<^verbatim>\<open>escapeWikiLinkContentString\<close> clears
  \<^verbatim>\<open>onStartOfLine\<close> and leaves \<^verbatim>\<open>onNewline\<close> as it is: called in the initial state, where
  both flags are set, it returns a state with \<^verbatim>\<open>onNewline\<close> set and \<^verbatim>\<open>onStartOfLine\<close>
  clear.
\<close>

theorem link_content_escape_breaks_newline_invariant:
  "nlInvariant initialState \<and>
   escapeWikiLinkContentString c ''Foo'' initialState
     = Inr (''Foo'', initialState\<lparr>onStartOfLine := False\<rparr>) \<and>
   \<not> nlInvariant (initialState\<lparr>onStartOfLine := False\<rparr>)"
  by (simp add: escapeWikiLinkContentString_def initialState_def nlInvariant_def ewt_defs)

text \<open>The callback wrapper of the DOM-based handlers does the same when a handler emits
  text that does not end in a newline.\<close>

lemma dom_handler_callback_breaks_newline_invariant:
  "cbWrapper ''[[Foo]]'' None initialState
     = initialState\<lparr> onStartOfLine := False, lastRes := ''[[Foo]]'',
         out := [(''[[Foo]]'', None)] \<rparr> \<and>
   \<not> nlInvariant (cbWrapper ''[[Foo]]'' None initialState)"
  by (simp add: cbWrapper_def initialState_def endsWithNL_def substrLast100_def
      truthy_def nlInvariant_def)

subsection \<open>Literal nowiki tags in fenced text\<close>

text \<open>
  C5 fails on the early fences.  The replacement of \<^verbatim>\<open><nowiki>\<close> and \<^verbatim>\<open></nowiki>\<close> by
  their entity forms stands after three of the returns that fence (context handler,
  braces, leading space at start of line).  The text \<^verbatim>\<open>{{</nowiki>\<close> is fenced by the
  brace test and keeps its raw \<^verbatim>\<open></nowiki>\<close>, whether it comes from a text token or
  through \<^verbatim>\<open>escapeWikiLinkContentString\<close> as the content of a link.
\<close>

theorem early_fence_keeps_raw_nowiki:
  "escapeWikiText c initialState ''{{</nowiki>''
     = Inr (''<nowiki>{{</nowiki></nowiki>'', initialState) \<and>
   escapeWikiLinkContentString c ''{{</nowiki>'' initialState
     = Inr (''<nowiki>{{</nowiki></nowiki>'', initialState\<lparr>onStartOfLine := False\<rparr>)"
  by (simp add: escapeWikiLinkContentString_def initialState_def ewt_defs)

text \<open>The fences after the replacement work on the replaced text.\<close>

lemma escapeNowikiTags_example:
  "escapeNowikiTags ''~~~</nowiki><nowiki>'' = ''~~~&lt;/nowiki&gt;&lt;nowiki&gt;''"
  by simp

subsection \<open>Page properties\<close>

text \<open>
  For a meta token without a (non-empty) \<^verbatim>\<open>typeof\<close> attribute whose \<^verbatim>\<open>property\<close> attribute
  matches \<^verbatim>\<open>mw:PageProp/<name>\<close>, the handler returns \<^verbatim>\<open>dataAttribs.magicSrc\<close> when that
  is present (truthy), and the captured \<^verbatim>\<open><name>\<close> itself otherwise; the state is unchanged.
\<close>

lemma meta_page_prop:
  assumes "\<not> truthy (kvToHash c (attribs token) ''typeof'')"
    and "kvToHash c (attribs token) ''property'' = Some p"
    and "pagePropName p = Some nm"
  shows "metaStartHandle c st token =
           (Some (if truthy (magicSrc (dataAttribs token))
                  then orElse (magicSrc (dataAttribs token)) [] else nm), None, st)"
proof -
  have "p \<noteq> []" using assms(3) by (auto simp: pagePropName_def split: if_splits)
  then show ?thesis using assms
    by (simp add: metaStartHandle_def Let_def truthy_def orElse_def)
qed

lemma meta_page_prop_magicSrc_example:
  "metaStartHandle plainCollab initialState
       \<lparr> tt = SelfclosingTagTk, name = ''meta'', attribs = [(''property'', ''mw:PageProp/notoc'')],
          dataAttribs = emptyDP\<lparr>magicSrc := Some ''__NOTOC__''\<rparr> \<rparr>
     = (Some ''__NOTOC__'', None, initialState)"
  by (simp add: metaStartHandle_def plainCollab_def pagePropName_def truthy_def orElse_def
      Let_def isLineTerm_def emptyDP_def)

text \<open>
  C6 fails on the code where the claim says the canonical magic word is emitted: for the
  meta token with \<^verbatim>\<open>property="mw:PageProp/notoc"\<close>, no \<^verbatim>\<open>typeof\<close> and no \<^verbatim>\<open>magicSrc\<close>, the
  handler returns \<^verbatim>\<open>notoc\<close>, the name captured from the property, and not the magic word
  \<^verbatim>\<open>__NOTOC__\<close> of that page property.
\<close>

theorem meta_page_prop_without_magicSrc_emits_bare_name:
  "kvToHash plainCollab [(''property'', ''mw:PageProp/notoc'')] ''typeof'' = None \<and>
   kvToHash plainCollab [(''property'', ''mw:PageProp/notoc'')] ''property''
     = Some ''mw:PageProp/notoc'' \<and>
   magicSrc emptyDP = None \<and>
   metaStartHandle plainCollab initialState
     \<lparr> tt = SelfclosingTagTk, name = ''meta'', attribs = [(''property'', ''mw:PageProp/notoc'')],
       dataAttribs = emptyDP \<rparr>
     = (Some ''notoc'', None, initialState) \<and>
   ''notoc'' \<noteq> ''__NOTOC__''"
  by (simp add: metaStartHandle_def plainCollab_def pagePropName_def truthy_def orElse_def
      Let_def isLineTerm_def emptyDP_def)

subsection \<open>List items\<close>

text \<open>
  C7.  With a previous token and a previous tag token in the state (as there are
  whenever an earlier token was serialized), the list-item handler counts the item in the
  top frame of the list stack, which it creates with count 0 when the stack is empty, and
  records the item bullet there.  It returns the cumulative prefix (the bullets of the
  frame, then the item bullet) and sets \<^verbatim>\<open>startsLine\<close> exactly when the item is not the
  first of its frame (the frame existed and had counted an item) and the state is at
  start of line, or the previous token is the end tag of the same name, or the token is
  the \<^verbatim>\<open>dd\<close> of a multi-line pair (its \<^verbatim>\<open>stx\<close> is not \<^verbatim>\<open>row\<close> and the previous tag token is
  the end tag of a \<^verbatim>\<open>dt\<close>); otherwise it returns the item bullet alone.
\<close>

theorem list_item_prefix:
  assumes "prevToken st = Some p" and "prevTagToken st = Some q"
  shows "listItemHandler bullet st token =
     Inr (if listStack st \<noteq> [] \<and> 1 \<le> itemCount (last (listStack st)) \<and>
             (onStartOfLine st \<or> isTagNamed EndTagTk (name token) p \<or>
              (name token = ''dd'' \<and> stx (dataAttribs token) \<noteq> Some ''row'' \<and>
               isTagNamed EndTagTk ''dt'' q))
          then bullets (last (listStack st)) @ bullet else bullet,
          listStack st \<noteq> [] \<and> 1 \<le> itemCount (last (listStack st)) \<and>
             (onStartOfLine st \<or> isTagNamed EndTagTk (name token) p \<or>
              (name token = ''dd'' \<and> stx (dataAttribs token) \<noteq> Some ''row'' \<and>
               isTagNamed EndTagTk ''dt'' q)),
          st\<lparr>listStack :=
               (if listStack st = []
                then [\<lparr> itemCount = 1, bullets = bullet, itemBullet = bullet \<rparr>]
                else butlast (listStack st) @
                     [(last (listStack st))\<lparr> itemCount := itemCount (last (listStack st)) + 1,
                                              itemBullet := bullet \<rparr>])\<rparr>)"
  using assms
  by (auto simp: listItemHandler_def isRepeatToken_def isMultiLineDtDdPair_def Let_def
      split: bool.splits)

theorem list_item_prefix_witness:
  "prevToken (initialState\<lparr> listStack := [\<lparr> itemCount = 1, bullets = ''*'', itemBullet = ''*'' \<rparr>],
       onNewline := False, onStartOfLine := False, prevToken := Some (Tag (endTok ''li'')),
       prevTagToken := Some (Tag (endTok ''li'')) \<rparr>) = Some (Tag (endTok ''li'')) \<and>
   prevTagToken (initialState\<lparr> listStack := [\<lparr> itemCount = 1, bullets = ''*'', itemBullet = ''*'' \<rparr>],
       onNewline := False, onStartOfLine := False, prevToken := Some (Tag (endTok ''li'')),
       prevTagToken := Some (Tag (endTok ''li'')) \<rparr>) = Some (Tag (endTok ''li'')) \<and>
   listItemHandler ''*''
       (initialState\<lparr> listStack := [\<lparr> itemCount = 1, bullets = ''*'', itemBullet = ''*'' \<rparr>],
          onNewline := False, onStartOfLine := False, prevToken := Some (Tag (endTok ''li'')),
          prevTagToken := Some (Tag (endTok ''li'')) \<rparr>) (startTok ''li'')
      = Inr (''**'', True,
             initialState\<lparr> listStack := [\<lparr> itemCount = 2, bullets = ''*'', itemBullet = ''*'' \<rparr>],
               onNewline := False, onStartOfLine := False, prevToken := Some (Tag (endTok ''li'')),
               prevTagToken := Some (Tag (endTok ''li'')) \<rparr>)"
proof -
  let ?s = "initialState\<lparr> listStack := [\<lparr> itemCount = 1, bullets = ''*'', itemBullet = ''*'' \<rparr>],
       onNewline := False, onStartOfLine := False, prevToken := Some (Tag (endTok ''li'')),
       prevTagToken := Some (Tag (endTok ''li'')) \<rparr>"
  have a: "prevToken ?s = Some (Tag (endTok ''li''))" by simp
  have b: "prevTagToken ?s = Some (Tag (endTok ''li''))" by simp
  from list_item_prefix [OF a b, of "''*''" "startTok ''li''"] a b show ?thesis
    by (simp add: startTok_def endTok_def initialState_def)
qed

text \<open>The first item of a frame gets its own bullet only, also at start of line.\<close>

lemma first_list_item_own_bullet:
  "listItemHandler '';'' (initialState\<lparr>listStack := [\<lparr> itemCount = 0, bullets = ''*'', itemBullet = [] \<rparr>]\<rparr>)
       (startTok ''dt'')
     = Inr ('';'', False,
            initialState\<lparr>listStack := [\<lparr> itemCount = 1, bullets = ''*'', itemBullet = '';'' \<rparr>]\<rparr>)"
  by (simp add: listItemHandler_def initialState_def Let_def)

subsection \<open>Table rows\<close>

text \<open>
  C8.  With a previous token in the state, the \<^verbatim>\<open>tr\<close> start handler returns the empty
  string when that token is the \<^verbatim>\<open>tbody\<close> start tag and the row has no \<^verbatim>\<open>startTagSrc\<close>.
  In every other case it returns the delimiter, which is \<^verbatim>\<open>startTagSrc\<close> verbatim when
  present and \<^verbatim>\<open>|-\<close> otherwise, followed by a space and the serialized attributes when
  there are any.
\<close>

theorem tr_start_delimiter:
  assumes "prevToken st = Some p"
  shows "trStartHandle c st token =
     Inr (if isTagNamed TagTk ''tbody'' p \<and> \<not> truthy (startTagSrc (dataAttribs token)) then []
          else (if truthy (startTagSrc (dataAttribs token))
                then orElse (startTagSrc (dataAttribs token)) [] else ''|-'')
               @ (if serializeAttributes c st token = [] then []
                  else '' '' @ serializeAttributes c st token))"
  using assms
  by (auto simp: trStartHandle_def serializeTableTag_def Let_def orElse_def truthy_def
      split: option.splits)

theorem tr_start_delimiter_witness:
  "prevToken (initialState\<lparr>prevToken := Some (Tag (startTok ''tbody''))\<rparr>)
     = Some (Tag (startTok ''tbody'')) \<and>
   trStartHandle plainCollab (initialState\<lparr>prevToken := Some (Tag (startTok ''tbody''))\<rparr>)
     (startTok ''tr'') = Inr []"
proof -
  let ?s = "initialState\<lparr>prevToken := Some (Tag (startTok ''tbody''))\<rparr>"
  have a: "prevToken ?s = Some (Tag (startTok ''tbody''))" by simp
  from tr_start_delimiter [OF a, of plainCollab "startTok ''tr''"] a show ?thesis
    by (simp add: startTok_def emptyDP_def truthy_def)
qed

lemma tr_start_after_row:
  "trStartHandle plainCollab (initialState\<lparr>prevToken := Some (Tag (endTok ''tr''))\<rparr>)
     (startTok ''tr'') = Inr ''|-''"
  by (simp add: trStartHandle_def serializeTableTag_def plainCollab_def startTok_def endTok_def
      emptyDP_def truthy_def orElse_def)

subsection \<open>Figures without an image\<close>

text \<open>
  C9.  When the first child of the figure node, or that child's first child, is
  missing, or the latter is not an element, the figure handler returns normally and has
  called its callback once, with the empty string: the state it returns differs from
  the one it got by that one empty chunk.
\<close>

theorem figure_without_img:
  assumes "case firstChild n of
             None \<Rightarrow> True
           | Some fc \<Rightarrow> (case firstChild fc of None \<Rightarrow> True | Some img \<Rightarrow> \<not> isElementNode img)"
  shows "figureHandler c st n = Inr (cbWrapper [] None st) \<and>
         out (cbWrapper [] None st) = out st @ [([], selserInfo st)]"
  using assms
  by (auto simp: figureHandler_def findImg_def cbWrapper_def out_applyCB truthy_def Let_def
      split: option.splits)

theorem figure_without_img_witness:
  "(case firstChild (Element ''figure'' [] emptyDP [Element ''a'' [] emptyDP [TextNode ''x'']]) of
      None \<Rightarrow> True
    | Some fc \<Rightarrow> (case firstChild fc of None \<Rightarrow> True | Some img \<Rightarrow> \<not> isElementNode img)) \<and>
   figureHandler plainCollab initialState
       (Element ''figure'' [] emptyDP [Element ''a'' [] emptyDP [TextNode ''x'']])
     = Inr (initialState\<lparr>out := [([], None)]\<rparr>)"
proof -
  let ?n = "Element ''figure'' [] emptyDP [Element ''a'' [] emptyDP [TextNode ''x'']]"
  have a: "case firstChild ?n of
             None \<Rightarrow> True
           | Some fc \<Rightarrow> (case firstChild fc of None \<Rightarrow> True | Some img \<Rightarrow> \<not> isElementNode img)"
    by (simp add: firstChild_def)
  have b: "cbWrapper [] None initialState = initialState\<lparr>out := [([], None)]\<rparr>"
    by (simp add: cbWrapper_def initialState_def substrLast100_def truthy_def)
  from figure_without_img [OF a, of plainCollab initialState] a b show ?thesis by simp
qed

subsection \<open>The caller's document\<close>

text \<open>
  Every operation on the store keeps the region invariant when it is applied to nodes of
  the region; so do the steps of \<^verbatim>\<open>preprocessDOM\<close>, the DOM-based handlers and the walker.
\<close>

lemma bindE_Inr [simp]: "(bindE m f = Inr r) = (\<exists>x. m = Inr x \<and> f x = Inr r)"
  by (cases m) (simp_all add: bindE_def)

lemma inR_simps [simp]: "inR b None" "inR b (Some k) = (b \<le> k)"
  by (simp_all add: inR_def)

lemma closedD:
  "closed b d \<Longrightarrow> b \<le> i \<Longrightarrow> heap d i = Some n \<Longrightarrow>
     (\<forall>k. k \<in> set (kids n) \<longrightarrow> b \<le> k) \<and> (\<forall>p. parent n = Some p \<longrightarrow> b \<le> p)"
  unfolding closed_def okNode_def by blast

lemma closedD': "closed b d \<Longrightarrow> b \<le> i \<Longrightarrow> heap d i = Some n \<Longrightarrow> okNode b n"
  unfolding closed_def by blast

lemma inv_kids:
  assumes "rinv d0 b d" "b \<le> i" "k \<in> set (dKids d i)"
  shows "b \<le> k"
proof (cases "heap d i")
  case None
  then show ?thesis using assms(3) by (simp add: dKids_def)
next
  case (Some n)
  then have "k \<in> set (kids n)" using assms(3) by (simp add: dKids_def)
  moreover have "closed b d" using assms(1) by (simp add: rinv_def)
  ultimately show ?thesis using closedD [OF _ assms(2) Some] by blast
qed

lemma inv_parent:
  assumes "rinv d0 b d" "b \<le> i" "dParent d i = Some p"
  shows "b \<le> p"
proof (cases "heap d i")
  case None
  then show ?thesis using assms(3) by (simp add: dParent_def)
next
  case (Some n)
  then have "parent n = Some p" using assms(3) by (simp add: dParent_def)
  moreover have "closed b d" using assms(1) by (simp add: rinv_def)
  ultimately show ?thesis using closedD [OF _ assms(2) Some] by blast
qed

lemma inv_firstChild: "rinv d0 b d \<Longrightarrow> b \<le> i \<Longrightarrow> dFirstChild d i = Some k \<Longrightarrow> b \<le> k"
  using inv_kids [of d0 b d i k] by (auto simp: dFirstChild_def split: list.splits)

lemma inv_siblings:
  assumes "rinv d0 b d" "b \<le> i" "k \<in> set (dSiblings d i)"
  shows "b \<le> k"
proof (cases "dParent d i")
  case None
  then show ?thesis using assms(3) by (simp add: dSiblings_def)
next
  case (Some p)
  then have "k \<in> set (dKids d p)" using assms(3) by (simp add: dSiblings_def)
  moreover have "b \<le> p" using inv_parent [OF assms(1,2) Some] .
  ultimately show ?thesis using inv_kids [OF assms(1)] by blast
qed

lemma inv_nextSibling: "rinv d0 b d \<Longrightarrow> b \<le> i \<Longrightarrow> dNextSibling d i = Some k \<Longrightarrow> b \<le> k"
proof -
  assume a: "rinv d0 b d" "b \<le> i" "dNextSibling d i = Some k"
  then obtain x r where "dropWhile (\<lambda>k. k \<noteq> i) (dSiblings d i) = x # k # r"
    by (auto simp: dNextSibling_def split: list.splits)
  then have "k \<in> set (dSiblings d i)"
    by (metis list.set_intros(1,2) set_dropWhileD)
  then show ?thesis using a inv_siblings by blast
qed

lemma inv_previousSibling: "rinv d0 b d \<Longrightarrow> b \<le> i \<Longrightarrow> dPreviousSibling d i = Some k \<Longrightarrow> b \<le> k"
proof -
  assume a: "rinv d0 b d" "b \<le> i" "dPreviousSibling d i = Some k"
  then have "k \<in> set (takeWhile (\<lambda>k. k \<noteq> i) (dSiblings d i))"
    by (auto simp: dPreviousSibling_def Let_def split: if_splits)
  then have "k \<in> set (dSiblings d i)" by (rule set_takeWhileD [THEN conjunct1])
  then show ?thesis using a inv_siblings by blast
qed

lemma rinv_heap_upd:
  assumes "rinv d0 b d" "b \<le> i" "okNode b n'"
  shows "rinv d0 b (d\<lparr>heap := (heap d)(i := Some n')\<rparr>)"
proof -
  have f: "frame d0 b (d\<lparr>heap := (heap d)(i := Some n')\<rparr>)"
    using assms(1,2) unfolding rinv_def frame_def by simp
  have c: "closed b (d\<lparr>heap := (heap d)(i := Some n')\<rparr>)"
    unfolding closed_def
  proof (intro allI impI)
    fix j m assume j: "b \<le> j" "heap (d\<lparr>heap := (heap d)(i := Some n')\<rparr>) j = Some m"
    show "okNode b m"
    proof (cases "j = i")
      case True
      then show ?thesis using j(2) assms(3) by simp
    next
      case False
      then have "heap d j = Some m" using j(2) by simp
      then show ?thesis using assms(1) j(1) closedD' unfolding rinv_def by blast
    qed
  qed
  show ?thesis using f c assms(1) unfolding rinv_def by simp
qed

lemma inv_updNode:
  assumes "rinv d0 b d" "b \<le> i"
    and "\<And>n. heap d i = Some n \<Longrightarrow> okNode b n \<Longrightarrow> okNode b (f n)"
  shows "rinv d0 b (updNode d i f)"
proof (cases "heap d i")
  case None
  then show ?thesis using assms(1) by (simp add: updNode_def)
next
  case (Some n)
  have "okNode b n" using assms(1,2) Some closedD' unfolding rinv_def by blast
  then have "okNode b (f n)" using assms(3) Some by blast
  then show ?thesis using rinv_heap_upd [OF assms(1,2)] Some by (simp add: updNode_def)
qed

lemma dParent_updNode_kids [simp]: "dParent (updNode d q (\<lambda>n. n\<lparr>kids := g n\<rparr>)) c = dParent d c"
  by (cases "heap d q") (simp_all add: dParent_def updNode_def)

lemma inv_detach:
  assumes "rinv d0 b d" "b \<le> c"
  shows "rinv d0 b (detach d c)"
proof (cases "dParent d c")
  case None
  then show ?thesis using assms(1) by (simp add: detach_def)
next
  case (Some q)
  have q: "b \<le> q" using inv_parent [OF assms Some] .
  have i1: "rinv d0 b (updNode d q (\<lambda>n. n\<lparr>kids := removeAll c (kids n)\<rparr>))"
    by (rule inv_updNode [OF assms(1) q]) (simp add: okNode_def)
  have i2: "rinv d0 b (updNode (updNode d q (\<lambda>n. n\<lparr>kids := removeAll c (kids n)\<rparr>)) c
                (\<lambda>n. n\<lparr>parent := None\<rparr>))"
    by (rule inv_updNode [OF i1 assms(2)]) (simp add: okNode_def)
  show ?thesis using i2 Some by (simp add: detach_def)
qed

lemma inv_removeChild:
  assumes "rinv d0 b d" "b \<le> c" "removeChild d p c = Inr d'"
  shows "rinv d0 b d'"
proof -
  have "d' = detach d c" using assms(3) by (simp add: removeChild_def split: if_splits)
  then show ?thesis using inv_detach [OF assms(1,2)] by simp
qed

lemma set_insertAt: "set (insertAt new r ks) \<subseteq> insert new (set ks)"
  by (induction new r ks rule: insertAt.induct) auto

lemma inv_insertBefore:
  assumes "rinv d0 b d" "b \<le> p" "b \<le> new" "insertBefore d p new ref = Inr d'"
  shows "rinv d0 b d'"
proof -
  define ref1 where "ref1 = (if ref = Some new then dNextSibling d new else ref)"
  define d1 where "d1 = detach d new"
  define d2 where "d2 = updNode d1 p (\<lambda>n. n\<lparr>kids := insertAt new ref1 (kids n)\<rparr>)"
  have "insertBefore d p new ref =
          (if (case ref1 of None \<Rightarrow> False | Some r \<Rightarrow> dParent d r \<noteq> Some p) then Inl NotFoundError
           else Inr (updNode d2 new (\<lambda>n. n\<lparr>parent := Some p\<rparr>)))"
    unfolding insertBefore_def Let_def ref1_def d1_def d2_def by (rule refl)
  then have d': "d' = updNode d2 new (\<lambda>n. n\<lparr>parent := Some p\<rparr>)"
    using assms(4) by (simp split: if_splits)
  have i1: "rinv d0 b d1" using assms inv_detach by (simp add: d1_def)
  have i2: "rinv d0 b d2" unfolding d2_def
  proof (rule inv_updNode [OF i1 assms(2)])
    fix n assume h: "okNode b n"
    show "okNode b (n\<lparr>kids := insertAt new ref1 (kids n)\<rparr>)"
      using set_insertAt [of new ref1 "kids n"] assms(3) h unfolding okNode_def by auto
  qed
  show ?thesis unfolding d'
    by (rule inv_updNode [OF i2 assms(3)]) (use assms(2) in \<open>simp add: okNode_def\<close>)
qed

lemma inv_alloc:
  assumes "rinv d0 b d" "alloc d n = (d', i)" "okNode b n"
  shows "rinv d0 b d' \<and> b \<le> i"
proof -
  have b: "b \<le> fresh d" using assms(1) by (simp add: rinv_def)
  have e: "d' = (d\<lparr>heap := (heap d)(fresh d := Some n)\<rparr>)\<lparr>fresh := Suc (fresh d)\<rparr>" "i = fresh d"
    using assms(2) by (auto simp: alloc_def)
  have "rinv d0 b (d\<lparr>heap := (heap d)(fresh d := Some n)\<rparr>)"
    by (rule rinv_heap_upd [OF assms(1) b assms(3)])
  then have "rinv d0 b d'" using b unfolding e rinv_def frame_def closed_def by simp
  then show ?thesis using b e by simp
qed

lemma inv_nextSibling': "rinv d0 b d \<Longrightarrow> b \<le> i \<Longrightarrow> inR b (dNextSibling d i)"
  using inv_nextSibling by (cases "dNextSibling d i") auto

lemma inv_previousSibling': "rinv d0 b d \<Longrightarrow> b \<le> i \<Longrightarrow> inR b (dPreviousSibling d i)"
  using inv_previousSibling by (cases "dPreviousSibling d i") auto

lemma inv_firstChild': "rinv d0 b d \<Longrightarrow> b \<le> i \<Longrightarrow> inR b (dFirstChild d i)"
  using inv_firstChild by (cases "dFirstChild d i") auto

lemma inv_lastChild: "rinv d0 b d \<Longrightarrow> b \<le> i \<Longrightarrow> dLastChild d i = Some k \<Longrightarrow> b \<le> k"
  using inv_kids [of d0 b d i k] last_in_set [of "dKids d i"]
  by (auto simp: dLastChild_def split: if_splits)

lemma inv_setData: "rinv d0 b d \<Longrightarrow> b \<le> i \<Longrightarrow> rinv d0 b (setData d i s)"
  unfolding setData_def by (rule inv_updNode) (simp_all add: okNode_def)

lemma inv_insertData0: "rinv d0 b d \<Longrightarrow> b \<le> i \<Longrightarrow> rinv d0 b (insertData0 d i s)"
  unfolding insertData0_def by (rule inv_updNode) (simp_all add: okNode_def)

lemma inv_setAttribute: "rinv d0 b d \<Longrightarrow> b \<le> i \<Longrightarrow> rinv d0 b (setAttribute d i k v)"
  unfolding setAttribute_def by (rule inv_updNode) (simp_all add: okNode_def)

lemma inv_createElement:
  "rinv d0 b d \<Longrightarrow> createElement d nm = (d', i) \<Longrightarrow> rinv d0 b d' \<and> b \<le> i"
  unfolding createElement_def by (erule (1) inv_alloc) (simp add: okNode_def)

lemma inv_createTextNode:
  "rinv d0 b d \<Longrightarrow> createTextNode d s = (d', i) \<Longrightarrow> rinv d0 b d' \<and> b \<le> i"
  unfolding createTextNode_def by (erule (1) inv_alloc) (simp add: okNode_def)

lemma inv_removeSepNodes:
  "rinv d0 b d \<Longrightarrow> (\<forall>s \<in> set ss. b \<le> s) \<Longrightarrow> removeSepNodes ss d = Inr d' \<Longrightarrow> rinv d0 b d'"
proof (induction ss arbitrary: d)
  case Nil
  then show ?case by simp
next
  case (Cons s ss)
  from Cons.prems(3) obtain p d1 where
    p: "dParent d s = Some p" and r: "removeChild d p s = Inr d1"
    and rest: "removeSepNodes ss d1 = Inr d'"
    by (auto split: option.splits)
  have "rinv d0 b d1" using inv_removeChild [OF Cons.prems(1) _ r] Cons.prems(2) by simp
  then show ?case using Cons.IH [OF _ _ rest] Cons.prems(2) by simp
qed

lemma inv_setupSeparator:
  assumes "rinv d0 b d" "inR b nodeA" "inR b nodeB" "\<forall>s \<in> set sn. b \<le> s"
    and "setupSeparator nodeA nodeB sn st d = Inr d'"
  shows "rinv d0 b d'"
proof -
  obtain d1 m where c: "createElement d ''meta'' = (d1, m)" by (cases "createElement d ''meta''")
  define d3 where
    "d3 = setAttribute (setAttribute d1 m ''typeof'' ''mw:Separator'') m ''data-sep'' (concat st)"
  have i1: "rinv d0 b d1" and m: "b \<le> m" using inv_createElement [OF assms(1) c] by simp_all
  have i3: "rinv d0 b d3" unfolding d3_def using i1 m by (simp add: inv_setAttribute)
  define ins where
    "ins = (case nodeA of
             Some a \<Rightarrow> (case dParent d3 a of None \<Rightarrow> Inl TypeError
                        | Some p \<Rightarrow> insertBefore d3 p m (dNextSibling d3 a))
           | None \<Rightarrow> (case nodeB of None \<Rightarrow> Inl TypeError
                       | Some bb \<Rightarrow> (case dParent d3 bb of None \<Rightarrow> Inl TypeError
                                     | Some p \<Rightarrow> insertBefore d3 p m (dPreviousSibling d3 bb))))"
  have eq: "setupSeparator nodeA nodeB sn st d =
              (if nodeA = None \<and> nodeB = None then Inl TypeError
               else bindE ins (removeSepNodes sn))"
    unfolding setupSeparator_def c prod.case Let_def ins_def d3_def by (rule refl)
  from assms(5) obtain d4 where ins: "ins = Inr d4" and rm: "removeSepNodes sn d4 = Inr d'"
    unfolding eq by (auto split: if_splits)
  have "rinv d0 b d4"
  proof (cases nodeA)
    case (Some a)
    then obtain p where p: "dParent d3 a = Some p" "insertBefore d3 p m (dNextSibling d3 a) = Inr d4"
      using ins unfolding ins_def by (auto split: option.splits)
    have "b \<le> p" using inv_parent [OF i3 _ p(1)] assms(2) Some by simp
    then show ?thesis using inv_insertBefore [OF i3 _ m p(2)] by simp
  next
    case None
    then obtain bb p where p: "nodeB = Some bb" "dParent d3 bb = Some p"
        "insertBefore d3 p m (dPreviousSibling d3 bb) = Inr d4"
      using ins unfolding ins_def by (auto split: option.splits)
    have "b \<le> p" using inv_parent [OF i3 _ p(2)] assms(3) p(1) by simp
    then show ?thesis using inv_insertBefore [OF i3 _ m p(3)] by simp
  qed
  then show ?thesis using inv_removeSepNodes [OF _ assms(4) rm] by simp
qed

lemma inv_ppCoalesce:
  "rinv d0 b d \<Longrightarrow> b \<le> node \<Longrightarrow> inR b nx \<Longrightarrow> ppCoalesce f node nx buf d = Inr (nx', buf', d')
     \<Longrightarrow> rinv d0 b d' \<and> inR b nx'"
proof (induction f arbitrary: nx buf d)
  case 0
  then show ?case by simp
next
  case (Suc f)
  show ?case
  proof (cases nx)
    case None
    then show ?thesis using Suc.prems by simp
  next
    case (Some n)
    show ?thesis
    proof (cases "dType d n = Some TEXT_NODE")
      case False
      then show ?thesis using Suc.prems Some by auto
    next
      case True
      then obtain d1 where r: "removeChild d node n = Inr d1"
        and rest: "ppCoalesce f node (dNextSibling d n) (buf @ [dData d n]) d1 = Inr (nx', buf', d')"
        using Suc.prems(4) Some by (auto simp: Let_def)
      have n: "b \<le> n" using Suc.prems(3) Some by simp
      have i1: "rinv d0 b d1" using inv_removeChild [OF Suc.prems(1) n r] .
      have "inR b (dNextSibling d n)" using inv_nextSibling' [OF Suc.prems(1) n] .
      then show ?thesis using Suc.IH [OF i1 Suc.prems(2) _ rest] by simp
    qed
  qed
qed

lemma inv_ppText:
  assumes "rinv d0 b d" "b \<le> node" "b \<le> child" "inR b nx"
    and "ppText f node child nx d = Inr (nx', d')"
  shows "rinv d0 b d' \<and> inR b nx'"
proof -
  from assms(5) obtain x where
    c: "ppCoalesce f node nx [dData d child] d = Inr x"
    and r: "(case x of (next1, buf, d1) \<Rightarrow>
              let d2 = (if 1 < length buf then setData d1 child (concat buf) else d1)
              in if dData d2 child = []
                 then bindE (removeChild d2 node child) (\<lambda>d3. Inr (next1, d3))
                 else Inr (next1, d2)) = Inr (nx', d')"
    unfolding ppText_def bindE_Inr by blast
  obtain next1 buf d1 where x: "x = (next1, buf, d1)" by (cases x)
  have i1: "rinv d0 b d1" and n: "inR b next1"
    using inv_ppCoalesce [OF assms(1,2,4) c [unfolded x]] by simp_all
  define d2 where "d2 = (if 1 < length buf then setData d1 child (concat buf) else d1)"
  have i2: "rinv d0 b d2" using i1 assms(3) by (simp add: d2_def inv_setData)
  have r': "(if dData d2 child = []
             then bindE (removeChild d2 node child) (\<lambda>d3. Inr (next1, d3))
             else Inr (next1, d2)) = Inr (nx', d')"
    using r unfolding x prod.case Let_def d2_def [symmetric] by assumption
  show ?thesis
  proof (cases "dData d2 child = []")
    case True
    then obtain d3 where "removeChild d2 node child = Inr d3" "nx' = next1" "d' = d3"
      using r' by auto
    then show ?thesis using inv_removeChild [OF i2 assms(3)] n by simp
  next
    case False
    then show ?thesis using r' i2 n by simp
  qed
qed

lemma inv_ppStripNLs: "rinv d0 b d \<Longrightarrow> b \<le> c \<Longrightarrow> rinv d0 b (ppStripNLs dut prev c nx d)"
  by (simp add: ppStripNLs_def Let_def inv_setData)

lemma inv_ppSepStep:
  assumes "rinv d0 b d" "b \<le> node" "b \<le> c" "okVars b v"
    and "ppSepStep dut node c v d = Inr (v', d')"
  shows "rinv d0 b d' \<and> okVars b v'"
proof (cases "dType d c")
  case None
  then show ?thesis using assms by (simp add: ppSepStep_def)
next
  case (Some ty)
  show ?thesis
  proof (cases ty)
    case TEXT_NODE
    then show ?thesis using assms Some by (auto simp: ppSepStep_def okVars_def split: if_splits)
  next
    case COMMENT_NODE
    then show ?thesis using assms Some by (auto simp: ppSepStep_def okVars_def split: if_splits)
  next
    case ELEMENT_NODE
    show ?thesis
    proof (cases "\<not> waitForSentinel v \<and> isMarkerMeta dut d c ''mw:DiffMarker''")
      case True
      then obtain d1 where
        i: "insertBefore d node c (case prevSentinel v of Some ps \<Rightarrow> dNextSibling d ps
                                   | None \<Rightarrow> dFirstChild d node) = Inr d1"
        and e: "v' = v\<lparr>prevSentinel := Some c\<rparr>" "d' = d1"
        using assms(5) Some ELEMENT_NODE by (auto simp: ppSepStep_def)
      have "rinv d0 b d1" using inv_insertBefore [OF assms(1,2,3) i] .
      then show ?thesis using e assms(3,4) by (simp add: okVars_def)
    next
      case False
      then obtain d1 where
        i: "(if \<not> waitForSentinel v \<and> sepNodes v \<noteq> []
             then setupSeparator (prevSentinel v) (Some c) (sepNodes v) (sepText v) d
             else Inr d) = Inr d1"
        and e: "v' = \<lparr> prevSentinel = Some c, waitForSentinel = False,
                       sepNodes = [], sepText = [] \<rparr>" "d' = d1"
        using assms(5) Some ELEMENT_NODE by (auto simp: ppSepStep_def)
      have "rinv d0 b d1"
      proof (cases "\<not> waitForSentinel v \<and> sepNodes v \<noteq> []")
        case True
        then have "setupSeparator (prevSentinel v) (Some c) (sepNodes v) (sepText v) d = Inr d1"
          using i by simp
        then show ?thesis
          using inv_setupSeparator [OF assms(1), of "prevSentinel v" "Some c" "sepNodes v"]
            assms(3,4) by (simp add: okVars_def)
      next
        case False
        then show ?thesis using i assms(1) by auto
      qed
      then show ?thesis using e assms(3) by (simp add: okVars_def)
    qed
  qed
qed

lemma inv_ppStep2:
  assumes "rinv d0 b d" "b \<le> node" "b \<le> c" "okVars b v"
    and "ppStep2 dut node h prev c nx v d = Inr (v', d')"
  shows "rinv d0 b d' \<and> okVars b v'"
proof (cases "dType d c = Some TEXT_NODE \<and> dData d c = []")
  case True
  then obtain d1 where "removeChild d node c = Inr d1" "v' = v" "d' = d1"
    using assms(5) by (auto simp: ppStep2_def)
  then show ?thesis using inv_removeChild [OF assms(1,3)] assms(4) by simp
next
  case False
  show ?thesis
  proof (cases h)
    case True
    then have "ppSepStep dut node c v d = Inr (v', d')"
      using assms(5) False by (simp add: ppStep2_def)
    then show ?thesis using inv_ppSepStep [OF assms(1-4)] by simp
  next
    case h: False
    then have "v' = v"
      "d' = (if dType d c = Some TEXT_NODE then ppStripNLs dut prev c nx d else d)"
      using assms(5) False by (auto simp: ppStep2_def)
    then show ?thesis using assms(1,3,4) inv_ppStripNLs by simp
  qed
qed

lemma inv_ppLoop2:
  "rinv d0 b d \<Longrightarrow> b \<le> node \<Longrightarrow> inR b child \<Longrightarrow> okVars b v \<Longrightarrow>
   ppLoop2 f dut node h prev child v d = Inr (v', d') \<Longrightarrow> rinv d0 b d' \<and> okVars b v'"
proof (induction f arbitrary: child v d)
  case 0
  then show ?case by simp
next
  case (Suc f)
  show ?case
  proof (cases child)
    case None
    then show ?thesis using Suc.prems by simp
  next
    case (Some c)
    then obtain v1 d1 where
      s: "ppStep2 dut node h prev c (dNextSibling d c) v d = Inr (v1, d1)"
      and r: "ppLoop2 f dut node h prev (dNextSibling d c) v1 d1 = Inr (v', d')"
      using Suc.prems(5) by (auto simp: Let_def)
    have c: "b \<le> c" using Suc.prems(3) Some by simp
    have i1: "rinv d0 b d1" "okVars b v1"
      using inv_ppStep2 [OF Suc.prems(1,2) c Suc.prems(4) s] by simp_all
    have "inR b (dNextSibling d c)" using inv_nextSibling' [OF Suc.prems(1) c] .
    then show ?thesis using Suc.IH [OF i1(1) Suc.prems(2) _ i1(2) r] by simp
  qed
qed

lemma inv_ppSeparators:
  assumes "rinv d0 b d" "b \<le> node" "ppSeparators f dut node inPre h prev d = Inr d'"
  shows "rinv d0 b d'"
proof (cases "\<not> inPre \<and> \<not> isNodeOfType dut d node ''span'' ''mw:Entity'' \<and>
              (\<not> h \<or> hasElementChild dut d node)")
  case False
  then show ?thesis using assms by (auto simp: ppSeparators_def)
next
  case True
  define v0 where
    "v0 = \<lparr> prevSentinel = None, waitForSentinel = False, sepNodes = [], sepText = ([]::string list) \<rparr>"
  from True obtain v d1 where
    l: "ppLoop2 f dut node h prev (dFirstChild d node) v0 d = Inr (v, d1)"
    and r: "(if prevSentinel v \<noteq> None \<and> sepNodes v \<noteq> []
             then setupSeparator (prevSentinel v) None (sepNodes v) (sepText v) d1
             else Inr d1) = Inr d'"
    using assms(3) unfolding ppSeparators_def v0_def by auto
  have "okVars b v0" by (simp add: okVars_def v0_def)
  then have i1: "rinv d0 b d1" "okVars b v"
    using inv_ppLoop2 [OF assms(1,2) inv_firstChild' [OF assms(1,2)] _ l] by simp_all
  show ?thesis
  proof (cases "prevSentinel v \<noteq> None \<and> sepNodes v \<noteq> []")
    case True
    then have "setupSeparator (prevSentinel v) None (sepNodes v) (sepText v) d1 = Inr d'"
      using r by simp
    then show ?thesis
      using inv_setupSeparator [OF i1(1), of "prevSentinel v" None "sepNodes v"] i1(2)
      by (simp add: okVars_def)
  next
    case False
    then show ?thesis using r i1(1) by auto
  qed
qed

lemma inv_preprocessDOM_both:
  "(\<forall>node inPre sd st' d'. rinv d0 b (snd sd) \<longrightarrow> b \<le> node \<longrightarrow>
      preprocessDOM f dut node inPre h sd = Inr (st', d') \<longrightarrow> rinv d0 b d') \<and>
   (\<forall>node inPre child prev sd prev' st' d'. rinv d0 b (snd sd) \<longrightarrow> b \<le> node \<longrightarrow> inR b child \<longrightarrow>
      ppChildren f dut node inPre h child prev sd = Inr (prev', st', d') \<longrightarrow> rinv d0 b d')"
proof (induction f)
  case 0
  then show ?case by simp
next
  case (Suc f)
  have IH1: "\<And>node inPre sd st' d'. rinv d0 b (snd sd) \<Longrightarrow> b \<le> node \<Longrightarrow>
      preprocessDOM f dut node inPre h sd = Inr (st', d') \<Longrightarrow> rinv d0 b d'"
    using Suc.IH by blast
  have IH2: "\<And>node inPre child prev sd prev' st' d'. rinv d0 b (snd sd) \<Longrightarrow> b \<le> node \<Longrightarrow>
      inR b child \<Longrightarrow> ppChildren f dut node inPre h child prev sd = Inr (prev', st', d') \<Longrightarrow>
      rinv d0 b d'"
    using Suc.IH by blast
  have A: "rinv d0 b d'"
    if a: "rinv d0 b (snd sd)" "b \<le> node"
      "preprocessDOM (Suc f) dut node inPre h sd = Inr (st', d')"
    for node inPre sd st' d'
  proof (cases "toLowerCase (dName (snd sd) node) = ''meta''")
    case True
    then show ?thesis using a by auto
  next
    case False
    then obtain prev st1 d1 where
      c: "ppChildren f dut node inPre h (dFirstChild (snd sd) node) None sd = Inr (prev, st1, d1)"
      and s: "ppSeparators f dut node inPre h prev d1 = Inr d'"
      using a(3) by auto
    have "rinv d0 b d1" using IH2 [OF a(1,2) inv_firstChild' [OF a(1,2)] c] .
    then show ?thesis using inv_ppSeparators [OF _ a(2) s] by simp
  qed
  have B: "rinv d0 b d'"
    if a: "rinv d0 b (snd sd)" "b \<le> node" "inR b child"
      "ppChildren (Suc f) dut node inPre h child prev sd = Inr (prev', st', d')"
    for node inPre child prev sd prev' st' d'
  proof (cases child)
    case None
    then show ?thesis using a by auto
  next
    case (Some c)
    have c: "b \<le> c" using a(3) Some by simp
    from a(4) Some obtain st1 d1 nx1 d2 where
      p: "preprocessDOM f dut c (inPre \<or> hasNodeName dut (snd sd) c ''pre'') h sd = Inr (st1, d1)"
      and t: "(if dType d1 c = Some TEXT_NODE then ppText f node c (dNextSibling (snd sd) c) d1
               else Inr (dNextSibling (snd sd) c, d1)) = Inr (nx1, d2)"
      and r: "ppChildren f dut node inPre h nx1 (dPreviousSibling (snd sd) c) (st1, d2)
                = Inr (prev', st', d')"
      by (auto simp: Let_def)
    have i1: "rinv d0 b d1" using IH1 [OF a(1) c p] .
    have n: "inR b (dNextSibling (snd sd) c)" using inv_nextSibling' [OF a(1) c] .
    have i2: "rinv d0 b d2 \<and> inR b nx1"
    proof (cases "dType d1 c = Some TEXT_NODE")
      case True
      then have "ppText f node c (dNextSibling (snd sd) c) d1 = Inr (nx1, d2)" using t by simp
      then show ?thesis using inv_ppText [OF i1 a(2) c n] by simp
    next
      case False
      then show ?thesis using t i1 n by auto
    qed
    show ?thesis using IH2 [OF _ a(2) _ r] i2 by simp
  qed
  show ?case using A B by blast
qed

lemma inv_preprocessDOM:
  "rinv d0 b d \<Longrightarrow> b \<le> node \<Longrightarrow> preprocessDOM f dut node inPre h (st, d) = Inr (st', d') \<Longrightarrow>
   rinv d0 b d'"
  using inv_preprocessDOM_both [of d0 b f dut h] by (metis snd_conv)

lemma recOKD:
  "recOK d0 b rec \<Longrightarrow> rinv d0 b d \<Longrightarrow> b \<le> n \<Longrightarrow> rec n (st, d) = Inr (st', d') \<Longrightarrow> rinv d0 b d'"
  unfolding recOK_def by blast

lemma inv_liveChild: "rinv d0 b d \<Longrightarrow> b \<le> owner \<Longrightarrow> liveChild d owner i = Some k \<Longrightarrow> b \<le> k"
  using inv_kids [of d0 b d owner k] nth_mem [of i "dKids d owner"]
  by (auto simp: liveChild_def split: if_splits)

lemma inv_serializeChildrenLoop:
  assumes "recOK d0 b rec" "b \<le> owner"
  shows "rinv d0 b d \<Longrightarrow> serializeChildrenLoop rec owner ixs (st, d) = Inr (st', d') \<Longrightarrow>
         rinv d0 b d'"
proof (induction ixs arbitrary: st d)
  case Nil
  then show ?case by simp
next
  case (Cons i ixs)
  from Cons.prems(2) obtain k st1 d1 where
    k: "liveChild d owner i = Some k" and r: "rec k (st, d) = Inr (st1, d1)"
    and l: "serializeChildrenLoop rec owner ixs (st1, d1) = Inr (st', d')"
    by (auto split: option.splits)
  have "b \<le> k" using inv_liveChild [OF Cons.prems(1) assms(2) k] .
  then have "rinv d0 b d1" using recOKD [OF assms(1) Cons.prems(1) _ r] by simp
  then show ?case using Cons.IH [OF _ l] by simp
qed

lemma inv_serializeChildren:
  assumes "recOK d0 b rec" "b \<le> owner" "rinv d0 b d"
    and "serializeChildren rec owner cb w (st, d) = Inr (st', d')"
  shows "rinv d0 b d'"
proof -
  from assms(4) obtain st2 st3 where
    "serializeChildrenLoop rec owner [0 ..< length (dKids d owner)] (st2, d) = Inr (st3, d')"
    unfolding serializeChildren_def fst_conv snd_conv Let_def case_prod_beta bindE_Inr
    by (metis Inr_inject prod.collapse snd_conv)
  then show ?thesis using inv_serializeChildrenLoop [OF assms(1,2,3)] by simp
qed

lemma inv_serializeChildrenToStringD:
  assumes "recOK d0 b rec" "b \<le> owner" "rinv d0 b d"
    and "serializeChildrenToStringD rec owner w (st, d) = Inr (s, st', d')"
  shows "rinv d0 b d'"
proof -
  from assms(4) obtain st1 where
    "serializeChildren rec owner BitsCB w (st\<lparr>out := []\<rparr>, d) = Inr (st1, d')"
    unfolding serializeChildrenToStringD_def fst_conv snd_conv case_prod_beta bindE_Inr
    by (metis Inr_inject prod.collapse snd_conv)
  then show ?thesis using inv_serializeChildren [OF assms(1,2,3)] by simp
qed

lemma inv_loadData: "rinv d0 b d \<Longrightarrow> b \<le> node \<Longrightarrow> loadData u node d = Inr d' \<Longrightarrow> rinv d0 b d'"
proof -
  assume a: "rinv d0 b d" "b \<le> node" "loadData u node d = Inr d'"
  then obtain dp where
    "d' = updNode d node (\<lambda>n. n\<lparr>dataP := Some dp, dataS := loadedSerialize u d node\<rparr>)"
    by (auto simp: loadData_def)
  then show ?thesis using inv_updNode [OF a(1,2)] by (simp add: okNode_def)
qed

lemma inv_setTailPrefix: "rinv d0 b d \<Longrightarrow> b \<le> node \<Longrightarrow> rinv d0 b (setTailPrefix d node t p)"
  unfolding setTailPrefix_def by (rule inv_updNode) (simp_all add: okNode_def)

lemma inv_patchHtmlPre:
  assumes "rinv d0 b d" "b \<le> node" "patchHtmlPre node rt d = Inr d'"
  shows "rinv d0 b d'"
proof -
  define fc where "fc = dFirstChild d node"
  define fcText where
    "fcText = (case fc of None \<Rightarrow> None
               | Some k \<Rightarrow> if dType d k = Some TEXT_NODE then Some k else None)"
  define matches where "matches = (case fcText of None \<Rightarrow> None | Some k \<Rightarrow> leadingNL (dData d k))"
  define d1 where
    "d1 = (case (fcText, matches) of (Some k, Some m) \<Rightarrow> insertData0 d k m | _ \<Rightarrow> d)"
  have eq: "patchHtmlPre node rt d =
      (if matches = None \<and> truthy (strippedNL rt)
       then (case fcText of
               Some k \<Rightarrow> Inr (insertData0 d1 k (orElse (strippedNL rt) []))
             | None \<Rightarrow> let (d2, t) = createTextNode d1 (orElse (strippedNL rt) [])
                       in insertBefore d2 node t fc)
       else Inr d1)"
    unfolding patchHtmlPre_def Let_def fc_def fcText_def matches_def d1_def by (rule refl)
  have fcb: "inR b fc" unfolding fc_def using inv_firstChild' [OF assms(1,2)] .
  have ft: "\<And>k. fcText = Some k \<Longrightarrow> b \<le> k"
    using fcb unfolding fcText_def by (auto split: option.splits if_splits)
  have i1: "rinv d0 b d1"
    unfolding d1_def using assms(1) ft inv_insertData0
    by (auto split: option.splits)
  show ?thesis
  proof (cases "matches = None \<and> truthy (strippedNL rt)")
    case False
    then show ?thesis using assms(3) i1 unfolding eq by auto
  next
    case True
    show ?thesis
    proof (cases fcText)
      case (Some k)
      then have "d' = insertData0 d1 k (orElse (strippedNL rt) [])"
        using assms(3) True unfolding eq by simp
      then show ?thesis using inv_insertData0 [OF i1 ft [OF Some]] by simp
    next
      case None
      obtain d2 t where c: "createTextNode d1 (orElse (strippedNL rt) []) = (d2, t)"
        by (cases "createTextNode d1 (orElse (strippedNL rt) [])")
      then have ins: "insertBefore d2 node t fc = Inr d'"
        using assms(3) True None unfolding eq by simp
      have "rinv d0 b d2 \<and> b \<le> t" using inv_createTextNode [OF i1 c] .
      then show ?thesis using inv_insertBefore [OF _ assms(2) _ ins] by simp
    qed
  qed
qed

lemma inv_htmlElementHandler:
  assumes "recOK d0 b rec" "b \<le> node" "rinv d0 b d"
    and "htmlElementHandler rec e node cb (st, d) = Inr (st', d')"
  shows "rinv d0 b d'"
proof -
  from assms(4) obtain st2 x where
    x: "(if dKids d node \<noteq> [] then serializeChildren rec node cb None (st2, d)
         else Inr (st2, d)) = Inr x" and e: "d' = snd x"
    unfolding htmlElementHandler_def fst_conv snd_conv Let_def case_prod_beta bindE_Inr
    by auto
  obtain st3 where x': "x = (st3, d')" using e by (cases x) auto
  show ?thesis using x inv_serializeChildren [OF assms(1,2,3)] assms(3) unfolding x'
    by (auto split: if_splits)
qed

lemma inv_wikiLinkBody:
  assumes "recOK d0 b rec" "b \<le> node" "rinv d0 b d"
    and "wikiLinkBody rec node cb body (st, d) = Inr (st', d')"
  shows "rinv d0 b d'"
proof (cases body)
  case (SimpleLink s)
  then show ?thesis using assms(3,4) by (simp add: wikiLinkBody_def)
next
  case (PipedString s)
  then show ?thesis using assms(3,4) by (simp add: wikiLinkBody_def)
next
  case (PipedNodes target keepEmpty)
  then obtain x t p where
    s: "serializeChildrenToStringD rec node (Some WikilinkHandler) (st, d) = Inr x"
    and e: "d' = setTailPrefix (snd (snd x)) node t p"
    using assms(4) unfolding wikiLinkBody_def Let_def case_prod_beta bindE_Inr
    by auto
  obtain cs st3 d2 where x: "x = (cs, st3, d2)" by (cases x) auto
  have "rinv d0 b d2" using inv_serializeChildrenToStringD [OF assms(1,2,3) s [unfolded x]] .
  then show ?thesis using e inv_setTailPrefix [OF _ assms(2)] by (simp add: x)
qed

lemma inv_linkBranch:
  assumes "recOK d0 b rec" "b \<le> node" "rinv d0 b d"
    and "linkBranch rec e node cb plan (st, d) = Inr (st', d')"
  shows "rinv d0 b d'"
proof (cases plan)
  case (WikiLinkPlan sortKey body)
  define d1 where
    "d1 = (case sortKey of None \<Rightarrow> d | Some tp \<Rightarrow> setTailPrefix d node (fst tp) (snd tp))"
  have i1: "rinv d0 b d1"
    unfolding d1_def using assms(2,3) inv_setTailPrefix by (auto split: option.splits)
  have "wikiLinkBody rec node cb body (st\<lparr>onStartOfLine := False\<rparr>, d1) = Inr (st', d')"
    using assms(4) WikiLinkPlan unfolding d1_def
    by (cases sortKey) (simp_all add: linkBranch_def)
  then show ?thesis using inv_wikiLinkBody [OF assms(1,2) i1] by simp
next
  case (ExtLinkPlan target)
  then obtain x where
    s: "serializeChildrenToStringD rec node (Some AHandler) (st\<lparr>onStartOfLine := False\<rparr>, d)
       = Inr x" and e: "d' = snd (snd x)"
    using assms(4) unfolding linkBranch_def case_prod_beta by auto
  obtain cs st3 where x: "x = (cs, st3, d')" using e by (cases x) auto
  show ?thesis using inv_serializeChildrenToStringD [OF assms(1,2,3) s [unfolded x]] .
next
  case MagicLinkPlan
  then show ?thesis using assms(3,4) by (auto simp: linkBranch_def split: option.splits)
next
  case (TextPlan s)
  then show ?thesis using assms(3,4) by (auto simp: linkBranch_def)
next
  case HtmlPlan
  then show ?thesis using assms(4) inv_htmlElementHandler [OF assms(1,2,3)]
    by (simp add: linkBranch_def)
qed

lemma inv_linkHandler:
  assumes "recOK d0 b rec" "b \<le> node" "rinv d0 b d"
    and "linkHandler rec e node cb (st, d) = Inr (st', d')"
  shows "rinv d0 b d'"
proof -
  from assms(4) obtain plan st1 where
    "linkBranch rec e node cb plan (st1, d) = Inr (st', d')"
    by (auto simp: linkHandler_def)
  then show ?thesis using inv_linkBranch [OF assms(1,2,3)] by simp
qed

lemma inv_findImgD:
  assumes "rinv d0 b d" "b \<le> node" "findImgD d node = Some (img, caption)"
  shows "b \<le> caption"
proof -
  have "dLastChild d node = Some caption"
    using assms(3) by (auto simp: findImgD_def split: option.splits if_splits)
  then show ?thesis using inv_lastChild [OF assms(1,2)] by simp
qed

lemma inv_figureHandlerD:
  assumes "recOK d0 b rec" "b \<le> node" "rinv d0 b d"
    and "figureHandlerD rec e node cb (st, d) = Inr (st', d')"
  shows "rinv d0 b d'"
proof (cases "findImgD d node")
  case None
  then show ?thesis using assms(3,4) by (auto simp: figureHandlerD_def)
next
  case (Some ic)
  obtain img caption where ic: "ic = (img, caption)" by (cases ic)
  from assms(4) Some ic obtain x where
    s: "serializeChildrenToStringD rec caption (Some AHandler) (st, d) = Inr x"
    and e: "d' = snd (snd x)"
    unfolding figureHandlerD_def fst_conv snd_conv Let_def case_prod_beta
    by (auto split: option.splits)
  obtain cs st1 where x: "x = (cs, st1, d')" using e by (cases x) auto
  have "b \<le> caption" using inv_findImgD [OF assms(3,2)] Some ic by simp
  then show ?thesis using inv_serializeChildrenToStringD [OF assms(1) _ assms(3) s [unfolded x]]
    by simp
qed

lemma inv_getDOMHandler:
  assumes "recOK d0 b rec" "b \<le> node" "rinv d0 b d"
    and "getDOMHandler rec e node (st, d) = Inr (h, st', d')"
  shows "rinv d0 b d'"
proof -
  from assms(4) obtain dp ty where
    r: "(let nm = toLowerCase (dName d node);
             nodeTypeOf = orElse ty []
         in if src dp \<noteq> None \<and> (nodeTypeOf = ''mw:TemplateSource'' \<or> nodeTypeOf = ''mw:Placeholder'')
            then Inr (Some SrcHandler, st, d)
            else if src dp \<noteq> None \<and> nodeTypeOf = ''mw:Entity''
            then bindE (serializeChildrenToStringD rec node None (st, d)) (\<lambda>(contentSrc, sd1).
                   Inr (Some (EntityHandler contentSrc), sd1))
            else if nm = ''span'' \<and> nodeTypeOf = ''mw:Image''
            then Inr (Some LinkNodeHandler, fst (st, d),
                      setAttribute (setAttribute d node ''rel'' ''mw:Image'') node ''href'' [])
            else
              bindE (htmlSyntax dp nm node d) (\<lambda>html.
                Inr (if html then None
                     else if nm = ''a'' \<or> nm = ''link'' then Some LinkNodeHandler
                     else if nm = ''figure'' then Some FigureNodeHandler
                     else None, st, d))) = Inr (h, st', d')"
    unfolding getDOMHandler_def snd_conv bindE_Inr by blast
  define nm where "nm = toLowerCase (dName d node)"
  define nodeTypeOf where "nodeTypeOf = orElse ty []"
  note r' = r [unfolded Let_def, folded nm_def nodeTypeOf_def]
  consider (a) "src dp \<noteq> None \<and> (nodeTypeOf = ''mw:TemplateSource'' \<or> nodeTypeOf = ''mw:Placeholder'')"
    | (b) "\<not> (src dp \<noteq> None \<and> (nodeTypeOf = ''mw:TemplateSource'' \<or> nodeTypeOf = ''mw:Placeholder''))"
          "src dp \<noteq> None \<and> nodeTypeOf = ''mw:Entity''"
    | (c) "\<not> (src dp \<noteq> None \<and> (nodeTypeOf = ''mw:TemplateSource'' \<or> nodeTypeOf = ''mw:Placeholder''))"
          "\<not> (src dp \<noteq> None \<and> nodeTypeOf = ''mw:Entity'')"
          "nm = ''span'' \<and> nodeTypeOf = ''mw:Image''"
    | (d) "\<not> (src dp \<noteq> None \<and> (nodeTypeOf = ''mw:TemplateSource'' \<or> nodeTypeOf = ''mw:Placeholder''))"
          "\<not> (src dp \<noteq> None \<and> nodeTypeOf = ''mw:Entity'')"
          "\<not> (nm = ''span'' \<and> nodeTypeOf = ''mw:Image'')"
    by blast
  then show ?thesis
  proof cases
    case a
    then have "d' = d" using r' by simp
    then show ?thesis using assms(3) by simp
  next
    case b
    then obtain x where
      s: "serializeChildrenToStringD rec node None (st, d) = Inr x" and e: "d' = snd (snd x)"
      using r' by (auto simp: case_prod_beta)
    obtain cs st1 where x: "x = (cs, st1, d')" using e by (cases x) auto
    show ?thesis using inv_serializeChildrenToStringD [OF assms(1,2,3) s [unfolded x]] .
  next
    case c
    then have "d' = setAttribute (setAttribute d node ''rel'' ''mw:Image'') node ''href'' []"
      using r' by auto
    then show ?thesis using assms(2,3) by (simp add: inv_setAttribute)
  next
    case d
    then have "d' = d" using r' by auto
    then show ?thesis using assms(3) by simp
  qed
qed

lemma inv_handleDOM:
  assumes "recOK d0 b rec" "b \<le> node" "rinv d0 b d"
    and "handleDOM rec e h node cb (st, d) = Inr (st', d')"
  shows "rinv d0 b d'"
proof (cases h)
  case SrcHandler
  then show ?thesis using assms(3,4) by (auto simp: handleDOM_def)
next
  case (EntityHandler s)
  then show ?thesis using assms(3,4) by (auto simp: handleDOM_def)
next
  case LinkNodeHandler
  then show ?thesis using assms(4) inv_linkHandler [OF assms(1,2,3)] by (simp add: handleDOM_def)
next
  case FigureNodeHandler
  then show ?thesis using assms(4) inv_figureHandlerD [OF assms(1,2,3)] by (simp add: handleDOM_def)
qed

lemma inv_tokenChildren:
  assumes "recOK d0 b rec" "b \<le> node"
  shows "rinv d0 b d \<Longrightarrow> tokenChildren rec e node ixs pe (st, d) = Inr (pe', st', d') \<Longrightarrow>
         rinv d0 b d'"
proof (induction ixs arbitrary: pe st d)
  case Nil
  then show ?case by simp
next
  case (Cons i ixs)
  from Cons.prems(2) obtain child where k: "liveChild d node i = Some child"
    by (auto split: option.splits)
  have c: "b \<le> child" using inv_liveChild [OF Cons.prems(1) assms(2) k] .
  show ?case
  proof (cases "isMarkerMeta (du e) d child ''mw:Separator''")
    case True
    then have "tokenChildren rec e node ixs pe (st, d) = Inr (pe', st', d')"
      using Cons.prems(2) k by simp
    then show ?thesis using Cons.IH [OF Cons.prems(1)] by simp
  next
    case False
    then obtain st1 pe1 st2 d2 where
      r: "rec child (st1, d) = Inr (st2, d2)"
      and l: "tokenChildren rec e node ixs pe1 (st2, d2) = Inr (pe', st', d')"
      using Cons.prems(2) k by (auto simp: Let_def)
    have "rinv d0 b d2" using recOKD [OF assms(1) Cons.prems(1) c r] .
    then show ?thesis using Cons.IH [OF _ l] by simp
  qed
qed

lemma inv_tokenBased:
  assumes "recOK d0 b rec" "b \<le> node" "rinv d0 b d"
    and "tokenBased rec e node nm ta rt ts (st, d) = Inr (st', d')"
  shows "rinv d0 b d'"
proof -
  from assms(4) obtain st3 x where
    t: "tokenChildren rec e node [0 ..< length (dKids d node)] None (st3, d) = Inr x"
    and e: "d' = snd (snd x)"
    unfolding tokenBased_def fst_conv snd_conv Let_def case_prod_beta bindE_Inr
    by auto
  obtain pe st4 where x: "x = (pe, st4, d')" using e by (cases x) auto
  show ?thesis using inv_tokenChildren [OF assms(1,2,3) t [unfolded x]] .
qed

lemma inv_dispatchElement:
  assumes "recOK d0 b rec" "b \<le> node" "rinv d0 b d"
    and "dispatchElement rec e node nm ta rt ts (st, d) = Inr (st', d')"
  shows "rinv d0 b d'"
proof -
  from assms(4) obtain x where
    g: "getDOMHandler rec e node (st, d) = Inr x"
    and r: "(case fst x of
               Some dh \<Rightarrow>
                 bindE (handleDOM rec e dh node (WrapCB (chunkCBOf (fst (snd x)))) (fst (snd x), snd (snd x)))
                   (\<lambda>p. let tk = Some (Tag \<lparr> tt = EndTagTk, name = nm, attribs = ta, dataAttribs = rt \<rparr>)
                        in Inr ((fst p)\<lparr>curToken := tk, prevToken := tk, currTagToken := tk,
                                  prevTagToken := tk\<rparr>, snd p))
             | None \<Rightarrow> tokenBased rec e node nm ta rt ts (fst (snd x), snd (snd x))) = Inr (st', d')"
    unfolding dispatchElement_def case_prod_beta bindE_Inr by blast
  obtain h st3 d3 where x: "x = (h, st3, d3)" by (cases x) auto
  have i3: "rinv d0 b d3" using inv_getDOMHandler [OF assms(1,2,3) g [unfolded x]] .
  show ?thesis
  proof (cases h)
    case None
    then show ?thesis using r inv_tokenBased [OF assms(1,2) i3] by (simp add: x)
  next
    case (Some dh)
    then obtain p where
      h: "handleDOM rec e dh node (WrapCB (chunkCBOf st3)) (st3, d3) = Inr p" and e: "d' = snd p"
      using r by (auto simp: x Let_def)
    obtain st4 where p: "p = (st4, d')" using e by (cases p) auto
    show ?thesis using inv_handleDOM [OF assms(1,2) i3 h [unfolded p]] .
  qed
qed

lemma inv_serializeElement:
  assumes "recOK d0 b rec" "b \<le> node" "rinv d0 b d"
    and "serializeElement rec e node (st, d) = Inr (st', d')"
  shows "rinv d0 b d'"
proof -
  from assms(4) obtain rt d1 d2 nm ta ts st2 x where
    l: "loadData (du e) node d = Inr d1"
    and p: "(if nm = ''pre'' \<and> stx rt = Some ''html'' then patchHtmlPre node rt d1 else Inr d1) = Inr d2"
    and g: "dispatchElement rec e node nm ta rt ts (st2, d2) = Inr x" and e: "d' = snd x"
    unfolding serializeElement_def fst_conv snd_conv Let_def bindE_Inr case_prod_beta
    by auto
  obtain st5 where x: "x = (st5, d')" using e by (cases x) auto
  have i1: "rinv d0 b d1" using inv_loadData [OF assms(3,2) l] .
  have i2: "rinv d0 b d2" using p i1 inv_patchHtmlPre [OF i1 assms(2)] by (auto split: if_splits)
  show ?thesis using inv_dispatchElement [OF assms(1,2) i2 g [unfolded x]] .
qed

lemma inv_serializeNodeBody:
  assumes "recOK d0 b rec" "b \<le> node" "rinv d0 b d"
    and "serializeNodeBody f rec e node (st, d) = Inr (st', d')"
  shows "rinv d0 b d'"
proof (cases "dType d node")
  case None
  then show ?thesis using assms(4) by (simp add: serializeNodeBody_def)
next
  case (Some ty)
  show ?thesis
  proof (cases ty)
    case ELEMENT_NODE
    then obtain don st1 where
      r: "(if don then Inr (st1, d) else serializeElement rec e node (st1, d)) = Inr (st', d')"
      using assms(4) Some unfolding serializeNodeBody_def snd_conv fst_conv case_prod_beta
      by (cases "templateCheck e node st d") auto
    show ?thesis
    proof (cases don)
      case True
      then show ?thesis using r assms(3) by simp
    next
      case False
      then show ?thesis using r inv_serializeElement [OF assms(1,2,3)] by simp
    qed
  next
    case TEXT_NODE
    then have "d' = d" using assms(4) Some
      unfolding serializeNodeBody_def fst_conv snd_conv Let_def bindE_Inr by auto
    then show ?thesis using assms(3) by simp
  next
    case COMMENT_NODE
    then have "d' = d" using assms(4) Some by (auto simp: serializeNodeBody_def)
    then show ?thesis using assms(3) by simp
  qed
qed

lemma recOK_serializeNode: "recOK d0 b (serializeNode f e)"
proof (induction f)
  case 0
  then show ?case by (simp add: recOK_def)
next
  case (Suc f)
  show ?case unfolding recOK_def
  proof (intro allI impI)
    fix n st d st' d'
    assume "rinv d0 b d" "b \<le> n" "serializeNode (Suc f) e n (st, d) = Inr (st', d')"
    then show "rinv d0 b d'" using inv_serializeNodeBody [OF Suc.IH] by simp
  qed
qed

lemma inv_cloneKids_step:
  assumes "\<And>i d c d'. rinv d0 b d \<Longrightarrow> cloneNode f i d = Inr (c, d') \<Longrightarrow> rinv d0 b d' \<and> b \<le> c"
  shows "rinv d0 b d \<Longrightarrow> b \<le> c \<Longrightarrow> cloneKids f c ks d = Inr d' \<Longrightarrow> rinv d0 b d'"
proof (induction ks arbitrary: d)
  case Nil
  then show ?case by simp
next
  case (Cons k ks)
  from Cons.prems(3) obtain ck d1 d2 where
    c: "cloneNode f k d = Inr (ck, d1)" and i: "insertBefore d1 c ck None = Inr d2"
    and r: "cloneKids f c ks d2 = Inr d'"
    by auto
  have i1: "rinv d0 b d1" "b \<le> ck" using assms [OF Cons.prems(1) c] by simp_all
  have "rinv d0 b d2" using inv_insertBefore [OF i1(1) Cons.prems(2) i1(2) i] .
  then show ?case using Cons.IH [OF _ Cons.prems(2) r] by simp
qed

lemma inv_cloneNode:
  "rinv d0 b d \<Longrightarrow> cloneNode f i d = Inr (c, d') \<Longrightarrow> rinv d0 b d' \<and> b \<le> c"
proof (induction f arbitrary: i d c d')
  case 0
  then show ?case by simp
next
  case (Suc f)
  from Suc.prems(2) obtain n where n: "heap d i = Some n" by (auto split: option.splits)
  obtain d1 c1 where
    a: "alloc d (n\<lparr>kids := [], parent := None, dataP := None, dataS := None\<rparr>) = (d1, c1)"
    by (cases "alloc d (n\<lparr>kids := [], parent := None, dataP := None, dataS := None\<rparr>)")
  from Suc.prems(2) n a have k: "cloneKids f c1 (kids n) d1 = Inr d'" and c: "c = c1"
    by auto
  have i1: "rinv d0 b d1 \<and> b \<le> c1"
    by (rule inv_alloc [OF Suc.prems(1) a]) (simp add: okNode_def)
  have "rinv d0 b d'"
    using inv_cloneKids_step [of d0 b f d1 c1 "kids n" d'] Suc.IH i1 k by blast
  then show ?case using i1 c by simp
qed

lemma rinv_init: "wfStore d \<Longrightarrow> rinv d (fresh d) d"
  by (simp add: rinv_def frame_def closed_def wfStore_def)

text \<open>The run on \<open>headingDoc\<close>: the two text nodes of the clone are coalesced.\<close>

lemma headingDoc_run:
  "(case serializeDOM (Suc (Suc (Suc (Suc 0)))) plainEnv None 0 None headingDoc of
      Inl e \<Rightarrow> False
    | Inr (res, d') \<Rightarrow>
        res = [([], None), (''=='', None), (''ab'', None), (''=='', None),
               ([nl], Some ''separator''), ([], None), ([], None)] \<and>
        map_option cdata (heap d' 4) = Some ''ab'')"
  by code_simp

text \<open>
  Claim C10.  A call of \<^verbatim>\<open>serializeDOM\<close> without a \<^verbatim>\<open>selser\<close> argument that returns
  leaves every node object of the caller as it was: in a store where no node object exists
  beyond \<open>fresh\<close>, every node object that existed before the call is the same after it.
  The node is cloned first, and preprocessing and the walk only change node objects
  created by the clone or after it.
\<close>

theorem serializeDOM_frame:
  assumes "wfStore d" "serializeDOM f e pagesrc node None d = Inr (res, d')" "i < fresh d"
  shows "heap d' i = heap d i"
proof -
  from assms(2) obtain node1 d1 st2 d2 st4 where
    c: "cloneNode f node d = Inr (node1, d1)"
    and p: "preprocessDOM f (du e) node1 False (truthy pagesrc)
              (initialState\<lparr>pageSrc := pagesrc\<rparr>, d1) = Inr (st2, d2)"
    and w: "serializeNode f e node1 (st2\<lparr>chunkCBOf := TopCB, out := []\<rparr>, d2) = Inr (st4, d')"
    unfolding serializeDOM_def Let_def bindE_Inr by auto
  have i0: "rinv d (fresh d) d" using rinv_init [OF assms(1)] .
  have i1: "rinv d (fresh d) d1" "fresh d \<le> node1" using inv_cloneNode [OF i0 c] by simp_all
  have i2: "rinv d (fresh d) d2" using inv_preprocessDOM [OF i1 p] .
  have "rinv d (fresh d) d'" using recOKD [OF recOK_serializeNode i2 i1(2) w] .
  then show ?thesis using assms(3) by (simp add: rinv_def frame_def)
qed

theorem serializeDOM_frame_witness:
  "wfStore headingDoc \<and>
   (\<exists>d'. serializeDOM (Suc (Suc (Suc (Suc 0)))) plainEnv None 0 None headingDoc =
           Inr ([([], None), (''=='', None), (''ab'', None), (''=='', None),
                 ([nl], Some ''separator''), ([], None), ([], None)], d') \<and>
         map_option cdata (heap d' 4) = Some ''ab'' \<and>
         heap d' 0 = Some (exNode ELEMENT_NODE ''H2'' [] [1, 2] None) \<and>
         heap d' 1 = Some (exNode TEXT_NODE ''#text'' ''a'' [] (Some 0)) \<and>
         heap d' 2 = Some (exNode TEXT_NODE ''#text'' ''b'' [] (Some 0)))"
proof -
  have wf: "wfStore headingDoc" by (simp add: wfStore_def headingDoc_def)
  obtain res d' where
    r: "serializeDOM (Suc (Suc (Suc (Suc 0)))) plainEnv None 0 None headingDoc = Inr (res, d')"
    and c: "res = [([], None), (''=='', None), (''ab'', None), (''=='', None),
                   ([nl], Some ''separator''), ([], None), ([], None)]"
           "map_option cdata (heap d' 4) = Some ''ab''"
    using headingDoc_run
    by (cases "serializeDOM (Suc (Suc (Suc (Suc 0)))) plainEnv None 0 None headingDoc") auto
  have f: "\<And>i. i < 3 \<Longrightarrow> heap d' i = heap headingDoc i"
    using serializeDOM_frame [OF wf r] by (simp add: headingDoc_def)
  have "heap d' 0 = heap headingDoc 0" "heap d' 1 = heap headingDoc 1"
    "heap d' 2 = heap headingDoc 2"
    using f by simp_all
  then have "heap d' 0 = Some (exNode ELEMENT_NODE ''H2'' [] [1, 2] None)"
    "heap d' 1 = Some (exNode TEXT_NODE ''#text'' ''a'' [] (Some 0))"
    "heap d' 2 = Some (exNode TEXT_NODE ''#text'' ''b'' [] (Some 0))"
    by (simp_all add: headingDoc_def)
  then show ?thesis using wf r c by simp
qed

end
